(* ===== verification/Hook_Prelude.thy ===== *)
theory Hook_Prelude
  imports Main "HOL-Library.Word" "HOL-Library.Sublist"
begin

text \<open>
  Shared vocabulary of the development: the types every component uses, Rust's \<open>?\<close> operator as
  the combinators \<open>attempt\<close> (stateful handlers) and \<open>check\<close> (pure guards), the operations of
  Rust's \<open>str\<close> and \<open>Vec\<close> that the daemon relies on, and the generic list lemmas shared by the
  component theories.

  Text is modelled as the UTF-8 bytes of the Rust \<open>String\<close> (one \<open>char\<close> per byte), so \<open>length\<close> is
  Rust's \<open>len\<close>.  The predicates the code applies to \<open>char\<close>s (ASCII letters, digits, single
  separators) hold of ASCII bytes only, and no byte of a multi-byte sequence is ASCII, so working
  byte by byte gives the answers Rust gives char by char.
\<close>

named_theorems early_return \<open>unfolding rules for the early-return combinators\<close>

type_synonym uuid = "128 word"
type_synonym bytes = string
type_synonym time = int \<comment> \<open>a chrono \<open>NaiveDateTime\<close>, as nanoseconds since the Unix epoch\<close>

section \<open>Early returns\<close>

text \<open>
  A handler takes the state and returns a result together with the state it leaves behind: an
  error return keeps every write made before it, exactly as the code does (no handler opens a
  transaction).  \<open>attempt r s k\<close> is \<open>let x = r?; k\<close>.
\<close>

definition attempt :: "('e + 'a) \<Rightarrow> 's \<Rightarrow> ('a \<Rightarrow> ('e + 'b) \<times> 's) \<Rightarrow> ('e + 'b) \<times> 's" where
  "attempt r s k = (case r of Inl e \<Rightarrow> (Inl e, s) | Inr x \<Rightarrow> k x)"

definition check :: "('e + 'a) \<Rightarrow> ('a \<Rightarrow> 'e + 'b) \<Rightarrow> 'e + 'b" where
  "check r k = (case r of Inl e \<Rightarrow> Inl e | Inr x \<Rightarrow> k x)"

definition ok_or :: "'a option \<Rightarrow> 'e \<Rightarrow> 'e + 'a" where
  "ok_or x e = (case x of None \<Rightarrow> Inl e | Some v \<Rightarrow> Inr v)"

definition unwrap_or :: "'a option \<Rightarrow> 'a \<Rightarrow> 'a" where
  "unwrap_or x d = (case x of None \<Rightarrow> d | Some v \<Rightarrow> v)"

definition filter_opt :: "('a \<Rightarrow> bool) \<Rightarrow> 'a option \<Rightarrow> 'a option" where
  "filter_opt P x = (case x of None \<Rightarrow> None | Some v \<Rightarrow> if P v then Some v else None)"

text \<open>\<open>if not b then return Err(e)\<close>.\<close>

definition require :: "bool \<Rightarrow> 'e \<Rightarrow> 'e + unit" where
  "require b e = (if b then Inr () else Inl e)"

lemma require_simps [simp]:
  "require True e = Inr ()"
  "require False e = Inl e"
  by (simp_all add: require_def)

lemma attempt_simps [simp]:
  "attempt (Inl e) s k = (Inl e, s)"
  "attempt (Inr x) s k = k x"
  by (simp_all add: attempt_def)

lemma check_simps [simp]:
  "check (Inl e) k = Inl e"
  "check (Inr x) k = k x"
  by (simp_all add: check_def)

lemma ok_or_simps [simp]:
  "ok_or None e = Inl e"
  "ok_or (Some v) e = Inr v"
  by (simp_all add: ok_or_def)

lemma unwrap_or_simps [simp]:
  "unwrap_or None d = d"
  "unwrap_or (Some v) d = v"
  by (simp_all add: unwrap_or_def)

lemma unwrap_or_lowered: "x \<noteq> Some True \<Longrightarrow> unwrap_or x b \<Longrightarrow> b"
  by (cases x) auto

lemma unwrap_or_flag: "unwrap_or x False \<longleftrightarrow> x = Some True"
  by (cases x) auto

lemma filter_opt_simps [simp]:
  "filter_opt P None = None"
  "filter_opt P (Some v) = (if P v then Some v else None)"
  by (simp_all add: filter_opt_def)

lemma filter_opt_Some_iff: "filter_opt P x = Some v \<longleftrightarrow> x = Some v \<and> P v"
  by (cases x) auto

lemma attempt_ok [early_return]:
  "attempt r s k = (Inr y, s') \<longleftrightarrow> (\<exists>x. r = Inr x \<and> k x = (Inr y, s'))"
  by (cases r) auto

lemma check_ok [early_return]: "check r k = Inr y \<longleftrightarrow> (\<exists>x. r = Inr x \<and> k x = Inr y)"
  by (cases r) auto

lemma ok_or_ok [early_return]: "ok_or x e = Inr v \<longleftrightarrow> x = Some v"
  by (cases x) auto

lemma require_ok [early_return]: "require b e = Inr u \<longleftrightarrow> b"
  by (simp add: require_def)

lemma attempt_split:
  "P (attempt r s k) \<longleftrightarrow> (\<forall>e. r = Inl e \<longrightarrow> P (Inl e, s)) \<and> (\<forall>x. r = Inr x \<longrightarrow> P (k x))"
  by (cases r) auto

lemma attempt_split_asm:
  "P (attempt r s k) \<longleftrightarrow>
     \<not> ((\<exists>e. r = Inl e \<and> \<not> P (Inl e, s)) \<or> (\<exists>x. r = Inr x \<and> \<not> P (k x)))"
  by (cases r) auto

lemmas attempt_splits = attempt_split attempt_split_asm

text \<open>A guard that leaves the state alone: the state after \<open>attempt\<close> is the continuation's.\<close>

lemma attempt_state:
  assumes "\<And>x. r = Inr x \<Longrightarrow> Q (snd (k x))" and "Q s"
  shows "Q (snd (attempt r s k))"
  using assms by (cases r) auto

lemma attempt_cong [fundef_cong]:
  assumes "r = r'" and "s = s'" and "\<And>x. r' = Inr x \<Longrightarrow> k x = k' x"
  shows "attempt r s k = attempt r' s' k'"
  using assms by (cases r') auto

section \<open>ASCII classes\<close>

abbreviation byte_code :: "char \<Rightarrow> nat" where
  "byte_code c \<equiv> of_char c"

definition is_ascii_digit :: "char \<Rightarrow> bool" where
  "is_ascii_digit c \<longleftrightarrow> 48 \<le> byte_code c \<and> byte_code c \<le> 57"

definition is_ascii_alphabetic :: "char \<Rightarrow> bool" where
  "is_ascii_alphabetic c \<longleftrightarrow>
     (65 \<le> byte_code c \<and> byte_code c \<le> 90) \<or> (97 \<le> byte_code c \<and> byte_code c \<le> 122)"

definition is_ascii_alphanumeric :: "char \<Rightarrow> bool" where
  "is_ascii_alphanumeric c \<longleftrightarrow> is_ascii_alphabetic c \<or> is_ascii_digit c"

definition is_ascii_hexdigit :: "char \<Rightarrow> bool" where
  "is_ascii_hexdigit c \<longleftrightarrow> is_ascii_digit c
     \<or> (65 \<le> byte_code c \<and> byte_code c \<le> 70) \<or> (97 \<le> byte_code c \<and> byte_code c \<le> 102)"

definition ascii_upper :: "char \<Rightarrow> char" where
  "ascii_upper c =
     (if 97 \<le> byte_code c \<and> byte_code c \<le> 122 then char_of (byte_code c - 32) else c)"

definition ascii_lower :: "char \<Rightarrow> char" where
  "ascii_lower c =
     (if 65 \<le> byte_code c \<and> byte_code c \<le> 90 then char_of (byte_code c + 32) else c)"

section \<open>The operations of Rust's str\<close>

definition strip_prefix :: "string \<Rightarrow> string \<Rightarrow> string option" where
  "strip_prefix p s = (if take (length p) s = p then Some (drop (length p) s) else None)"

lemma strip_prefix_Some: "strip_prefix p s = Some t \<longleftrightarrow> s = p @ t"
  by (auto simp: strip_prefix_def) (metis append_take_drop_id)

lemma strip_prefix_append [simp]: "strip_prefix p (p @ s) = Some s"
  by (simp add: strip_prefix_Some)

lemma strip_prefix_None: "strip_prefix p s = None \<longleftrightarrow> \<not> (\<exists>t. s = p @ t)"
  by (metis not_None_eq strip_prefix_Some)

text \<open>\<open>str::split(c)\<close>: at least one piece, empty pieces kept.\<close>

fun split_on :: "char \<Rightarrow> string \<Rightarrow> string list" where
  "split_on c [] = [[]]"
| "split_on c (x # xs) =
     (if x = c then [] # split_on c xs
      else (case split_on c xs of [] \<Rightarrow> [[x]] | p # ps \<Rightarrow> (x # p) # ps))"

lemma split_on_nonempty [simp]: "split_on c s \<noteq> []"
  by (induction s) (auto split: list.splits)

text \<open>\<open>str::split_once(c)\<close>: cut at the first occurrence.\<close>

fun split_once :: "char \<Rightarrow> string \<Rightarrow> (string \<times> string) option" where
  "split_once c [] = None"
| "split_once c (x # xs) =
     (if x = c then Some ([], xs) else map_option (\<lambda>(a, b). (x # a, b)) (split_once c xs))"

lemma split_once_append: "c \<notin> set a \<Longrightarrow> split_once c (a @ c # b) = Some (a, b)"
  by (induction a) auto

text \<open>\<open>str::contains(pat)\<close>.\<close>

fun str_contains :: "string \<Rightarrow> string \<Rightarrow> bool" where
  "str_contains p [] = (p = [])"
| "str_contains p (x # xs) = (prefix p (x # xs) \<or> str_contains p xs)"

lemma str_contains_iff: "str_contains p s \<longleftrightarrow> (\<exists>a b. s = a @ p @ b)"
proof (induction s)
  case Nil
  then show ?case by simp
next
  case (Cons x xs)
  show ?case
  proof
    assume "str_contains p (x # xs)"
    then consider "prefix p (x # xs)" | "str_contains p xs" by auto
    then show "\<exists>a b. x # xs = a @ p @ b"
    proof cases
      case 1
      then show ?thesis by (metis append_Nil prefixE)
    next
      case 2
      then show ?thesis using Cons.IH by (metis append_Cons)
    qed
  next
    assume "\<exists>a b. x # xs = a @ p @ b"
    then obtain a b where ab: "x # xs = a @ p @ b" by blast
    show "str_contains p (x # xs)"
    proof (cases a)
      case Nil
      with ab have "prefix p (x # xs)" by (simp add: prefix_def)
      then show ?thesis by simp
    next
      case (Cons y ys)
      with ab have "xs = ys @ p @ b" by simp
      with Cons.IH show ?thesis by auto
    qed
  qed
qed

text \<open>
  \<open>str::replace(pat, rep)\<close> for a non-empty pattern: left to right, non-overlapping, the
  replacement is not scanned again.
\<close>

function str_replace :: "string \<Rightarrow> string \<Rightarrow> string \<Rightarrow> string" where
  "str_replace pat rep s =
     (if s = [] then []
      else if pat \<noteq> [] \<and> prefix pat s then rep @ str_replace pat rep (drop (length pat) s)
      else hd s # str_replace pat rep (tl s))"
  by pat_completeness auto
termination
  by (relation "measure (\<lambda>(pat, rep, s). length s)") auto

declare str_replace.simps [simp del]

lemma str_replace_Nil [simp]: "str_replace pat rep [] = []"
  by (simp add: str_replace.simps)

lemma str_replace_absent:
  "\<not> str_contains pat s \<Longrightarrow> str_replace pat rep s = s"
proof (induction s)
  case Nil
  then show ?case by simp
next
  case (Cons x xs)
  then show ?case by (subst str_replace.simps) auto
qed

text \<open>\<open>str::trim\<close> removes the 25 code points of Unicode's White\_Space property.\<close>

definition whitespace :: "string list" where
  "whitespace =
     [[CHR 0x09], [CHR 0x0A], [CHR 0x0B], [CHR 0x0C], [CHR 0x0D], [CHR 0x20],
      [CHR 0xC2, CHR 0x85], [CHR 0xC2, CHR 0xA0], [CHR 0xE1, CHR 0x9A, CHR 0x80],
      [CHR 0xE2, CHR 0x80, CHR 0x80], [CHR 0xE2, CHR 0x80, CHR 0x81],
      [CHR 0xE2, CHR 0x80, CHR 0x82], [CHR 0xE2, CHR 0x80, CHR 0x83],
      [CHR 0xE2, CHR 0x80, CHR 0x84], [CHR 0xE2, CHR 0x80, CHR 0x85],
      [CHR 0xE2, CHR 0x80, CHR 0x86], [CHR 0xE2, CHR 0x80, CHR 0x87],
      [CHR 0xE2, CHR 0x80, CHR 0x88], [CHR 0xE2, CHR 0x80, CHR 0x89],
      [CHR 0xE2, CHR 0x80, CHR 0x8A], [CHR 0xE2, CHR 0x80, CHR 0xA8],
      [CHR 0xE2, CHR 0x80, CHR 0xA9], [CHR 0xE2, CHR 0x80, CHR 0xAF],
      [CHR 0xE2, CHR 0x81, CHR 0x9F], [CHR 0xE3, CHR 0x80, CHR 0x80]]"

function trim_front :: "string list \<Rightarrow> string \<Rightarrow> string" where
  "trim_front ws s =
     (case List.find (\<lambda>w. w \<noteq> [] \<and> prefix w s) ws of
        None \<Rightarrow> s
      | Some w \<Rightarrow> trim_front ws (drop (length w) s))"
  by pat_completeness auto
termination
  by (relation "measure (\<lambda>(ws, s). length s)") (auto simp: find_Some_iff prefix_def)

declare trim_front.simps [simp del]

definition trim_start :: "string \<Rightarrow> string" where
  "trim_start s = trim_front whitespace s"

definition trim_end :: "string \<Rightarrow> string" where
  "trim_end s = rev (trim_front (map rev whitespace) (rev s))"

definition trim :: "string \<Rightarrow> string" where
  "trim s = trim_end (trim_start s)"

text \<open>\<open>str::split_whitespace\<close>: the maximal runs between white space.\<close>

function split_ws :: "string \<Rightarrow> string \<Rightarrow> string list" where
  "split_ws acc s =
     (if s = [] then (if acc = [] then [] else [rev acc])
      else (case List.find (\<lambda>w. w \<noteq> [] \<and> prefix w s) whitespace of
              None \<Rightarrow> split_ws (hd s # acc) (tl s)
            | Some w \<Rightarrow> (if acc = [] then [] else [rev acc]) @ split_ws [] (drop (length w) s)))"
  by pat_completeness auto
termination
  by (relation "measure (\<lambda>(acc, s). length s)") (auto simp: find_Some_iff prefix_def)

declare split_ws.simps [simp del]

definition split_whitespace :: "string \<Rightarrow> string list" where
  "split_whitespace s = split_ws [] s"

text \<open>\<open>[S]::join(sep)\<close>.\<close>

fun join :: "string \<Rightarrow> string list \<Rightarrow> string" where
  "join sep [] = []"
| "join sep [x] = x"
| "join sep (x # y # r) = x @ sep @ join sep (y # r)"

text \<open>Decimal text of the integers the messages print.\<close>

fun nat_text :: "nat \<Rightarrow> string" where
  "nat_text n =
     (if n < 10 then [char_of (48 + n)] else nat_text (n div 10) @ [char_of (48 + n mod 10)])"

declare nat_text.simps [simp del]

definition int_text :: "int \<Rightarrow> string" where
  "int_text i = (if i < 0 then ''-'' @ nat_text (nat (- i)) else nat_text (nat i))"

definition single_quoted :: "string \<Rightarrow> string" where
  "single_quoted s = [CHR 0x27] @ s @ [CHR 0x27]"

section \<open>Lists as tables\<close>

text \<open>
  A table is the list of its rows in insertion order.  \<open>List.find\<close> is \<open>.one(db)\<close>, \<open>filter\<close> is
  \<open>.all(db)\<close> or the complement of \<open>delete_many\<close>, \<open>replace_row\<close> is \<open>ActiveModel::update\<close> by
  primary key.
\<close>

definition replace_row :: "('r \<Rightarrow> 'k) \<Rightarrow> 'r \<Rightarrow> 'r list \<Rightarrow> 'r list" where
  "replace_row key r rs = map (\<lambda>x. if key x = key r then r else x) rs"

lemma map_key_replace_row [simp]: "map key (replace_row key r rs) = map key rs"
  by (induction rs) (auto simp: replace_row_def)

lemma set_replace_row:
  "x \<in> set (replace_row key r rs) \<longleftrightarrow>
     (x \<in> set rs \<and> key x \<noteq> key r) \<or> (x = r \<and> key r \<in> key ` set rs)"
  by (simp add: replace_row_def image_iff) (metis (mono_tags))

lemma filter_replace_out:
  assumes "\<And>x. x \<in> set rs \<Longrightarrow> key x = key r \<Longrightarrow> \<not> P x" and "\<not> P r"
  shows "filter P (replace_row key r rs) = filter P rs"
  using assms by (induction rs) (auto simp: replace_row_def)

lemma map_filter_replace_in:
  assumes "\<And>x. x \<in> set rs \<Longrightarrow> key x = key r \<Longrightarrow> P x \<and> f x = f r" and "P r"
  shows "map f (filter P (replace_row key r rs)) = map f (filter P rs)"
  using assms by (induction rs) (auto simp: replace_row_def)

lemma find_by_key:
  assumes "distinct (map key rs)" and "x \<in> set rs"
  shows "List.find (\<lambda>r. key r = key x) rs = Some x"
  using assms by (induction rs) auto

lemma find_append:
  "List.find P (xs @ ys) = (case List.find P xs of None \<Rightarrow> List.find P ys | Some x \<Rightarrow> Some x)"
  by (induction xs) auto

lemma find_SomeD: "List.find P rs = Some x \<Longrightarrow> x \<in> set rs \<and> P x"
  by (auto simp: find_Some_iff)

lemma find_key_iff:
  assumes "distinct (map key rs)"
  shows "List.find (\<lambda>r. key r = k) rs = Some x \<longleftrightarrow> x \<in> set rs \<and> key x = k"
  using assms find_by_key find_SomeD by fastforce

lemma distinct_map_filter_key: "distinct (map key rs) \<Longrightarrow> distinct (map key (filter P rs))"
  by (rule distinct_map_filter)

lemma same_key_eq:
  "distinct (map key rs) \<Longrightarrow> x \<in> set rs \<Longrightarrow> y \<in> set rs \<Longrightarrow> key x = key y \<Longrightarrow> x = y"
  by (metis distinct_map inj_on_eq_iff)

end
