(* ===== verification/App_Error.thy ===== *)
theory App_Error
  imports Hook_Prelude
begin

text \<open>
  The JSON values the daemon exchanges, the third-party functions it calls, and its one error type
  with the HTTP answer each variant becomes (\<open>src/error.rs\<close>).

  A \<open>serde_json::Map\<close> is the list of its entries in iteration order.  The functions of crates that
  are not part of the repository (uuid, sha2, hmac, hex, serde\_json, ipnetwork, chrono,
  chacha20poly1305, axum's path extractor) are the fields of the record \<open>externals\<close>: every
  definition that needs one takes the record as its argument \<open>X\<close>, and what a theorem relies on is
  stated as a hypothesis about the fields it uses.
\<close>

datatype json =
    JNull
  | JBool bool
  | JNumber string \<comment> \<open>the number's decimal text\<close>
  | JString string
  | JArray "json list"
  | JObject "(string \<times> json) list"

datatype ip = V4 "32 word" | V6 "128 word"

datatype network = Network ip nat \<comment> \<open>an address and its prefix length\<close>

record externals =
  x_uuid_parse :: "string \<Rightarrow> uuid option"
  x_uuid_text :: "uuid \<Rightarrow> string"
  x_ip_text :: "ip \<Rightarrow> string"
  x_sha256 :: "bytes \<Rightarrow> bytes"
  x_hex_encode :: "bytes \<Rightarrow> string"
  x_hex_decode :: "string \<Rightarrow> bytes option"
  x_hmac_sha256 :: "bytes \<Rightarrow> bytes \<Rightarrow> bytes option"
  x_aead_encrypt :: "bytes \<Rightarrow> bytes \<Rightarrow> bytes \<Rightarrow> bytes option"
  x_aead_decrypt :: "bytes \<Rightarrow> bytes \<Rightarrow> bytes \<Rightarrow> bytes option"
  x_json_parse :: "bytes \<Rightarrow> string + json"
  x_json_text :: "json \<Rightarrow> string"
  x_network_parse :: "string \<Rightarrow> network option"
  x_network_contains :: "network \<Rightarrow> ip \<Rightarrow> bool"
  x_rfc3339 :: "string \<Rightarrow> time option"
  x_days_before :: "time \<Rightarrow> int \<Rightarrow> time option" \<comment> \<open>\<open>now - Duration::days(d)\<close>; None where chrono panics\<close>
  x_sql_like :: "string \<Rightarrow> string \<Rightarrow> bool" \<comment> \<open>the engine's LIKE: pattern, text\<close>
  x_path_decode :: "string \<Rightarrow> string"

section \<open>The error type\<close>

datatype db_err = UniqueConstraintViolation | ForeignKeyViolation | RecordNotUpdated

datatype app_error =
    DbError db_err
  | InvalidInput string
  | Unauthorized string
  | Forbidden string
  | NotFound
  | Conflict string
  | ConflictWithDetails string json
  | TooManyRequests string
  | BodyRejected nat string
  | Internal

type_synonym 'a result = "app_error + 'a"

section \<open>The HTTP answer\<close>

text \<open>
  \<open>envelope.insert\<close> on a \<open>serde_json::Map\<close>: the entry replaces one with the same key.
\<close>

fun object_insert :: "string \<Rightarrow> json \<Rightarrow> (string \<times> json) list \<Rightarrow> (string \<times> json) list" where
  "object_insert k v [] = [(k, v)]"
| "object_insert k v ((k', v') # r) =
     (if k = k' then (k, v) # r else (k', v') # object_insert k v r)"

fun merge_details :: "(string \<times> json) list \<Rightarrow> (string \<times> json) list \<Rightarrow> (string \<times> json) list" where
  "merge_details env [] = env"
| "merge_details env ((k, v) # r) =
     merge_details (if k \<noteq> ''error'' then object_insert k v env else env) r"

definition error_body :: "string \<Rightarrow> json" where
  "error_body msg = JObject [(''error'', JString msg)]"

fun into_response :: "app_error \<Rightarrow> nat \<times> json" where
  "into_response (ConflictWithDetails message details) =
     (409, case details of
             JObject extra \<Rightarrow> JObject (merge_details [(''error'', JString message)] extra)
           | _ \<Rightarrow> error_body message)"
| "into_response (DbError _) = (500, error_body ''Internal database error'')"
| "into_response (InvalidInput msg) = (400, error_body msg)"
| "into_response (Unauthorized msg) = (401, error_body msg)"
| "into_response (Forbidden msg) = (403, error_body msg)"
| "into_response NotFound = (404, error_body ''Resource not found'')"
| "into_response (Conflict msg) = (409, error_body msg)"
| "into_response (TooManyRequests msg) = (429, error_body msg)"
| "into_response (BodyRejected status msg) = (status, error_body msg)"
| "into_response Internal = (500, error_body ''An internal server error occurred'')"

lemma object_insert_other: "k \<noteq> k' \<Longrightarrow> map_of (object_insert k v env) k' = map_of env k'"
  by (induction k v env rule: object_insert.induct) auto

lemma object_insert_same: "map_of (object_insert k v env) k = Some v"
  by (induction k v env rule: object_insert.induct) auto

lemma merge_details_error:
  "map_of (merge_details env extra) ''error'' = map_of env ''error''"
  by (induction env extra rule: merge_details.induct) (auto simp: object_insert_other)

lemma merge_details_keeps:
  assumes "k \<notin> fst ` set extra"
  shows "map_of (merge_details env extra) k = map_of env k"
  using assms
  by (induction env extra rule: merge_details.induct) (auto simp: object_insert_other)

lemma merge_details_adds:
  assumes "distinct (map fst extra)" and "(k, v) \<in> set extra" and "k \<noteq> ''error''"
  shows "map_of (merge_details env extra) k = Some v"
  using assms
proof (induction env extra rule: merge_details.induct)
  case (1 env)
  then show ?case by simp
next
  case (2 env k' v' r)
  show ?case
  proof (cases "k = k'")
    case True
    with "2.prems" have "v = v'" and "k \<notin> fst ` set r"
      by (auto simp: image_iff)
    with True "2.prems"(3) show ?thesis
      by (simp add: merge_details_keeps object_insert_same)
  next
    case False
    with "2.prems" have "distinct (map fst r)" and "(k, v) \<in> set r" by auto
    with "2.IH" "2.prems"(3) show ?thesis by simp
  qed
qed

definition error_field :: "json \<Rightarrow> json option" where
  "error_field body = (case body of JObject entries \<Rightarrow> map_of entries ''error'' | _ \<Rightarrow> None)"

end
