(* ===== verification/Entities.thy ===== *)
theory Entities
  imports App_Error
begin

text \<open>
  The rows of the six tables, one record per \<open>src/entities\<close> module with the entity's columns, the
  two stored enumerations, and the database as the record of its tables.
\<close>

datatype hmac_mode = HmacCanonicalV1

record api_key =
  ak_id :: uuid
  ak_name :: string
  ak_key_hash :: string
  ak_prefix :: string
  ak_key_id :: "string option"
  ak_signing_secret :: "string option"
  ak_hmac_mode :: hmac_mode
  ak_bound_ips :: "string option"
  ak_max_concurrent_jobs :: int
  ak_is_master :: bool
  ak_can_manage_keys :: bool
  ak_can_manage_hooks :: bool
  ak_parent_key_id :: "uuid option"
  ak_created_at :: time
  ak_updated_at :: time
  ak_canonical_template :: "string option"

datatype auth_mode = CanonicalV1 | ApiKeyOnly | HmacOnly | NoAuth

record hook =
  hk_id :: uuid
  hk_name :: string
  hk_description :: "string option"
  hk_script_path :: string
  hk_default_timeout_seconds :: int
  hk_run_as_user :: "string option"
  hk_owner_key_id :: "uuid option"
  hk_is_deleted :: bool
  hk_deleted_at :: "time option"
  hk_deleted_by :: "string option"
  hk_created_at :: time
  hk_updated_at :: time
  hk_auth_mode :: auth_mode
  hk_hmac_secret :: "string option"
  hk_signature_header :: "string option"
  hk_signature_prefix :: "string option"
  hk_canonical_template :: "string option"
  hk_sample_payload_json :: "string option"
  hk_args_template :: "string option"

record hook_parameter =
  hp_id :: uuid
  hp_hook_id :: uuid
  hp_param_key :: string
  hp_description :: "string option"
  hp_default_value :: "string option"
  hp_is_required :: bool
  hp_created_at :: time

record permission =
  pm_id :: uuid
  pm_api_key_id :: uuid
  pm_hook_id :: uuid
  pm_can_execute :: bool
  pm_can_manage :: bool
  pm_can_view_execution :: bool
  pm_created_at :: time

datatype execution_status = Success | Failed | Timeout

record execution =
  ex_id :: uuid
  ex_hook_id :: uuid
  ex_api_key_id :: "uuid option"
  ex_status :: execution_status
  ex_exit_code :: "int option"
  ex_stdout :: string
  ex_stderr :: string
  ex_parameters_json :: string
  ex_duration_ms :: int
  ex_timestamp :: time

record audit_log =
  al_id :: uuid
  al_api_key_id :: "uuid option"
  al_api_key_name :: string
  al_api_key_prefix :: string
  al_client_ip :: string
  al_action :: string
  al_target_resource :: "string option"
  al_details :: "string option"
  al_timestamp :: time

record database =
  db_keys :: "api_key list"
  db_hooks :: "hook list"
  db_params :: "hook_parameter list"
  db_perms :: "permission list"
  db_execs :: "execution list"
  db_audit :: "audit_log list"

end
