(* ===== verification/Store.thy ===== *)
theory Store
  imports Entities
begin

text \<open>
  The database behind the handlers: the queries \<open>src/api\<close> issues and the writes, with the
  constraints and foreign-key actions of \<open>src/migration\<close> (primary keys, the unique indexes, the
  engine-derived master marker, \<open>ON DELETE CASCADE\<close> and \<open>SET NULL\<close>).  A write that a constraint
  refuses is an error value and changes nothing.  \<open>wf_db\<close> says that the constraints hold; every
  write keeps it.  The locales \<open>append_table\<close> and \<open>table\<close> state what the handlers rely on of a
  table and are interpreted on each one.
\<close>

section \<open>Constraints\<close>

text \<open>The marker \<open>CASE WHEN is_master THEN 1 ELSE NULL END\<close>; NULLs do not collide in the index.\<close>

definition master_marker :: "api_key \<Rightarrow> nat option" where
  "master_marker k = (if ak_is_master k then Some 1 else None)"

definition nullable_clash :: "'v option \<Rightarrow> 'v option \<Rightarrow> bool" where
  "nullable_clash a b \<longleftrightarrow> a \<noteq> None \<and> a = b"

definition key_clash :: "api_key \<Rightarrow> api_key \<Rightarrow> bool" where
  "key_clash a b \<longleftrightarrow> ak_key_hash a = ak_key_hash b
     \<or> nullable_clash (ak_key_id a) (ak_key_id b)
     \<or> nullable_clash (master_marker a) (master_marker b)"

definition key_exists :: "uuid \<Rightarrow> database \<Rightarrow> bool" where
  "key_exists i db \<longleftrightarrow> i \<in> ak_id ` set (db_keys db)"

definition hook_exists :: "uuid \<Rightarrow> database \<Rightarrow> bool" where
  "hook_exists i db \<longleftrightarrow> i \<in> hk_id ` set (db_hooks db)"

definition nullable_fk :: "uuid option \<Rightarrow> database \<Rightarrow> bool" where
  "nullable_fk r db \<longleftrightarrow> (case r of None \<Rightarrow> True | Some i \<Rightarrow> key_exists i db)"

definition wf_keys :: "database \<Rightarrow> bool" where
  "wf_keys db \<longleftrightarrow> distinct (map ak_id (db_keys db))
     \<and> (\<forall>a\<in>set (db_keys db). \<forall>b\<in>set (db_keys db). key_clash a b \<longrightarrow> ak_id a = ak_id b)"

definition wf_hooks :: "database \<Rightarrow> bool" where
  "wf_hooks db \<longleftrightarrow> distinct (map hk_id (db_hooks db)) \<and> distinct (map hk_name (db_hooks db))"

definition wf_params :: "database \<Rightarrow> bool" where
  "wf_params db \<longleftrightarrow> distinct (map hp_id (db_params db))
     \<and> distinct (map (\<lambda>p. (hp_hook_id p, hp_param_key p)) (db_params db))
     \<and> (\<forall>p\<in>set (db_params db). hook_exists (hp_hook_id p) db)"

definition wf_perms :: "database \<Rightarrow> bool" where
  "wf_perms db \<longleftrightarrow> distinct (map pm_id (db_perms db))
     \<and> distinct (map (\<lambda>p. (pm_api_key_id p, pm_hook_id p)) (db_perms db))
     \<and> (\<forall>p\<in>set (db_perms db). key_exists (pm_api_key_id p) db \<and> hook_exists (pm_hook_id p) db)"

definition wf_execs :: "database \<Rightarrow> bool" where
  "wf_execs db \<longleftrightarrow> distinct (map ex_id (db_execs db))
     \<and> (\<forall>e\<in>set (db_execs db). hook_exists (ex_hook_id e) db \<and> nullable_fk (ex_api_key_id e) db)"

definition wf_audit :: "database \<Rightarrow> bool" where
  "wf_audit db \<longleftrightarrow> distinct (map al_id (db_audit db))
     \<and> (\<forall>l\<in>set (db_audit db). nullable_fk (al_api_key_id l) db)"

definition wf_db :: "database \<Rightarrow> bool" where
  "wf_db db \<longleftrightarrow> wf_keys db \<and> wf_hooks db \<and> wf_params db \<and> wf_perms db \<and> wf_execs db \<and> wf_audit db"

lemmas wf_tables_def = wf_keys_def wf_hooks_def wf_params_def wf_perms_def wf_execs_def wf_audit_def

section \<open>Queries\<close>

definition find_key :: "database \<Rightarrow> uuid \<Rightarrow> api_key option" where
  "find_key db i = List.find (\<lambda>k. ak_id k = i) (db_keys db)"

definition find_key_by_hash :: "database \<Rightarrow> string \<Rightarrow> api_key option" where
  "find_key_by_hash db h = List.find (\<lambda>k. ak_key_hash k = h) (db_keys db)"

definition find_hook :: "database \<Rightarrow> uuid \<Rightarrow> hook option" where
  "find_hook db i = List.find (\<lambda>h. hk_id h = i) (db_hooks db)"

definition find_hook_by_name :: "database \<Rightarrow> string \<Rightarrow> hook option" where
  "find_hook_by_name db n = List.find (\<lambda>h. hk_name h = n) (db_hooks db)"

definition find_param :: "database \<Rightarrow> uuid \<Rightarrow> hook_parameter option" where
  "find_param db i = List.find (\<lambda>p. hp_id p = i) (db_params db)"

definition find_exec :: "database \<Rightarrow> uuid \<Rightarrow> execution option" where
  "find_exec db i = List.find (\<lambda>e. ex_id e = i) (db_execs db)"

definition hook_permission :: "database \<Rightarrow> uuid \<Rightarrow> uuid \<Rightarrow> permission option" where
  "hook_permission db key_id hook_id =
     List.find (\<lambda>p. pm_api_key_id p = key_id \<and> pm_hook_id p = hook_id) (db_perms db)"

section \<open>Writes\<close>

definition insert_key :: "api_key \<Rightarrow> database \<Rightarrow> db_err + database" where
  "insert_key r db =
     (if list_ex (\<lambda>k. ak_id k = ak_id r \<or> key_clash k r) (db_keys db)
      then Inl UniqueConstraintViolation
      else Inr (db\<lparr>db_keys := db_keys db @ [r]\<rparr>))"

definition update_key :: "api_key \<Rightarrow> database \<Rightarrow> db_err + database" where
  "update_key r db =
     (if \<not> list_ex (\<lambda>k. ak_id k = ak_id r) (db_keys db) then Inl RecordNotUpdated
      else if list_ex (\<lambda>k. ak_id k \<noteq> ak_id r \<and> key_clash k r) (db_keys db)
      then Inl UniqueConstraintViolation
      else Inr (db\<lparr>db_keys := replace_row ak_id r (db_keys db)\<rparr>))"

definition null_key :: "uuid list \<Rightarrow> uuid option \<Rightarrow> uuid option" where
  "null_key gone r = (case r of Some i \<Rightarrow> if i \<in> set gone then None else Some i | None \<Rightarrow> None)"

text \<open>
  \<open>DELETE FROM api_keys WHERE id IN (...)\<close>: permission rows cascade, executions and audit entries
  keep their row with the reference set to NULL; \<open>parent_key_id\<close> and \<open>owner_key_id\<close> carry no
  foreign key and stay as they are.
\<close>

definition delete_keys :: "uuid list \<Rightarrow> database \<Rightarrow> nat \<times> database" where
  "delete_keys gone db =
     (length (filter (\<lambda>k. ak_id k \<in> set gone) (db_keys db)),
      db\<lparr>db_keys := filter (\<lambda>k. ak_id k \<notin> set gone) (db_keys db),
         db_perms := filter (\<lambda>p. pm_api_key_id p \<notin> set gone) (db_perms db),
         db_execs := map (\<lambda>e. e\<lparr>ex_api_key_id := null_key gone (ex_api_key_id e)\<rparr>) (db_execs db),
         db_audit := map (\<lambda>l. l\<lparr>al_api_key_id := null_key gone (al_api_key_id l)\<rparr>) (db_audit db)\<rparr>)"

definition insert_hook :: "hook \<Rightarrow> database \<Rightarrow> db_err + database" where
  "insert_hook r db =
     (if list_ex (\<lambda>h. hk_id h = hk_id r \<or> hk_name h = hk_name r) (db_hooks db)
      then Inl UniqueConstraintViolation
      else Inr (db\<lparr>db_hooks := db_hooks db @ [r]\<rparr>))"

definition update_hook_row :: "hook \<Rightarrow> database \<Rightarrow> db_err + database" where
  "update_hook_row r db =
     (if \<not> list_ex (\<lambda>h. hk_id h = hk_id r) (db_hooks db) then Inl RecordNotUpdated
      else if list_ex (\<lambda>h. hk_id h \<noteq> hk_id r \<and> hk_name h = hk_name r) (db_hooks db)
      then Inl UniqueConstraintViolation
      else Inr (db\<lparr>db_hooks := replace_row hk_id r (db_hooks db)\<rparr>))"

text \<open>\<open>DELETE FROM hooks WHERE ...\<close>: parameters, permissions and executions cascade.\<close>

definition delete_hooks :: "(hook \<Rightarrow> bool) \<Rightarrow> database \<Rightarrow> nat \<times> database" where
  "delete_hooks P db =
     (let gone = map hk_id (filter P (db_hooks db))
      in (length gone,
          db\<lparr>db_hooks := filter (\<lambda>h. \<not> P h) (db_hooks db),
             db_params := filter (\<lambda>p. hp_hook_id p \<notin> set gone) (db_params db),
             db_perms := filter (\<lambda>p. pm_hook_id p \<notin> set gone) (db_perms db),
             db_execs := filter (\<lambda>e. ex_hook_id e \<notin> set gone) (db_execs db)\<rparr>))"

definition insert_param :: "hook_parameter \<Rightarrow> database \<Rightarrow> db_err + database" where
  "insert_param r db =
     (if list_ex (\<lambda>p. hp_id p = hp_id r
                    \<or> hp_hook_id p = hp_hook_id r \<and> hp_param_key p = hp_param_key r) (db_params db)
      then Inl UniqueConstraintViolation
      else if \<not> list_ex (\<lambda>h. hk_id h = hp_hook_id r) (db_hooks db) then Inl ForeignKeyViolation
      else Inr (db\<lparr>db_params := db_params db @ [r]\<rparr>))"

definition update_param :: "hook_parameter \<Rightarrow> database \<Rightarrow> db_err + database" where
  "update_param r db =
     (if \<not> list_ex (\<lambda>p. hp_id p = hp_id r) (db_params db) then Inl RecordNotUpdated
      else if list_ex (\<lambda>p. hp_id p \<noteq> hp_id r \<and> hp_hook_id p = hp_hook_id r
                         \<and> hp_param_key p = hp_param_key r) (db_params db)
      then Inl UniqueConstraintViolation
      else if \<not> list_ex (\<lambda>h. hk_id h = hp_hook_id r) (db_hooks db) then Inl ForeignKeyViolation
      else Inr (db\<lparr>db_params := replace_row hp_id r (db_params db)\<rparr>))"

definition delete_param :: "uuid \<Rightarrow> database \<Rightarrow> database" where
  "delete_param i db = db\<lparr>db_params := filter (\<lambda>p. hp_id p \<noteq> i) (db_params db)\<rparr>"

text \<open>
  \<open>INSERT ... ON CONFLICT (api_key_id, hook_id) DO UPDATE SET\<close>: \<open>upd old new\<close> is the conflicting
  row with the listed columns taken from the new one.
\<close>

definition upsert_perm ::
  "(permission \<Rightarrow> permission \<Rightarrow> permission) \<Rightarrow> permission \<Rightarrow> database \<Rightarrow> db_err + database" where
  "upsert_perm upd r db =
     (if hook_permission db (pm_api_key_id r) (pm_hook_id r) \<noteq> None
      then Inr (db\<lparr>db_perms :=
             map (\<lambda>p. if pm_api_key_id p = pm_api_key_id r \<and> pm_hook_id p = pm_hook_id r
                      then upd p r else p) (db_perms db)\<rparr>)
      else if list_ex (\<lambda>p. pm_id p = pm_id r) (db_perms db) then Inl UniqueConstraintViolation
      else if \<not> (list_ex (\<lambda>k. ak_id k = pm_api_key_id r) (db_keys db)
                 \<and> list_ex (\<lambda>h. hk_id h = pm_hook_id r) (db_hooks db)) then Inl ForeignKeyViolation
      else Inr (db\<lparr>db_perms := db_perms db @ [r]\<rparr>))"

definition delete_perms :: "uuid \<Rightarrow> uuid \<Rightarrow> database \<Rightarrow> nat \<times> database" where
  "delete_perms key_id hook_id db =
     (length (filter (\<lambda>p. pm_api_key_id p = key_id \<and> pm_hook_id p = hook_id) (db_perms db)),
      db\<lparr>db_perms :=
         filter (\<lambda>p. \<not> (pm_api_key_id p = key_id \<and> pm_hook_id p = hook_id)) (db_perms db)\<rparr>)"

definition nullable_fk_ok :: "uuid option \<Rightarrow> database \<Rightarrow> bool" where
  "nullable_fk_ok r db =
     (case r of None \<Rightarrow> True | Some i \<Rightarrow> list_ex (\<lambda>k. ak_id k = i) (db_keys db))"

definition insert_exec :: "execution \<Rightarrow> database \<Rightarrow> db_err + database" where
  "insert_exec r db =
     (if list_ex (\<lambda>e. ex_id e = ex_id r) (db_execs db) then Inl UniqueConstraintViolation
      else if \<not> (list_ex (\<lambda>h. hk_id h = ex_hook_id r) (db_hooks db)
                 \<and> nullable_fk_ok (ex_api_key_id r) db) then Inl ForeignKeyViolation
      else Inr (db\<lparr>db_execs := db_execs db @ [r]\<rparr>))"

definition delete_execs :: "(execution \<Rightarrow> bool) \<Rightarrow> database \<Rightarrow> nat \<times> database" where
  "delete_execs P db =
     (length (filter P (db_execs db)), db\<lparr>db_execs := filter (\<lambda>e. \<not> P e) (db_execs db)\<rparr>)"

definition insert_audit :: "audit_log \<Rightarrow> database \<Rightarrow> db_err + database" where
  "insert_audit r db =
     (if list_ex (\<lambda>l. al_id l = al_id r) (db_audit db) then Inl UniqueConstraintViolation
      else if \<not> nullable_fk_ok (al_api_key_id r) db then Inl ForeignKeyViolation
      else Inr (db\<lparr>db_audit := db_audit db @ [r]\<rparr>))"

section \<open>What a table promises\<close>

locale append_table =
  fixes rows :: "database \<Rightarrow> 'r list"
    and pk :: "'r \<Rightarrow> uuid"
    and insert_row :: "'r \<Rightarrow> database \<Rightarrow> db_err + database"
  assumes pk_distinct: "wf_db d \<Longrightarrow> distinct (map pk (rows d))"
    and insert_rows: "insert_row r d = Inr d' \<Longrightarrow> rows d' = rows d @ [r]"
    and insert_fresh: "insert_row r d = Inr d' \<Longrightarrow> pk r \<notin> pk ` set (rows d)"
    and insert_wf: "wf_db d \<Longrightarrow> insert_row r d = Inr d' \<Longrightarrow> wf_db d'"
begin

lemma set_after_insert: "insert_row r d = Inr d' \<Longrightarrow> set (rows d') = insert r (set (rows d))"
  by (simp add: insert_rows)

lemma find_iff:
  "wf_db d \<Longrightarrow> List.find (\<lambda>r. pk r = i) (rows d) = Some x \<longleftrightarrow> x \<in> set (rows d) \<and> pk x = i"
  by (rule find_key_iff) (rule pk_distinct)

lemma find_after_insert:
  assumes "wf_db d" and "insert_row r d = Inr d'"
  shows "List.find (\<lambda>x. pk x = i) (rows d') =
    (if i = pk r then Some r else List.find (\<lambda>x. pk x = i) (rows d))"
proof (cases "i = pk r")
  case True
  have "r \<in> set (rows d')" using assms(2) by (simp add: set_after_insert)
  with assms show ?thesis using True find_iff[OF insert_wf[OF assms]] by simp
next
  case False
  then show ?thesis using assms(2) by (simp add: insert_rows find_append split: option.splits)
qed

lemma row_unique: "wf_db d \<Longrightarrow> x \<in> set (rows d) \<Longrightarrow> y \<in> set (rows d) \<Longrightarrow> pk x = pk y \<Longrightarrow> x = y"
  by (blast intro: same_key_eq pk_distinct)

end

locale table = append_table +
  fixes update_row :: "'r \<Rightarrow> database \<Rightarrow> db_err + database"
  assumes update_rows: "update_row r d = Inr d' \<Longrightarrow> rows d' = replace_row pk r (rows d)"
    and update_present: "update_row r d = Inr d' \<Longrightarrow> pk r \<in> pk ` set (rows d)"
    and update_wf: "wf_db d \<Longrightarrow> update_row r d = Inr d' \<Longrightarrow> wf_db d'"
begin

lemma pks_after_update: "update_row r d = Inr d' \<Longrightarrow> map pk (rows d') = map pk (rows d)"
  by (simp add: update_rows)

lemma set_after_update:
  "update_row r d = Inr d' \<Longrightarrow> x \<in> set (rows d') \<longleftrightarrow> (x \<in> set (rows d) \<and> pk x \<noteq> pk r) \<or> x = r"
  using update_rows update_present by (metis set_replace_row)

lemma find_after_update:
  assumes "wf_db d" and "update_row r d = Inr d'"
  shows "List.find (\<lambda>x. pk x = i) (rows d') =
    (if i = pk r then Some r else List.find (\<lambda>x. pk x = i) (rows d))"
proof -
  have wf': "wf_db d'" using assms by (rule update_wf)
  show ?thesis
  proof (cases "i = pk r")
    case True
    then show ?thesis using find_iff[OF wf'] set_after_update[OF assms(2)] by simp
  next
    case False
    have "List.find (\<lambda>x. pk x = i) (rows d') = Some x \<longleftrightarrow>
          List.find (\<lambda>x. pk x = i) (rows d) = Some x" for x
      using False find_iff[OF wf'] find_iff[OF assms(1)] set_after_update[OF assms(2)] by auto
    with False show ?thesis by (simp add: option.expand) (metis option.exhaust)
  qed
qed

end

section \<open>Every write keeps the constraints\<close>

lemmas write_defs = insert_key_def update_key_def insert_hook_def update_hook_row_def
  insert_param_def update_param_def insert_exec_def insert_audit_def

lemma key_exists_iff: "key_exists i db \<longleftrightarrow> (\<exists>k\<in>set (db_keys db). ak_id k = i)"
  by (auto simp: key_exists_def)

lemma hook_exists_iff: "hook_exists i db \<longleftrightarrow> (\<exists>h\<in>set (db_hooks db). hk_id h = i)"
  by (auto simp: hook_exists_def)

lemma key_clash_sym: "key_clash a b \<longleftrightarrow> key_clash b a"
  unfolding key_clash_def nullable_clash_def by metis

lemma nullable_fk_ok_iff: "nullable_fk_ok r db \<longleftrightarrow> nullable_fk r db"
  by (auto simp: nullable_fk_ok_def nullable_fk_def key_exists_def list_ex_iff split: option.splits)

lemma key_exists_keys_cong: "map ak_id (db_keys db') = map ak_id (db_keys db) \<Longrightarrow>
    key_exists i db' = key_exists i db"
  by (metis key_exists_def set_map)

lemma hook_exists_hooks_cong: "map hk_id (db_hooks db') = map hk_id (db_hooks db) \<Longrightarrow>
    hook_exists i db' = hook_exists i db"
  by (metis hook_exists_def set_map)

lemma key_exists_upd [simp]:
  "key_exists i (db\<lparr>db_hooks := hs\<rparr>) = key_exists i db"
  "key_exists i (db\<lparr>db_params := ps\<rparr>) = key_exists i db"
  "key_exists i (db\<lparr>db_perms := ms\<rparr>) = key_exists i db"
  "key_exists i (db\<lparr>db_execs := es\<rparr>) = key_exists i db"
  "key_exists i (db\<lparr>db_audit := ls\<rparr>) = key_exists i db"
  by (simp_all add: key_exists_def)

lemma hook_exists_upd [simp]:
  "hook_exists i (db\<lparr>db_keys := ks\<rparr>) = hook_exists i db"
  "hook_exists i (db\<lparr>db_params := ps\<rparr>) = hook_exists i db"
  "hook_exists i (db\<lparr>db_perms := ms\<rparr>) = hook_exists i db"
  "hook_exists i (db\<lparr>db_execs := es\<rparr>) = hook_exists i db"
  "hook_exists i (db\<lparr>db_audit := ls\<rparr>) = hook_exists i db"
  by (simp_all add: hook_exists_def)

lemma nullable_fk_upd [simp]:
  "nullable_fk r (db\<lparr>db_hooks := hs\<rparr>) = nullable_fk r db"
  "nullable_fk r (db\<lparr>db_params := ps\<rparr>) = nullable_fk r db"
  "nullable_fk r (db\<lparr>db_perms := ms\<rparr>) = nullable_fk r db"
  "nullable_fk r (db\<lparr>db_execs := es\<rparr>) = nullable_fk r db"
  "nullable_fk r (db\<lparr>db_audit := ls\<rparr>) = nullable_fk r db"
  by (simp_all add: nullable_fk_def split: option.splits)

text \<open>
  Growing a referenced table, or rewriting rows under the same keys, keeps every reference.
\<close>

lemma wf_db_keys_change:
  assumes "wf_db db" and "wf_keys (db\<lparr>db_keys := ks\<rparr>)"
    and "ak_id ` set (db_keys db) \<subseteq> ak_id ` set ks"
  shows "wf_db (db\<lparr>db_keys := ks\<rparr>)"
proof -
  have ex: "key_exists i db \<Longrightarrow> key_exists i (db\<lparr>db_keys := ks\<rparr>)" for i
    using assms(3) by (auto simp: key_exists_def)
  have fk: "nullable_fk r db \<Longrightarrow> nullable_fk r (db\<lparr>db_keys := ks\<rparr>)" for r
    using ex by (auto simp: nullable_fk_def split: option.splits)
  show ?thesis using assms(1,2) ex fk
    by (simp add: wf_db_def wf_hooks_def wf_params_def wf_perms_def wf_execs_def wf_audit_def)
qed

lemma wf_db_hooks_change:
  assumes "wf_db db" and "wf_hooks (db\<lparr>db_hooks := hs\<rparr>)"
    and "hk_id ` set (db_hooks db) \<subseteq> hk_id ` set hs"
  shows "wf_db (db\<lparr>db_hooks := hs\<rparr>)"
proof -
  have ex: "hook_exists i db \<Longrightarrow> hook_exists i (db\<lparr>db_hooks := hs\<rparr>)" for i
    using assms(3) by (auto simp: hook_exists_def)
  show ?thesis using assms(1,2) ex
    by (simp add: wf_db_def wf_keys_def wf_params_def wf_perms_def wf_execs_def wf_audit_def)
qed

lemma insert_key_wf:
  assumes "wf_db db" and "insert_key r db = Inr db'"
  shows "wf_db db'"
proof -
  from assms(2) have db': "db' = db\<lparr>db_keys := db_keys db @ [r]\<rparr>"
    and fresh: "\<forall>k\<in>set (db_keys db). ak_id k \<noteq> ak_id r \<and> \<not> key_clash k r"
    by (auto simp: insert_key_def list_ex_iff split: if_splits)
  moreover from fresh have "\<forall>k\<in>set (db_keys db). \<not> key_clash r k"
    using key_clash_sym by blast
  ultimately have "wf_keys db'" using assms(1)
    by (auto simp: db' wf_db_def wf_keys_def)
  then show ?thesis using assms(1) by (auto simp: db' intro!: wf_db_keys_change)
qed

lemma update_key_wf:
  assumes "wf_db db" and "update_key r db = Inr db'"
  shows "wf_db db'"
proof -
  from assms(2) have db': "db' = db\<lparr>db_keys := replace_row ak_id r (db_keys db)\<rparr>"
    and fresh: "\<forall>k\<in>set (db_keys db). ak_id k \<noteq> ak_id r \<longrightarrow> \<not> key_clash k r"
    by (auto simp: update_key_def list_ex_iff split: if_splits)
  moreover from fresh have "\<forall>k\<in>set (db_keys db). ak_id k \<noteq> ak_id r \<longrightarrow> \<not> key_clash r k"
    using key_clash_sym by blast
  ultimately have "wf_keys db'" using assms(1)
    by (auto simp: db' wf_db_def wf_keys_def set_replace_row)
  moreover have "ak_id ` set (db_keys db) = ak_id ` set (replace_row ak_id r (db_keys db))"
    by (metis map_key_replace_row set_map)
  ultimately show ?thesis using assms(1) by (auto simp: db' intro!: wf_db_keys_change)
qed

lemma distinct_map_snoc:
  "distinct (map f (xs @ [x])) \<longleftrightarrow> distinct (map f xs) \<and> f x \<notin> f ` set xs"
  by auto

lemma insert_hook_wf:
  assumes "wf_db db" and "insert_hook r db = Inr db'"
  shows "wf_db db'"
proof -
  from assms(2) have db': "db' = db\<lparr>db_hooks := db_hooks db @ [r]\<rparr>"
    and fresh: "\<forall>k\<in>set (db_hooks db). hk_id k \<noteq> hk_id r \<and> hk_name k \<noteq> hk_name r"
    by (auto simp: insert_hook_def list_ex_iff split: if_splits)
  have "wf_hooks db'" using assms(1) fresh
    by (auto simp: db' wf_db_def wf_hooks_def)
  then show ?thesis using assms(1) by (auto simp: db' intro!: wf_db_hooks_change)
qed

lemma distinct_map_replace_row:
  assumes "distinct (map f rs)" and "distinct (map key rs)"
    and "\<forall>x\<in>set rs. key x \<noteq> key r \<longrightarrow> f x \<noteq> f r"
  shows "distinct (map f (replace_row key r rs))"
  using assms
proof (induction rs)
  case Nil
  then show ?case by (simp add: replace_row_def)
next
  case (Cons a rs)
  have tl: "distinct (map f (replace_row key r rs))" using Cons by auto
  have "f (if key a = key r then r else a) \<notin> f ` set (replace_row key r rs)"
  proof (cases "key a = key r")
    case True
    with Cons.prems(2) have "key r \<notin> key ` set rs" by auto
    with True Cons.prems(3) show ?thesis by (auto simp: set_replace_row image_iff)
  next
    case False
    with Cons.prems show ?thesis by (auto simp: set_replace_row)
  qed
  moreover have "map f (replace_row key r (a # rs)) =
      f (if key a = key r then r else a) # map f (replace_row key r rs)"
    by (simp add: replace_row_def)
  ultimately show ?case using tl by (simp only: distinct.simps set_map not_False_eq_True simp_thms)
qed

lemma update_hook_row_wf:
  assumes "wf_db db" and "update_hook_row r db = Inr db'"
  shows "wf_db db'"
proof -
  from assms(2) have db': "db' = db\<lparr>db_hooks := replace_row hk_id r (db_hooks db)\<rparr>"
    and fresh: "\<forall>k\<in>set (db_hooks db). hk_id k \<noteq> hk_id r \<longrightarrow> hk_name k \<noteq> hk_name r"
    by (auto simp: update_hook_row_def list_ex_iff split: if_splits)
  have "wf_hooks db'" using assms(1) fresh
    by (auto simp: db' wf_db_def wf_hooks_def intro: distinct_map_replace_row)
  moreover have "hk_id ` set (db_hooks db) = hk_id ` set (replace_row hk_id r (db_hooks db))"
    by (metis map_key_replace_row set_map)
  ultimately show ?thesis using assms(1) by (auto simp: db' intro!: wf_db_hooks_change)
qed

text \<open>A constraint does not see the tables it does not mention.\<close>

lemma wf_frames [simp]:
  "wf_keys (db\<lparr>db_hooks := hs\<rparr>) = wf_keys db" "wf_keys (db\<lparr>db_params := ps\<rparr>) = wf_keys db"
  "wf_keys (db\<lparr>db_perms := ms\<rparr>) = wf_keys db" "wf_keys (db\<lparr>db_execs := es\<rparr>) = wf_keys db"
  "wf_keys (db\<lparr>db_audit := ls\<rparr>) = wf_keys db"
  "wf_hooks (db\<lparr>db_keys := ks\<rparr>) = wf_hooks db" "wf_hooks (db\<lparr>db_params := ps\<rparr>) = wf_hooks db"
  "wf_hooks (db\<lparr>db_perms := ms\<rparr>) = wf_hooks db" "wf_hooks (db\<lparr>db_execs := es\<rparr>) = wf_hooks db"
  "wf_hooks (db\<lparr>db_audit := ls\<rparr>) = wf_hooks db"
  "wf_params (db\<lparr>db_keys := ks\<rparr>) = wf_params db" "wf_params (db\<lparr>db_perms := ms\<rparr>) = wf_params db"
  "wf_params (db\<lparr>db_execs := es\<rparr>) = wf_params db" "wf_params (db\<lparr>db_audit := ls\<rparr>) = wf_params db"
  "wf_perms (db\<lparr>db_params := ps\<rparr>) = wf_perms db" "wf_perms (db\<lparr>db_execs := es\<rparr>) = wf_perms db"
  "wf_perms (db\<lparr>db_audit := ls\<rparr>) = wf_perms db"
  "wf_execs (db\<lparr>db_params := ps\<rparr>) = wf_execs db" "wf_execs (db\<lparr>db_perms := ms\<rparr>) = wf_execs db"
  "wf_execs (db\<lparr>db_audit := ls\<rparr>) = wf_execs db"
  "wf_audit (db\<lparr>db_hooks := hs\<rparr>) = wf_audit db" "wf_audit (db\<lparr>db_params := ps\<rparr>) = wf_audit db"
  "wf_audit (db\<lparr>db_perms := ms\<rparr>) = wf_audit db" "wf_audit (db\<lparr>db_execs := es\<rparr>) = wf_audit db"
  by (simp_all add: wf_tables_def)

lemma insert_param_wf:
  assumes "wf_db db" and "insert_param r db = Inr db'"
  shows "wf_db db'"
proof -
  from assms(2) have db': "db' = db\<lparr>db_params := db_params db @ [r]\<rparr>"
    and fresh: "\<forall>p\<in>set (db_params db). hp_id p \<noteq> hp_id r
       \<and> \<not> (hp_hook_id p = hp_hook_id r \<and> hp_param_key p = hp_param_key r)"
    and "hook_exists (hp_hook_id r) db"
    by (auto simp: insert_param_def list_ex_iff hook_exists_iff split: if_splits)
  then show ?thesis using assms(1)
    by (auto simp: db' wf_db_def wf_params_def)
qed

lemma update_param_wf:
  assumes "wf_db db" and "update_param r db = Inr db'"
  shows "wf_db db'"
proof -
  from assms(2) have db': "db' = db\<lparr>db_params := replace_row hp_id r (db_params db)\<rparr>"
    and fresh: "\<forall>p\<in>set (db_params db). hp_id p \<noteq> hp_id r \<longrightarrow>
       \<not> (hp_hook_id p = hp_hook_id r \<and> hp_param_key p = hp_param_key r)"
    and fk: "hook_exists (hp_hook_id r) db"
    by (auto simp: update_param_def list_ex_iff hook_exists_iff split: if_splits)
  have "distinct (map (\<lambda>p. (hp_hook_id p, hp_param_key p)) (replace_row hp_id r (db_params db)))"
    using assms(1) fresh by (auto simp: wf_db_def wf_params_def intro!: distinct_map_replace_row)
  then show ?thesis using assms(1) fk
    by (auto simp: db' wf_db_def wf_params_def set_replace_row)
qed

lemma delete_param_wf: "wf_db db \<Longrightarrow> wf_db (delete_param i db)"
  by (auto simp: delete_param_def wf_db_def wf_params_def distinct_map_filter)

lemma insert_exec_wf:
  assumes "wf_db db" and "insert_exec r db = Inr db'"
  shows "wf_db db'"
proof -
  from assms(2) have "db' = db\<lparr>db_execs := db_execs db @ [r]\<rparr>"
    and "\<forall>e\<in>set (db_execs db). ex_id e \<noteq> ex_id r"
    and "hook_exists (ex_hook_id r) db" and "nullable_fk (ex_api_key_id r) db"
    by (auto simp: insert_exec_def list_ex_iff hook_exists_iff nullable_fk_ok_iff split: if_splits)
  then show ?thesis using assms(1)
    by (auto simp: wf_db_def wf_execs_def)
qed

lemma delete_execs_wf: "wf_db db \<Longrightarrow> wf_db (snd (delete_execs P db))"
  by (auto simp: delete_execs_def wf_db_def wf_execs_def distinct_map_filter)

lemma insert_audit_wf:
  assumes "wf_db db" and "insert_audit r db = Inr db'"
  shows "wf_db db'"
proof -
  from assms(2) have "db' = db\<lparr>db_audit := db_audit db @ [r]\<rparr>"
    and "\<forall>l\<in>set (db_audit db). al_id l \<noteq> al_id r" and "nullable_fk (al_api_key_id r) db"
    by (auto simp: insert_audit_def list_ex_iff nullable_fk_ok_iff split: if_splits)
  then show ?thesis using assms(1)
    by (auto simp: wf_db_def wf_audit_def)
qed

lemma hook_permission_None:
  "hook_permission db k h = None \<longleftrightarrow>
     (\<forall>p\<in>set (db_perms db). \<not> (pm_api_key_id p = k \<and> pm_hook_id p = h))"
  by (auto simp: hook_permission_def find_None_iff)

lemma hook_permission_SomeD:
  "hook_permission db k h = Some p \<Longrightarrow> p \<in> set (db_perms db) \<and> pm_api_key_id p = k \<and> pm_hook_id p = h"
  by (auto simp: hook_permission_def dest: find_SomeD)

lemma hook_permission_iff:
  assumes "wf_db db"
  shows "hook_permission db k h = Some p \<longleftrightarrow>
    p \<in> set (db_perms db) \<and> pm_api_key_id p = k \<and> pm_hook_id p = h"
proof -
  have d: "distinct (map (\<lambda>p. (pm_api_key_id p, pm_hook_id p)) (db_perms db))"
    using assms by (simp add: wf_db_def wf_perms_def)
  from find_key_iff[OF d, of "(k, h)" p] show ?thesis by (simp add: hook_permission_def)
qed

text \<open>The columns an upsert may set never include the row's keys.\<close>

definition keeps_keys :: "(permission \<Rightarrow> permission \<Rightarrow> permission) \<Rightarrow> bool" where
  "keeps_keys upd \<longleftrightarrow> (\<forall>p r. pm_id (upd p r) = pm_id p
     \<and> pm_api_key_id (upd p r) = pm_api_key_id p \<and> pm_hook_id (upd p r) = pm_hook_id p)"

lemma upsert_perm_wf:
  assumes "wf_db db" and "keeps_keys upd" and "upsert_perm upd r db = Inr db'"
  shows "wf_db db'"
proof (cases "hook_permission db (pm_api_key_id r) (pm_hook_id r) = None")
  case True
  with assms(3) have "db' = db\<lparr>db_perms := db_perms db @ [r]\<rparr>"
    and "\<forall>p\<in>set (db_perms db). pm_id p \<noteq> pm_id r"
    and "key_exists (pm_api_key_id r) db" and "hook_exists (pm_hook_id r) db"
    by (auto simp: upsert_perm_def list_ex_iff key_exists_iff hook_exists_iff split: if_splits)
  then show ?thesis using assms(1) True
    by (auto simp: wf_db_def wf_perms_def hook_permission_None)
next
  case False
  let ?f = "\<lambda>p. if pm_api_key_id p = pm_api_key_id r \<and> pm_hook_id p = pm_hook_id r
    then upd p r else p"
  have keep: "pm_id (?f p) = pm_id p" "pm_api_key_id (?f p) = pm_api_key_id p"
    "pm_hook_id (?f p) = pm_hook_id p" for p
    using assms(2) by (auto simp: keeps_keys_def)
  define ms where "ms = map ?f (db_perms db)"
  have ids: "map pm_id ms = map pm_id (db_perms db)"
    and ks: "map (\<lambda>p. (pm_api_key_id p, pm_hook_id p)) ms =
      map (\<lambda>p. (pm_api_key_id p, pm_hook_id p)) (db_perms db)"
    unfolding ms_def list.map_comp comp_def keep by simp_all
  have "key_exists (pm_api_key_id q) db \<and> hook_exists (pm_hook_id q) db" if "q \<in> set ms" for q
  proof -
    from that obtain p where "p \<in> set (db_perms db)" and q: "q = ?f p"
      by (auto simp: ms_def)
    with assms(1) show ?thesis unfolding q keep by (simp add: wf_db_def wf_perms_def)
  qed
  moreover from False assms(3) have "db' = db\<lparr>db_perms := ms\<rparr>"
    by (simp add: upsert_perm_def ms_def split: if_splits)
  ultimately show ?thesis using assms(1) ids ks by (simp add: wf_db_def wf_perms_def)
qed

lemma delete_perms_wf: "wf_db db \<Longrightarrow> wf_db (snd (delete_perms k h db))"
  by (auto simp: delete_perms_def wf_db_def wf_perms_def distinct_map_filter)

lemma null_key_fk: "nullable_fk r db \<Longrightarrow>
    nullable_fk (null_key gone r) (snd (delete_keys gone db))"
  by (auto simp: nullable_fk_def null_key_def key_exists_def delete_keys_def split: option.splits)

lemma delete_keys_wf:
  assumes "wf_db db"
  shows "wf_db (snd (delete_keys gone db))"
proof -
  let ?d = "snd (delete_keys gone db)"
  have ke: "key_exists i db \<Longrightarrow> i \<notin> set gone \<Longrightarrow> key_exists i ?d" for i
    by (auto simp: key_exists_def delete_keys_def)
  have he: "hook_exists i ?d = hook_exists i db" for i
    by (simp add: hook_exists_def delete_keys_def)
  have "wf_keys ?d" "wf_hooks ?d"
    using assms by (auto simp: wf_db_def wf_keys_def wf_hooks_def delete_keys_def distinct_map_filter)
  moreover have "wf_params ?d"
    using assms he by (simp add: wf_db_def wf_params_def) (simp add: delete_keys_def)
  moreover have "wf_perms ?d"
    using assms ke he
    by (simp add: wf_db_def wf_perms_def) (auto simp: delete_keys_def distinct_map_filter)
  moreover have "wf_execs ?d"
  proof -
    have "distinct (map ex_id (db_execs ?d))"
      using assms by (simp add: wf_db_def wf_execs_def delete_keys_def comp_def)
    moreover have "hook_exists (ex_hook_id e) ?d \<and> nullable_fk (ex_api_key_id e) ?d"
      if "e \<in> set (db_execs ?d)" for e
    proof -
      from that obtain e0 where "e0 \<in> set (db_execs db)"
        and "e = e0\<lparr>ex_api_key_id := null_key gone (ex_api_key_id e0)\<rparr>"
        by (auto simp: delete_keys_def)
      then show ?thesis using assms he null_key_fk by (auto simp: wf_db_def wf_execs_def)
    qed
    ultimately show ?thesis by (simp add: wf_execs_def)
  qed
  moreover have "wf_audit ?d"
  proof -
    have "distinct (map al_id (db_audit ?d))"
      using assms by (simp add: wf_db_def wf_audit_def delete_keys_def comp_def)
    moreover have "nullable_fk (al_api_key_id l) ?d" if "l \<in> set (db_audit ?d)" for l
    proof -
      from that obtain l0 where "l0 \<in> set (db_audit db)"
        and "l = l0\<lparr>al_api_key_id := null_key gone (al_api_key_id l0)\<rparr>"
        by (auto simp: delete_keys_def)
      then show ?thesis using assms null_key_fk by (auto simp: wf_db_def wf_audit_def)
    qed
    ultimately show ?thesis by (simp add: wf_audit_def)
  qed
  ultimately show ?thesis by (simp add: wf_db_def)
qed

lemma delete_hooks_wf:
  assumes "wf_db db"
  shows "wf_db (snd (delete_hooks P db))"
proof -
  let ?d = "snd (delete_hooks P db)"
  let ?gone = "map hk_id (filter P (db_hooks db))"
  have he: "hook_exists i db \<Longrightarrow> i \<notin> set ?gone \<Longrightarrow> hook_exists i ?d" for i
    by (auto simp: hook_exists_def delete_hooks_def Let_def)
  have ke: "key_exists i ?d = key_exists i db" and fk: "nullable_fk r ?d = nullable_fk r db" for i r
    by (simp_all add: key_exists_def nullable_fk_def delete_hooks_def Let_def split: option.splits)
  have "wf_keys ?d" "wf_hooks ?d"
    using assms
    by (auto simp: wf_db_def wf_keys_def wf_hooks_def delete_hooks_def Let_def distinct_map_filter)
  moreover have "wf_params ?d" "wf_perms ?d" "wf_execs ?d" "wf_audit ?d"
    using assms he unfolding wf_db_def wf_params_def wf_perms_def wf_execs_def wf_audit_def ke fk
    by (auto simp: delete_hooks_def Let_def distinct_map_filter)
  ultimately show ?thesis by (simp add: wf_db_def)
qed

lemmas write_wf = insert_key_wf update_key_wf insert_hook_wf update_hook_row_wf insert_param_wf
  update_param_wf insert_exec_wf insert_audit_wf upsert_perm_wf
lemmas delete_wf = delete_keys_wf delete_hooks_wf delete_param_wf delete_execs_wf delete_perms_wf

section \<open>The tables are tables\<close>

lemma insert_key_rows:
  "insert_key r d = Inr d' \<Longrightarrow> db_keys d' = db_keys d @ [r] \<and> ak_id r \<notin> ak_id ` set (db_keys d)"
  by (auto simp: insert_key_def list_ex_iff split: if_splits)

lemma update_key_rows:
  "update_key r d = Inr d' \<Longrightarrow>
     db_keys d' = replace_row ak_id r (db_keys d) \<and> ak_id r \<in> ak_id ` set (db_keys d)"
  by (auto simp: update_key_def list_ex_iff image_iff split: if_splits) (metis+)

interpretation keys: table db_keys ak_id insert_key update_key
proof unfold_locales
  show "wf_db d \<Longrightarrow> distinct (map ak_id (db_keys d))" for d
    by (simp add: wf_db_def wf_tables_def)
qed (blast dest: insert_key_rows update_key_rows intro: insert_key_wf update_key_wf)+

lemma insert_hook_rows:
  "insert_hook r d = Inr d' \<Longrightarrow> db_hooks d' = db_hooks d @ [r] \<and> hk_id r \<notin> hk_id ` set (db_hooks d)"
  by (auto simp: insert_hook_def list_ex_iff split: if_splits)

lemma update_hook_row_rows:
  "update_hook_row r d = Inr d' \<Longrightarrow>
     db_hooks d' = replace_row hk_id r (db_hooks d) \<and> hk_id r \<in> hk_id ` set (db_hooks d)"
  by (auto simp: update_hook_row_def list_ex_iff image_iff split: if_splits) (metis+)

interpretation hooks: table db_hooks hk_id insert_hook update_hook_row
proof unfold_locales
  show "wf_db d \<Longrightarrow> distinct (map hk_id (db_hooks d))" for d
    by (simp add: wf_db_def wf_tables_def)
qed (blast dest: insert_hook_rows update_hook_row_rows intro: insert_hook_wf update_hook_row_wf)+

lemma insert_param_rows:
  "insert_param r d = Inr d' \<Longrightarrow> db_params d' = db_params d @ [r] \<and> hp_id r \<notin> hp_id ` set (db_params d)"
  by (auto simp: insert_param_def list_ex_iff split: if_splits)

lemma update_param_rows:
  "update_param r d = Inr d' \<Longrightarrow>
     db_params d' = replace_row hp_id r (db_params d) \<and> hp_id r \<in> hp_id ` set (db_params d)"
  by (auto simp: update_param_def list_ex_iff image_iff split: if_splits) (metis+)

interpretation params: table db_params hp_id insert_param update_param
proof unfold_locales
  show "wf_db d \<Longrightarrow> distinct (map hp_id (db_params d))" for d
    by (simp add: wf_db_def wf_tables_def)
qed (blast dest: insert_param_rows update_param_rows intro: insert_param_wf update_param_wf)+

lemma insert_exec_rows:
  "insert_exec r d = Inr d' \<Longrightarrow> db_execs d' = db_execs d @ [r] \<and> ex_id r \<notin> ex_id ` set (db_execs d)"
  by (auto simp: insert_exec_def list_ex_iff split: if_splits)

interpretation execs: append_table db_execs ex_id insert_exec
proof unfold_locales
  show "wf_db d \<Longrightarrow> distinct (map ex_id (db_execs d))" for d
    by (simp add: wf_db_def wf_tables_def)
qed (blast dest: insert_exec_rows intro: insert_exec_wf)+

lemma insert_audit_rows:
  "insert_audit r d = Inr d' \<Longrightarrow> db_audit d' = db_audit d @ [r] \<and> al_id r \<notin> al_id ` set (db_audit d)"
  by (auto simp: insert_audit_def list_ex_iff split: if_splits)

interpretation audit: append_table db_audit al_id insert_audit
proof unfold_locales
  show "wf_db d \<Longrightarrow> distinct (map al_id (db_audit d))" for d
    by (simp add: wf_db_def wf_tables_def)
qed (blast dest: insert_audit_rows intro: insert_audit_wf)+

lemma find_key_iff_row: "wf_db db \<Longrightarrow> find_key db i = Some k \<longleftrightarrow> k \<in> set (db_keys db) \<and> ak_id k = i"
  unfolding find_key_def by (rule keys.find_iff)

lemma find_hook_iff_row: "wf_db db \<Longrightarrow> find_hook db i = Some h \<longleftrightarrow> h \<in> set (db_hooks db) \<and> hk_id h = i"
  unfolding find_hook_def by (rule hooks.find_iff)

lemma find_keyD: "find_key db i = Some k \<Longrightarrow> k \<in> set (db_keys db) \<and> ak_id k = i"
  by (auto simp: find_key_def dest: find_SomeD)

lemma find_hookD: "find_hook db i = Some h \<Longrightarrow> h \<in> set (db_hooks db) \<and> hk_id h = i"
  by (auto simp: find_hook_def dest: find_SomeD)

lemma find_hook_by_nameD:
  "find_hook_by_name db n = Some h \<Longrightarrow> h \<in> set (db_hooks db) \<and> hk_name h = n"
  by (auto simp: find_hook_by_name_def dest: find_SomeD)

lemma find_paramD: "find_param db i = Some p \<Longrightarrow> p \<in> set (db_params db) \<and> hp_id p = i"
  by (auto simp: find_param_def dest: find_SomeD)

lemma find_execD: "find_exec db i = Some e \<Longrightarrow> e \<in> set (db_execs db) \<and> ex_id e = i"
  by (auto simp: find_exec_def dest: find_SomeD)

text \<open>At most one master row: the unique index over the engine-derived marker.\<close>

lemma wf_one_master:
  assumes "wf_db db" and "a \<in> set (db_keys db)" and "b \<in> set (db_keys db)"
    and "ak_is_master a" and "ak_is_master b"
  shows "a = b"
proof -
  have "key_clash a b"
    using assms(4,5) by (simp add: key_clash_def nullable_clash_def master_marker_def)
  then have "ak_id a = ak_id b" using assms(1-3) by (auto simp: wf_db_def wf_keys_def)
  then show ?thesis using keys.row_unique assms(1-3) by blast
qed

end
