(* ===== verification/Utf8.thy ===== *)
theory Utf8
  imports Hook_Prelude
begin

text \<open>
  Rust's UTF-8: \<open>String::from_utf8\<close> accepts exactly the well-formed byte sequences and
  \<open>String::from_utf8_lossy\<close> replaces each maximal ill-formed subpart by U+FFFD.  The crypto and
  executor theories use both.
\<close>

definition byte_in :: "char option \<Rightarrow> nat \<Rightarrow> nat \<Rightarrow> bool" where
  "byte_in b lo hi = (case b of None \<Rightarrow> False | Some c \<Rightarrow> lo \<le> byte_code c \<and> byte_code c \<le> hi)"

definition nth_byte :: "string \<Rightarrow> nat \<Rightarrow> char option" where
  "nth_byte s i = (if i < length s then Some (s ! i) else None)"

definition second_range :: "nat \<Rightarrow> nat \<times> nat" where
  "second_range b =
     (if b = 0xE0 then (0xA0, 0xBF) else if b = 0xED then (0x80, 0x9F)
      else if b = 0xF0 then (0x90, 0xBF) else if b = 0xF4 then (0x80, 0x8F) else (0x80, 0xBF))"

text \<open>The next chunk: a well-formed character, or a maximal ill-formed subpart, and its width.\<close>

definition utf8_next :: "string \<Rightarrow> bool \<times> nat" where
  "utf8_next s =
     (let b = byte_code (hd s);
          snd_ok = byte_in (nth_byte s 1) (fst (second_range b)) (snd (second_range b));
          cont = (\<lambda>i. byte_in (nth_byte s i) 0x80 0xBF)
      in if b < 0x80 then (True, 1)
         else if 0xC2 \<le> b \<and> b \<le> 0xDF then (if snd_ok then (True, 2) else (False, 1))
         else if 0xE0 \<le> b \<and> b \<le> 0xEF then
           (if \<not> snd_ok then (False, 1) else if cont 2 then (True, 3) else (False, 2))
         else if 0xF0 \<le> b \<and> b \<le> 0xF4 then
           (if \<not> snd_ok then (False, 1) else if \<not> cont 2 then (False, 2)
            else if cont 3 then (True, 4) else (False, 3))
         else (False, 1))"

lemma utf8_next_pos: "0 < snd (utf8_next s)"
  by (simp add: utf8_next_def Let_def)

function utf8_valid :: "string \<Rightarrow> bool" where
  "utf8_valid s =
     (if s = [] then True
      else fst (utf8_next s) \<and> utf8_valid (drop (snd (utf8_next s)) s))"
  by pat_completeness auto
termination
  by (relation "measure length") (auto simp: utf8_next_pos)

function utf8_lossy :: "bytes \<Rightarrow> string" where
  "utf8_lossy s =
     (if s = [] then []
      else (if fst (utf8_next s) then take (snd (utf8_next s)) s
            else [CHR 0xEF, CHR 0xBF, CHR 0xBD]) @ utf8_lossy (drop (snd (utf8_next s)) s))"
  by pat_completeness auto
termination
  by (relation "measure length") (auto simp: utf8_next_pos)

declare utf8_valid.simps [simp del] utf8_lossy.simps [simp del]

definition from_utf8 :: "bytes \<Rightarrow> string option" where
  "from_utf8 s = (if utf8_valid s then Some s else None)"

lemma utf8_valid_Nil [simp]: "utf8_valid []" and utf8_lossy_Nil [simp]: "utf8_lossy [] = []"
  by (simp_all add: utf8_valid.simps utf8_lossy.simps)

lemma utf8_lossy_valid: "utf8_valid s \<Longrightarrow> utf8_lossy s = s"
proof (induction s rule: utf8_valid.induct)
  case (1 s)
  then show ?case
    by (cases "s = []") (simp_all add: utf8_lossy.simps[of s] utf8_valid.simps[of s])
qed

definition is_ascii :: "string \<Rightarrow> bool" where
  "is_ascii s \<longleftrightarrow> list_all (\<lambda>c. byte_code c < 0x80) s"

lemma utf8_next_ascii: "byte_code c < 0x80 \<Longrightarrow> utf8_next (c # s) = (True, 1)"
  by (simp add: utf8_next_def)

lemma ascii_valid: "is_ascii s \<Longrightarrow> utf8_valid s"
proof (induction s)
  case Nil
  then show ?case by simp
next
  case (Cons c s)
  then have "byte_code c < 0x80" and "utf8_valid s" by (simp_all add: is_ascii_def)
  then show ?case by (subst utf8_valid.simps) (simp add: utf8_next_ascii)
qed

section \<open>Trimming visible text\<close>

definition graphic :: "char \<Rightarrow> bool" where
  "graphic c \<longleftrightarrow> 33 \<le> byte_code c \<and> byte_code c \<le> 126"

lemma whitespace_not_graphic:
  "\<forall>w\<in>set whitespace. w \<noteq> [] \<and> \<not> graphic (hd w) \<and> \<not> graphic (last w)"
  by (simp add: whitespace_def graphic_def)

lemma trim_front_stop:
  assumes "\<forall>w\<in>set ws. w \<noteq> [] \<and> \<not> graphic (hd w)" and "s = [] \<or> graphic (hd s)"
  shows "trim_front ws s = s"
proof -
  have "List.find (\<lambda>w. w \<noteq> [] \<and> prefix w s) ws = None"
  proof (subst find_None_iff, rule notI)
    assume "\<exists>w. w \<in> set ws \<and> w \<noteq> [] \<and> prefix w s"
    then obtain w where w: "w \<in> set ws" "w \<noteq> []" "prefix w s" by blast
    then have "s \<noteq> []" and "hd w = hd s" by (auto simp: prefix_def)
    with w assms show False by auto
  qed
  then show ?thesis by (simp add: trim_front.simps)
qed

lemma trim_visible:
  assumes "s = [] \<or> graphic (hd s) \<and> graphic (last s)"
  shows "trim s = s"
proof -
  have "trim_start s = s"
    unfolding trim_start_def using assms whitespace_not_graphic by (intro trim_front_stop) auto
  moreover have "trim_front (map rev whitespace) (rev s) = rev s"
    using assms whitespace_not_graphic by (intro trim_front_stop) (auto simp: hd_rev)
  ultimately show ?thesis by (simp add: trim_def trim_end_def)
qed

end
