(* ===== verification/Demo_Externals.thy ===== *)
theory Demo_Externals
  imports App_Error
begin

text \<open>
  One concrete instance of \<open>externals\<close>, used by the witnesses only: real hexadecimal text, an
  identity hash, a MAC that prepends the key, a cipher that prepends key and nonce, decimal text for
  uuids.  It shows that the laws the theorems assume of the crates can hold together and lets the
  definitions evaluate on concrete inputs.  It models nothing of the repository.
\<close>

definition demo_hex_digit :: "nat \<Rightarrow> char" where
  "demo_hex_digit n = char_of (if n < 10 then 48 + n else 87 + n)"

definition demo_hex_value :: "char \<Rightarrow> nat option" where
  "demo_hex_value c =
     (let b = byte_code c
      in if 48 \<le> b \<and> b \<le> 57 then Some (b - 48)
         else if 97 \<le> b \<and> b \<le> 102 then Some (b - 87)
         else if 65 \<le> b \<and> b \<le> 70 then Some (b - 55) else None)"

fun demo_hex_encode :: "bytes \<Rightarrow> string" where
  "demo_hex_encode [] = []"
| "demo_hex_encode (c # r) =
     demo_hex_digit (byte_code c div 16) # demo_hex_digit (byte_code c mod 16) # demo_hex_encode r"

fun demo_hex_decode :: "string \<Rightarrow> bytes option" where
  "demo_hex_decode [] = Some []"
| "demo_hex_decode [c] = None"
| "demo_hex_decode (c # d # r) =
     (case (demo_hex_value c, demo_hex_value d, demo_hex_decode r) of
        (Some a, Some b, Some bs) \<Rightarrow> Some (char_of (16 * a + b) # bs)
      | _ \<Rightarrow> None)"

definition demo_prefix_open :: "bytes \<Rightarrow> bytes \<Rightarrow> bytes option" where
  "demo_prefix_open p c = (if take (length p) c = p then Some (drop (length p) c) else None)"

fun demo_decimal :: "nat \<Rightarrow> string \<Rightarrow> nat option" where
  "demo_decimal n [] = Some n"
| "demo_decimal n (c # r) =
     (if is_ascii_digit c then demo_decimal (10 * n + (byte_code c - 48)) r else None)"

definition demo_externals :: externals where
  "demo_externals =
     \<lparr>x_uuid_parse = (\<lambda>s. if s = [] then None else map_option of_nat (demo_decimal 0 s)),
      x_uuid_text = (\<lambda>u. nat_text (unat u)),
      x_ip_text = (\<lambda>a. case a of V4 w \<Rightarrow> nat_text (unat w) | V6 w \<Rightarrow> nat_text (unat w)),
      x_sha256 = (\<lambda>b. b),
      x_hex_encode = demo_hex_encode,
      x_hex_decode = demo_hex_decode,
      x_hmac_sha256 = (\<lambda>k m. Some (k @ m)),
      x_aead_encrypt = (\<lambda>k n p. Some (k @ n @ p)),
      x_aead_decrypt = (\<lambda>k n c. demo_prefix_open (k @ n) c),
      x_json_parse = (\<lambda>b. if b = ''{}'' then Inr (JObject []) else Inl ''expected value''),
      x_json_text = (\<lambda>j. ''json''),
      x_network_parse = (\<lambda>s. if s = ''0.0.0.0/0'' then Some (Network (V4 0) 0) else None),
      x_network_contains =
        (\<lambda>n a. case (n, a) of (Network (V4 _) p, V4 _) \<Rightarrow> p = 0 | (Network b _, _) \<Rightarrow> a = b),
      x_rfc3339 = (\<lambda>s. None),
      x_days_before = (\<lambda>now d. if d \<le> 1000000 then Some (now - d * 86400000000000) else None),
      x_sql_like = (\<lambda>p t. str_contains (butlast (tl p)) t),
      x_path_decode = (\<lambda>s. s)\<rparr>"

lemma demo_simps [simp]:
  "x_hex_encode demo_externals = demo_hex_encode"
  "x_hex_decode demo_externals = demo_hex_decode"
  "x_hmac_sha256 demo_externals k m = Some (k @ m)"
  "x_aead_encrypt demo_externals k n p = Some (k @ n @ p)"
  "x_aead_decrypt demo_externals k n c = demo_prefix_open (k @ n) c"
  "x_sha256 demo_externals b = b"
  "x_uuid_text demo_externals u = nat_text (unat u)"
  "x_path_decode demo_externals s = s"
  by (simp_all add: demo_externals_def)

lemma demo_hex_value_digit: "n < 16 \<Longrightarrow> demo_hex_value (demo_hex_digit n) = Some n"
  by (auto simp: demo_hex_value_def demo_hex_digit_def Let_def)

lemma demo_hex_digit_ok: "n < 16 \<Longrightarrow> is_ascii_hexdigit (demo_hex_digit n)"
  by (auto simp: is_ascii_hexdigit_def is_ascii_digit_def demo_hex_digit_def)

lemma byte_code_lt: "byte_code c < 256"
  using of_char_of by (metis of_char_mod_256 mod_less_divisor zero_less_numeral)

lemma demo_hex_roundtrip: "demo_hex_decode (demo_hex_encode b) = Some b"
proof (induction b)
  case Nil
  then show ?case by simp
next
  case (Cons c b)
  have "byte_code c div 16 < 16" using byte_code_lt[of c] by (intro less_mult_imp_div_less) simp
  moreover have "char_of (16 * (byte_code c div 16) + byte_code c mod 16) = c"
    by (simp only: mult_div_mod_eq) simp
  ultimately show ?case using Cons by (simp add: demo_hex_value_digit)
qed

lemma demo_hex_digits: "c \<in> set (demo_hex_encode b) \<Longrightarrow> is_ascii_hexdigit c"
proof (induction b)
  case Nil
  then show ?case by simp
next
  case (Cons a b)
  have "byte_code a div 16 < 16" using byte_code_lt[of a] by (intro less_mult_imp_div_less) simp
  with Cons show ?case by (auto simp: demo_hex_digit_ok)
qed

end
