(* ===== verification/Crypto.thy ===== *)
theory Crypto
  imports Utf8 Entities Demo_Externals
begin

text \<open>
  \<open>src/crypto.rs\<close>: the canonical string that requests are signed over, HMAC signatures and their
  verification, the operator-defined template, and \<open>SecretCipher\<close>, which seals signing secrets at
  rest.  HMAC-SHA256, XChaCha20-Poly1305 and hex text are fields of \<open>externals\<close>; \<open>verify\_slice\<close> is
  equality with the tag (its constant time is not modelled).  The locale \<open>secret_box\<close> is what the
  authentication code relies on of the cipher.
\<close>

definition SIGNATURE_PREFIX :: string where
  "SIGNATURE_PREFIX = ''sha256=''"

definition generate_signing_secret :: "externals \<Rightarrow> bytes \<Rightarrow> string" where
  "generate_signing_secret X random_32 = x_hex_encode X random_32"

definition newline :: char where
  "newline = CHR 0x0A"

definition canonical_v1_payload :: "string \<Rightarrow> string \<Rightarrow> string \<Rightarrow> bytes \<Rightarrow> bytes" where
  "canonical_v1_payload method target timestamp body =
     method @ [newline] @ target @ [newline] @ timestamp @ [newline] @ body"

definition compute_signature :: "externals \<Rightarrow> string \<Rightarrow> bytes \<Rightarrow> string option" where
  "compute_signature X secret payload =
     (case x_hmac_sha256 X secret payload of
        None \<Rightarrow> None
      | Some mac \<Rightarrow> Some (SIGNATURE_PREFIX @ x_hex_encode X mac))"

datatype signature_rejection = MissingPrefix | MalformedHex | Mismatch | KeyUnusable

definition verify_signature_with_prefix ::
  "externals \<Rightarrow> string \<Rightarrow> bytes \<Rightarrow> string \<Rightarrow> string \<Rightarrow> signature_rejection + bytes" where
  "verify_signature_with_prefix X secret payload provided pre =
     check (ok_or (strip_prefix pre (trim provided)) MissingPrefix) (\<lambda>hex_digest.
     check (ok_or (x_hex_decode X (trim hex_digest)) MalformedHex) (\<lambda>provided_bytes.
     check (ok_or (x_hmac_sha256 X secret payload) KeyUnusable) (\<lambda>mac.
     if mac = provided_bytes then Inr provided_bytes else Inl Mismatch)))"

definition verify_signature ::
  "externals \<Rightarrow> string \<Rightarrow> bytes \<Rightarrow> string \<Rightarrow> signature_rejection + bytes" where
  "verify_signature X secret payload provided =
     verify_signature_with_prefix X secret payload provided SIGNATURE_PREFIX"

definition DEFAULT_CANONICAL_TEMPLATE :: string where
  "DEFAULT_CANONICAL_TEMPLATE =
     ''{method}'' @ [newline] @ ''{path}'' @ [newline] @ ''{timestamp}'' @ [newline] @ ''{body}''"

definition render_canonical_template ::
  "string \<Rightarrow> string \<Rightarrow> string \<Rightarrow> string \<Rightarrow> bytes \<Rightarrow> bytes" where
  "render_canonical_template template method path timestamp body =
     str_replace ''{body}'' (utf8_lossy body)
       (str_replace ''{timestamp}'' timestamp
         (str_replace ''{path}'' path
           (str_replace ''{method}'' method template)))"

section \<open>The cipher\<close>

definition PLAINTEXT_PREFIX :: string where
  "PLAINTEXT_PREFIX = ''v1.plain.''"

definition SEALED_PREFIX :: string where
  "SEALED_PREFIX = ''v1.xchacha20poly1305.''"

definition NONCE_LEN :: nat where
  "NONCE_LEN = 24"

definition KEY_LEN :: nat where
  "KEY_LEN = 32"

datatype crypto_error = InvalidKey | MalformedCiphertext | DecryptionFailed | EncryptionFailed

datatype secret_cipher = Plaintext | Sealed bytes

definition from_hex_key :: "externals \<Rightarrow> string \<Rightarrow> crypto_error + secret_cipher" where
  "from_hex_key X hex_key =
     check (ok_or (x_hex_decode X hex_key) InvalidKey) (\<lambda>b.
     if length b \<noteq> KEY_LEN then Inl InvalidKey else Inr (Sealed b))"

text \<open>
  \<open>from\_env\<close>: the two environment variables are the arguments, \<open>None\<close> when unset or not Unicode.
\<close>

definition cipher_from_env ::
  "externals \<Rightarrow> string option \<Rightarrow> string option \<Rightarrow> crypto_error + secret_cipher" where
  "cipher_from_env X key_env_var key_env_var_alias =
     (case (case filter_opt (\<lambda>raw. trim raw \<noteq> []) key_env_var of
              Some raw \<Rightarrow> Some raw
            | None \<Rightarrow> filter_opt (\<lambda>raw. trim raw \<noteq> []) key_env_var_alias) of
        Some raw \<Rightarrow> from_hex_key X (trim raw)
      | None \<Rightarrow> Inr Plaintext)"

fun is_encrypting :: "secret_cipher \<Rightarrow> bool" where
  "is_encrypting Plaintext = False"
| "is_encrypting (Sealed _) = True"

fun seal :: "externals \<Rightarrow> secret_cipher \<Rightarrow> bytes \<Rightarrow> string \<Rightarrow> crypto_error + string" where
  "seal X Plaintext nonce_bytes plaintext = Inr (PLAINTEXT_PREFIX @ x_hex_encode X plaintext)"
| "seal X (Sealed key) nonce_bytes plaintext =
     check (ok_or (x_aead_encrypt X key nonce_bytes plaintext) EncryptionFailed) (\<lambda>ciphertext.
     Inr (SEALED_PREFIX @ x_hex_encode X nonce_bytes @ ''.'' @ x_hex_encode X ciphertext))"

definition open_secret :: "externals \<Rightarrow> secret_cipher \<Rightarrow> string \<Rightarrow> crypto_error + string" where
  "open_secret X cipher stored =
     (case strip_prefix PLAINTEXT_PREFIX stored of
        Some encoded \<Rightarrow>
          check (ok_or (x_hex_decode X encoded) MalformedCiphertext) (\<lambda>b.
          ok_or (from_utf8 b) MalformedCiphertext)
      | None \<Rightarrow>
          check (ok_or (strip_prefix SEALED_PREFIX stored) MalformedCiphertext) (\<lambda>body.
          check (ok_or (split_once (CHR ''.'') body) MalformedCiphertext) (\<lambda>(nonce_hex, ciphertext_hex).
          check (ok_or (x_hex_decode X nonce_hex) MalformedCiphertext) (\<lambda>nonce_bytes.
          if length nonce_bytes \<noteq> NONCE_LEN then Inl MalformedCiphertext
          else
          check (ok_or (x_hex_decode X ciphertext_hex) MalformedCiphertext) (\<lambda>ciphertext.
          (case cipher of
             Plaintext \<Rightarrow> Inl DecryptionFailed
           | Sealed key \<Rightarrow>
               check (ok_or (x_aead_decrypt X key nonce_bytes ciphertext) DecryptionFailed) (\<lambda>plaintext.
               ok_or (from_utf8 plaintext) MalformedCiphertext)))))))"

section \<open>What the crates promise\<close>

text \<open>\<open>hex\<close>: encoding is total, prints lower-case hex digits, and decoding undoes it.\<close>

definition hex_laws :: "externals \<Rightarrow> bool" where
  "hex_laws X \<longleftrightarrow> (\<forall>b. x_hex_decode X (x_hex_encode X b) = Some b
     \<and> (\<forall>c\<in>set (x_hex_encode X b). is_ascii_hexdigit c))"

text \<open>XChaCha20-Poly1305: decryption under the same key and nonce undoes encryption.\<close>

definition aead_laws :: "externals \<Rightarrow> bool" where
  "aead_laws X \<longleftrightarrow> (\<forall>k n p c. x_aead_encrypt X k n p = Some c \<longrightarrow> x_aead_decrypt X k n c = Some p)"

lemma hex_roundtrip: "hex_laws X \<Longrightarrow> x_hex_decode X (x_hex_encode X b) = Some b"
  by (simp add: hex_laws_def)

lemma hexdigit_graphic: "is_ascii_hexdigit c \<Longrightarrow> graphic c"
  by (auto simp: is_ascii_hexdigit_def is_ascii_digit_def graphic_def)

lemma hex_visible: "hex_laws X \<Longrightarrow> x_hex_encode X b = [] \<or>
    graphic (hd (x_hex_encode X b)) \<and> graphic (last (x_hex_encode X b))"
  by (metis hex_laws_def hexdigit_graphic hd_in_set last_in_set)

lemma hex_trim: "hex_laws X \<Longrightarrow> trim (x_hex_encode X b) = x_hex_encode X b"
  by (rule trim_visible) (rule hex_visible)

lemma hex_no_dot: "hex_laws X \<Longrightarrow> CHR ''.'' \<notin> set (x_hex_encode X b)"
proof -
  assume "hex_laws X"
  then have "\<forall>c\<in>set (x_hex_encode X b). is_ascii_hexdigit c" by (simp add: hex_laws_def)
  moreover have "\<not> is_ascii_hexdigit (CHR ''.'')"
    by (simp add: is_ascii_hexdigit_def is_ascii_digit_def)
  ultimately show ?thesis by blast
qed

lemma prefixed_hex_trim:
  assumes "hex_laws X" and "p \<noteq> []" and "graphic (hd p)" and "graphic (last p)"
  shows "trim (p @ x_hex_encode X b) = p @ x_hex_encode X b"
proof (rule trim_visible)
  show "p @ x_hex_encode X b = [] \<or>
    graphic (hd (p @ x_hex_encode X b)) \<and> graphic (last (p @ x_hex_encode X b))"
    using assms hex_visible[OF assms(1), of b] by (auto simp: hd_append last_append)
qed

section \<open>Sealing and opening\<close>

lemma prefixes_differ: "strip_prefix PLAINTEXT_PREFIX (SEALED_PREFIX @ s) = None"
  by (simp add: strip_prefix_def PLAINTEXT_PREFIX_def SEALED_PREFIX_def)

lemma open_plain:
  assumes "hex_laws X" and "utf8_valid s"
  shows "open_secret X cipher (PLAINTEXT_PREFIX @ x_hex_encode X s) = Inr s"
  using assms by (simp add: open_secret_def hex_roundtrip from_utf8_def)

lemma open_sealed:
  assumes "hex_laws X" and "aead_laws X" and "utf8_valid s" and "length nonce = NONCE_LEN"
    and "x_aead_encrypt X key nonce s = Some ct"
  shows "open_secret X (Sealed key) (SEALED_PREFIX @ x_hex_encode X nonce @ ''.'' @ x_hex_encode X ct)
    = Inr s"
proof -
  have "x_aead_decrypt X key nonce ct = Some s" using assms(2,5) by (auto simp: aead_laws_def)
  moreover have "split_once (CHR ''.'') (x_hex_encode X nonce @ CHR ''.'' # x_hex_encode X ct)
    = Some (x_hex_encode X nonce, x_hex_encode X ct)"
    by (rule split_once_append) (rule hex_no_dot[OF assms(1)])
  ultimately show ?thesis using assms
    by (simp add: open_secret_def prefixes_differ hex_roundtrip from_utf8_def)
qed

locale secret_box =
  fixes put :: "bytes \<Rightarrow> string \<Rightarrow> crypto_error + string"
    and get :: "string \<Rightarrow> crypto_error + string"
    and good_nonce :: "bytes \<Rightarrow> bool"
    and storable :: "string \<Rightarrow> bool"
  assumes get_put: "good_nonce n \<Longrightarrow> storable s \<Longrightarrow> put n s = Inr c \<Longrightarrow> get c = Inr s"
begin

text \<open>Two secrets that are stored as the same text are the same secret.\<close>

lemma put_inj:
  assumes "good_nonce n" "storable s" "put n s = Inr c"
    and "good_nonce n'" "storable s'" "put n' s' = Inr c"
  shows "s = s'"
  using get_put[OF assms(1-3)] get_put[OF assms(4-6)] by simp

end

text \<open>
  The model's cipher is a secret box, in both modes: an instance for every choice of the crates'
  functions that satisfies their laws (outside the laws nothing is storable).
\<close>

interpretation cipher: secret_box "seal X c" "open_secret X c" "\<lambda>n. length n = NONCE_LEN"
  "\<lambda>s. utf8_valid s \<and> hex_laws X \<and> aead_laws X" for X c
proof unfold_locales
  fix n s stored
  assume n: "length n = NONCE_LEN" and s: "utf8_valid s \<and> hex_laws X \<and> aead_laws X"
    and put: "seal X c n s = Inr stored"
  show "open_secret X c stored = Inr s"
  proof (cases c)
    case Plaintext
    with put s show ?thesis using open_plain by auto
  next
    case (Sealed key)
    with put obtain ct where "x_aead_encrypt X key n s = Some ct"
      and "stored = SEALED_PREFIX @ x_hex_encode X n @ ''.'' @ x_hex_encode X ct"
      by (auto simp: early_return)
    with n s Sealed show ?thesis using open_sealed by auto
  qed
qed

section \<open>Signatures\<close>

lemma verify_with_prefix_ok:
  "verify_signature_with_prefix X secret payload provided pre = Inr d \<longleftrightarrow>
     (\<exists>h. trim provided = pre @ h \<and> x_hex_decode X (trim h) = Some d
        \<and> x_hmac_sha256 X secret payload = Some d)"
  by (auto simp: verify_signature_with_prefix_def early_return strip_prefix_Some)

section \<open>The canonical string\<close>

lemma append_sep_inj:
  "c \<notin> set a \<Longrightarrow> c \<notin> set a' \<Longrightarrow> a @ c # b = a' @ c # b' \<longleftrightarrow> a = a' \<and> b = b'"
proof (induction a arbitrary: a')
  case Nil
  then show ?case by (cases a') auto
next
  case (Cons x a)
  then show ?case by (cases a') auto
qed

lemma canonical_inj:
  assumes "newline \<notin> set m" "newline \<notin> set t" "newline \<notin> set ts"
    and "newline \<notin> set m'" "newline \<notin> set t'" "newline \<notin> set ts'"
  shows "canonical_v1_payload m t ts b = canonical_v1_payload m' t' ts' b' \<longleftrightarrow>
    m = m' \<and> t = t' \<and> ts = ts' \<and> b = b'"
  using assms by (simp add: canonical_v1_payload_def append_sep_inj)

text \<open>Substitution leaves text without an opening brace alone and walks past it.\<close>

lemma str_replace_skip:
  "CHR ''{'' \<notin> set a \<Longrightarrow> str_replace (CHR ''{'' # p) r (a @ s) = a @ str_replace (CHR ''{'' # p) r s"
proof (induction a)
  case Nil
  then show ?case by simp
next
  case (Cons x xs)
  then show ?case by (subst str_replace.simps) (auto simp: prefix_def)
qed

lemma str_replace_hit:
  "pat \<noteq> [] \<Longrightarrow> str_replace pat r (pat @ s) = r @ str_replace pat r s"
  by (subst str_replace.simps) auto

lemma str_replace_miss:
  "\<not> prefix pat (x # s) \<Longrightarrow> str_replace pat r (x # s) = x # str_replace pat r s"
  by (subst str_replace.simps) auto

lemma demo_laws: "hex_laws demo_externals" "aead_laws demo_externals"
  by (auto simp: hex_laws_def aead_laws_def demo_hex_roundtrip demo_hex_digits demo_prefix_open_def)

section \<open>Properties\<close>

text \<open>
  C29. A signature covers the whole request: the canonical string of two requests is the same only
  if method, request target, timestamp and body are all the same, because the line-feed delimiter
  cannot occur in a method, a target or a timestamp.
\<close>

theorem canonical_payload_injective:
  assumes "newline \<notin> set m" and "newline \<notin> set t" and "newline \<notin> set ts"
    and "newline \<notin> set m'" and "newline \<notin> set t'" and "newline \<notin> set ts'"
    and "canonical_v1_payload m t ts b = canonical_v1_payload m' t' ts' b'"
  shows "m = m' \<and> t = t' \<and> ts = ts' \<and> b = b'"
  using canonical_inj[OF assms(1-6)] assms(7) by (rule iffD1)

theorem canonical_payload_injective_witness:
  "''POST'' = ''POST'' \<and> ''/a'' @ ''b'' = ''/ab'' \<and> ''17'' = ''17'' \<and> ''{}'' = ''{}''"
proof -
  have free: "newline \<notin> set ''POST''" "newline \<notin> set (''/a'' @ ''b'')" "newline \<notin> set ''/ab''"
    "newline \<notin> set ''17''"
    by (simp_all add: newline_def)
  have "canonical_v1_payload ''POST'' (''/a'' @ ''b'') ''17'' ''{}'' =
    canonical_v1_payload ''POST'' ''/ab'' ''17'' ''{}''"
    by simp
  from canonical_payload_injective[OF free(1,2,4) free(1,3,4) this] show ?thesis .
qed

text \<open>
  \<open>verify\_signature\<close> accepts a header exactly when, trimmed, it is \<open>sha256=\<close> followed by hex
  text whose bytes are the HMAC of the payload, and what it returns are those raw bytes; every
  spelling of one signature therefore yields the same digest to the replay guard.
\<close>

theorem verify_signature_accepts_iff:
  "verify_signature X secret payload provided = Inr d \<longleftrightarrow>
     (\<exists>h. trim provided = SIGNATURE_PREFIX @ h \<and> x_hex_decode X (trim h) = Some d
        \<and> x_hmac_sha256 X secret payload = Some d)"
  unfolding verify_signature_def by (rule verify_with_prefix_ok)

text \<open>
  What \<open>compute\_signature\<close> prints, \<open>verify\_signature\<close> accepts for the same secret and payload, and for
  no payload with another MAC.
\<close>

theorem computed_signature_verifies:
  assumes "hex_laws X" and "compute_signature X secret payload = Some header"
  shows "(\<exists>d. verify_signature X secret payload header = Inr d)
    \<and> (\<forall>payload' d. x_hmac_sha256 X secret payload' \<noteq> x_hmac_sha256 X secret payload \<longrightarrow>
         verify_signature X secret payload' header \<noteq> Inr d)"
proof -
  from assms(2) obtain mac where mac: "x_hmac_sha256 X secret payload = Some mac"
    and header: "header = SIGNATURE_PREFIX @ x_hex_encode X mac"
    by (auto simp: compute_signature_def split: option.splits)
  have tr: "trim header = SIGNATURE_PREFIX @ x_hex_encode X mac"
    unfolding header using assms(1)
    by (intro prefixed_hex_trim) (simp_all add: SIGNATURE_PREFIX_def graphic_def)
  have "verify_signature X secret p header = Inr d \<longleftrightarrow>
      d = mac \<and> x_hmac_sha256 X secret p = Some mac" for p d
    using tr assms(1)
    by (auto simp: verify_signature_def verify_with_prefix_ok hex_trim hex_roundtrip)
  with mac show ?thesis by simp
qed

theorem computed_signature_verifies_witness:
  "\<exists>d. verify_signature demo_externals ''k'' ''m'' (SIGNATURE_PREFIX @ demo_hex_encode ''km'') = Inr d"
proof -
  have "compute_signature demo_externals ''k'' ''m'' = Some (SIGNATURE_PREFIX @ demo_hex_encode ''km'')"
    by (simp add: compute_signature_def)
  from computed_signature_verifies[OF demo_laws(1) this] show ?thesis by blast
qed

text \<open>
  C34. Opening a sealed secret gives it back, whatever mode the cipher is in; a secret written
  without encryption stays readable after encryption is enabled with any key.
\<close>

theorem sealed_secret_opens:
  assumes "hex_laws X" and "aead_laws X" and "utf8_valid s" and "length nonce = NONCE_LEN"
    and "seal X c nonce s = Inr stored"
  shows "open_secret X c stored = Inr s \<and> (c = Plaintext \<longrightarrow> open_secret X c' stored = Inr s)"
proof
  show "open_secret X c stored = Inr s" using assms by (intro cipher.get_put) auto
  show "c = Plaintext \<longrightarrow> open_secret X c' stored = Inr s"
    using assms(1,3,5) by (auto intro: open_plain)
qed

theorem sealed_secret_opens_witness:
  "open_secret demo_externals (Sealed ''key'')
     (SEALED_PREFIX @ demo_hex_encode (replicate 24 (CHR ''n'')) @ ''.''
        @ demo_hex_encode (''key'' @ replicate 24 (CHR ''n'') @ ''s'')) = Inr ''s''"
proof -
  have "utf8_valid ''s''" by (simp add: ascii_valid is_ascii_def)
  then show ?thesis
    using sealed_secret_opens[OF demo_laws, of "''s''" "replicate 24 (CHR ''n'')" "Sealed ''key''"]
    by (simp add: NONCE_LEN_def)
qed

text \<open>
  The default template renders the canonical string, for text fields without an opening brace
  and a body that is UTF-8.
\<close>

theorem default_template_is_canonical:
  assumes "CHR ''{'' \<notin> set method" and "CHR ''{'' \<notin> set path" and "CHR ''{'' \<notin> set timestamp"
    and "utf8_valid body"
  shows "render_canonical_template DEFAULT_CANONICAL_TEMPLATE method path timestamp body =
    canonical_v1_payload method path timestamp body"
proof -
  have nl: "newline \<noteq> CHR ''{''" by (simp add: newline_def)
  have 1: "str_replace ''{method}'' method DEFAULT_CANONICAL_TEMPLATE =
    method @ newline # ''{path}'' @ newline # ''{timestamp}'' @ newline # ''{body}''"
    unfolding DEFAULT_CANONICAL_TEMPLATE_def
    by (subst str_replace_hit) (simp_all add: str_replace_absent newline_def)
  have 2: "str_replace ''{path}'' path
      (method @ newline # ''{path}'' @ newline # ''{timestamp}'' @ newline # ''{body}'') =
    (method @ newline # path) @ newline # ''{timestamp}'' @ newline # ''{body}''"
    using assms(1) nl str_replace_skip[of "method @ [newline]" "''path}''"]
      str_replace_hit[of "''{path}''" path "newline # ''{timestamp}'' @ newline # ''{body}''"]
    by (simp add: str_replace_absent newline_def)
  have 3: "str_replace ''{timestamp}'' timestamp
      ((method @ newline # path) @ newline # ''{timestamp}'' @ newline # ''{body}'') =
    (method @ newline # path @ newline # timestamp) @ newline # ''{body}''"
    using assms(1,2) nl str_replace_skip[of "(method @ newline # path) @ [newline]" "''timestamp}''"]
      str_replace_hit[of "''{timestamp}''" timestamp "newline # ''{body}''"]
    by (simp add: str_replace_absent newline_def)
  have 4: "str_replace ''{body}'' body
      ((method @ newline # path @ newline # timestamp) @ newline # ''{body}'') =
    method @ newline # path @ newline # timestamp @ newline # body"
    using assms(1-3) nl
      str_replace_skip[of "(method @ newline # path @ newline # timestamp) @ [newline]" "''body}''"]
      str_replace_hit[of "''{body}''" body "[]"]
    by simp
  show ?thesis
    unfolding render_canonical_template_def 1 2 3 utf8_lossy_valid[OF assms(4)] 4
    by (simp add: canonical_v1_payload_def)
qed

theorem default_template_is_canonical_witness:
  "render_canonical_template DEFAULT_CANONICAL_TEMPLATE ''POST'' ''/webhook/ban'' ''17'' ''{}'' =
    canonical_v1_payload ''POST'' ''/webhook/ban'' ''17'' ''{}''"
  by (rule default_template_is_canonical) (simp_all add: ascii_valid is_ascii_def)

text \<open>
  Outside those fields the two differ: substitution is sequential, so a placeholder inside an
  already substituted target is expanded in turn.
\<close>

lemma default_template_differs:
  "render_canonical_template DEFAULT_CANONICAL_TEMPLATE ''POST'' ''/a?{timestamp}'' ''17'' [] \<noteq>
    canonical_v1_payload ''POST'' ''/a?{timestamp}'' ''17'' []"
  by (simp add: render_canonical_template_def DEFAULT_CANONICAL_TEMPLATE_def newline_def
      canonical_v1_payload_def str_replace.simps)

end
