(* ===== verification/Config.thy ===== *)
theory Config
  imports App_Error
begin

text \<open>
  \<open>src/config.rs\<close>, first part: the runtime configuration record the other components read, its
  defaults, and the parsers of list, boolean and master-key settings.
\<close>

datatype proxy_spec = ProxyNetwork network | ProxyHostname string

record runtime_config =
  cf_allowed_env_vars :: "string list"
  cf_log_retention_days :: int
  cf_deleted_hook_retention_days :: int
  cf_retention_sweep_seconds :: nat
  cf_max_output_bytes :: nat
  cf_signature_max_age_seconds :: "64 word"
  cf_require_signed_requests :: bool
  cf_allowed_script_roots :: "string list"
  cf_trusted_proxies :: "proxy_spec list"

definition FALLBACK_TIMEOUT_SECONDS :: nat where
  "FALLBACK_TIMEOUT_SECONDS = 30"

definition parse_env_var_list :: "string \<Rightarrow> string list" where
  "parse_env_var_list raw = filter (\<lambda>s. s \<noteq> []) (map trim (split_on (CHR '','') raw))"

definition default_config :: runtime_config where
  "default_config =
     \<lparr>cf_allowed_env_vars = parse_env_var_list ''PATH,LANG,TERM,SYSTEMROOT'',
      cf_log_retention_days = 30,
      cf_deleted_hook_retention_days = 92,
      cf_retention_sweep_seconds = 3600,
      cf_max_output_bytes = 1024 * 1024,
      cf_signature_max_age_seconds = 300,
      cf_require_signed_requests = False,
      cf_allowed_script_roots = [],
      cf_trusted_proxies = []\<rparr>"

definition timeout_for :: "runtime_config \<Rightarrow> int \<Rightarrow> nat" where
  "timeout_for cfg hook_timeout_seconds =
     (if hook_timeout_seconds > 0 then nat hook_timeout_seconds else FALLBACK_TIMEOUT_SECONDS)"

text \<open>\<open>parse_bool_or_warn\<close>: the environment variable's value is the first argument.\<close>

definition parse_bool_or_warn :: "string option \<Rightarrow> bool \<Rightarrow> bool" where
  "parse_bool_or_warn var fallback =
     (case var of
        None \<Rightarrow> fallback
      | Some raw \<Rightarrow>
          let v = map ascii_lower (trim raw)
          in if v \<in> {''1'', ''true'', ''yes'', ''on''} then True
             else if v \<in> {''0'', ''false'', ''no'', ''off''} then False
             else fallback)"

definition INITIAL_MASTER_KEY_HEX_LEN :: nat where
  "INITIAL_MASTER_KEY_HEX_LEN = 64"

datatype initial_master_key_error = Empty | BadLength nat | NonHex char nat

text \<open>
  \<open>validate\_initial\_master\_key\<close>: the first byte that is not a hex digit is reported (the first byte
  of the character Rust reports), with its byte index; the width is counted once all are ASCII.
\<close>

fun first_non_hex :: "nat \<Rightarrow> string \<Rightarrow> (nat \<times> char) option" where
  "first_non_hex i [] = None"
| "first_non_hex i (c # r) = (if \<not> is_ascii_hexdigit c then Some (i, c) else first_non_hex (Suc i) r)"

definition validate_initial_master_key ::
  "string option \<Rightarrow> initial_master_key_error + string option" where
  "validate_initial_master_key raw =
     (case raw of
        None \<Rightarrow> Inr None
      | Some raw \<Rightarrow>
          let candidate = trim raw
          in if candidate = [] then Inl Empty
             else case first_non_hex 0 candidate of
               Some (index, found) \<Rightarrow> Inl (NonHex found index)
             | None \<Rightarrow>
                 if length candidate \<noteq> INITIAL_MASTER_KEY_HEX_LEN then Inl (BadLength (length candidate))
                 else Inr (Some candidate))"

lemma first_non_hex_None: "first_non_hex i s = None \<longleftrightarrow> (\<forall>c\<in>set s. is_ascii_hexdigit c)"
  by (induction i s rule: first_non_hex.induct) auto

end
