(* ===== verification/Executor_Plan.thy ===== *)
theory Executor_Plan
  imports Config Entities "HOL-Library.List_Lexorder" "HOL-Library.Char_ord"
begin

text \<open>
  \<open>src/executor.rs\<close>, first part: from a stored hook and a JSON object to the exact program,
  argument vector and environment: parameter resolution, \<open>run_as_user\<close>, the arguments template,
  \<open>build_command_plan\<close> and the definition-time check of a script path.
\<close>

section \<open>Errors\<close>

datatype script_rejection =
    ScriptNotFound | ScriptPermissionDenied | NotARegularFile | NotExecutable | OutsideAllowedRoots
  | MalformedPath | InvalidRunAsUser | SudoUnavailable | ArgsTemplateSubstitution | Unusable

datatype script_error = ScriptError script_rejection string

fun se_detail :: "script_error \<Rightarrow> string" where
  "se_detail (ScriptError r d) = d"

text \<open>\<open>impl From<ScriptError> for AppError\<close>, applied by \<open>?\<close>.\<close>

definition script_error_to_app :: "script_error + 'a \<Rightarrow> 'a result" where
  "script_error_to_app r = (case r of Inl e \<Rightarrow> Inl (InvalidInput (se_detail e)) | Inr x \<Rightarrow> Inr x)"

lemma script_error_to_app_ok [early_return]: "script_error_to_app r = Inr x \<longleftrightarrow> r = Inr x"
  by (simp add: script_error_to_app_def split: sum.splits)

section \<open>Parameters\<close>

record resolved_parameters =
  rp_values :: "(string \<times> string) list"
  rp_missing_required :: "string list"

fun is_valid_param_key :: "string \<Rightarrow> bool" where
  "is_valid_param_key [] = False"
| "is_valid_param_key (c # r) =
     ((is_ascii_alphabetic c \<or> c = CHR ''_'')
      \<and> list_all (\<lambda>c. is_ascii_alphanumeric c \<or> c = CHR ''_'') r)"

definition NUL :: char where
  "NUL = CHR 0x00"

definition coerce_param_value :: "string \<Rightarrow> json \<Rightarrow> (string option) result" where
  "coerce_param_value key value =
     (let finish = (\<lambda>coerced.
            if NUL \<in> set coerced
            then Inl (InvalidInput (''Parameter '' @ single_quoted key @ '' must not contain NUL bytes''))
            else Inr (Some coerced))
      in case value of
           JNull \<Rightarrow> Inr None
         | JString s \<Rightarrow> finish s
         | JNumber n \<Rightarrow> finish n
         | JBool b \<Rightarrow> finish (if b then ''true'' else ''false'')
         | _ \<Rightarrow> Inl (InvalidInput (''Parameter '' @ single_quoted key
                  @ '' must be a string, number, or boolean'')))"

fun resolve_loop ::
  "(string \<times> json) list \<Rightarrow> hook_parameter list \<Rightarrow> resolved_parameters \<Rightarrow> resolved_parameters result" where
  "resolve_loop supplied [] resolved = Inr resolved"
| "resolve_loop supplied (decl # r) resolved =
     check (case map_of supplied (hp_param_key decl) of
              Some raw \<Rightarrow> coerce_param_value (hp_param_key decl) raw
            | None \<Rightarrow> Inr None) (\<lambda>supplied_value.
     resolve_loop supplied r
       (case (case supplied_value of Some v \<Rightarrow> Some v | None \<Rightarrow> hp_default_value decl) of
          Some value \<Rightarrow> resolved\<lparr>rp_values := rp_values resolved @ [(hp_param_key decl, value)]\<rparr>
        | None \<Rightarrow>
            if hp_is_required decl
            then resolved\<lparr>rp_missing_required := rp_missing_required resolved @ [hp_param_key decl]\<rparr>
            else resolved))"

definition resolve_parameters ::
  "hook_parameter list \<Rightarrow> (string \<times> json) list \<Rightarrow> resolved_parameters result" where
  "resolve_parameters declared supplied =
     (let unknown = filter (\<lambda>k. \<not> list_ex (\<lambda>d. hp_param_key d = k) declared) (map fst supplied)
      in if unknown \<noteq> []
         then Inl (InvalidInput (''Unknown parameter(s) for this hook: '' @ join '', '' (sort unknown)))
         else resolve_loop supplied declared \<lparr>rp_values = [], rp_missing_required = []\<rparr>)"

section \<open>The account a hook runs as\<close>

definition MAX_USERNAME_LEN :: nat where
  "MAX_USERNAME_LEN = 32"

definition effective_run_as_user :: "string option \<Rightarrow> string option" where
  "effective_run_as_user run_as_user = filter_opt (\<lambda>u. u \<noteq> []) (map_option trim run_as_user)"

definition invalid_user :: "string \<Rightarrow> string \<Rightarrow> script_error + unit" where
  "invalid_user run_as_user reason =
     Inl (ScriptError InvalidRunAsUser
       (''Invalid run_as_user '' @ single_quoted run_as_user @ '': '' @ reason))"

text \<open>\<open>body.split_last()\<close> and the optional trailing dollar.\<close>

definition drop_trailing_dollar :: "string \<Rightarrow> string" where
  "drop_trailing_dollar body =
     (if body \<noteq> [] \<and> last body = CHR ''$'' then butlast body else body)"

definition validate_run_as_user :: "string \<Rightarrow> script_error + unit" where
  "validate_run_as_user run_as_user =
     (let user = trim run_as_user
      in if user = []
         then invalid_user run_as_user ''must not be empty (omit the field to run as the daemon user)''
         else if length user > MAX_USERNAME_LEN
         then invalid_user run_as_user (''must be at most '' @ nat_text MAX_USERNAME_LEN @ '' characters'')
         else if \<not> (is_ascii_alphabetic (hd user) \<or> hd user = CHR ''_'')
         then invalid_user run_as_user ''must start with an ASCII letter or underscore''
         else if \<not> list_all (\<lambda>c. is_ascii_alphanumeric c \<or> c = CHR ''_'' \<or> c = CHR ''-'')
                    (drop_trailing_dollar (tl user))
         then invalid_user run_as_user
           (''may only contain ASCII letters, digits, '' @ single_quoted ''_'' @ '' and '' @ single_quoted ''-'')
         else Inr ())"

section \<open>The arguments template\<close>

definition ARGS_TEMPLATE_FORBIDDEN :: "string list" where
  "ARGS_TEMPLATE_FORBIDDEN = [''|'', '';'', ''&'', [CHR 0x0A], ''$('']"

definition is_ident_char :: "char \<Rightarrow> bool" where
  "is_ident_char c \<longleftrightarrow> is_ascii_alphanumeric c \<or> c = CHR ''_''"

definition is_ident_start :: "char \<Rightarrow> bool" where
  "is_ident_start c \<longleftrightarrow> is_ascii_alphabetic c \<or> c = CHR ''_''"

definition closing_brace :: char where
  "closing_brace = CHR ''}''"

lemma drop_while_shorter:
  "length (dropWhile P xs) - Suc 0 < Suc (Suc (length xs))"
  "length (dropWhile P xs) < Suc (length xs)"
  "length (dropWhile P xs) < Suc (Suc (length xs))"
  using length_dropWhile_le[of P xs] by linarith+

text \<open>
  The scanning loops read the text from index \<open>i\<close>; here they recurse on what is left of it.
  \<open>takeWhile\<close> is the inner loop over \<open>j\<close>.
\<close>

function extract_template_variable_names :: "string \<Rightarrow> string list" where
  "extract_template_variable_names s =
     (case s of
        [] \<Rightarrow> []
      | c # r \<Rightarrow>
          if c \<noteq> CHR ''$'' then extract_template_variable_names r
          else case r of
            [] \<Rightarrow> extract_template_variable_names r
          | d # r' \<Rightarrow>
              if d = CHR ''{'' then
                let name = takeWhile (\<lambda>c. c \<noteq> closing_brace) r';
                    rest = dropWhile (\<lambda>c. c \<noteq> closing_brace) r'
                in (if name \<noteq> [] \<and> rest \<noteq> [] then [name] else [])
                   @ extract_template_variable_names (drop 1 rest)
              else if is_ident_start d then
                takeWhile is_ident_char r # extract_template_variable_names (dropWhile is_ident_char r)
              else extract_template_variable_names r)"
  by pat_completeness auto
termination
  by (relation "measure length")
    (auto simp: drop_while_shorter)

declare extract_template_variable_names.simps [simp del]

definition template_reject :: "string \<Rightarrow> script_error + 'a" where
  "template_reject detail = Inl (ScriptError ArgsTemplateSubstitution detail)"

definition substitute_value ::
  "string \<Rightarrow> (string \<Rightarrow> string option) \<Rightarrow> string \<Rightarrow> script_error + string" where
  "substitute_value token lookup name =
     (case lookup name of
        None \<Rightarrow> template_reject (''args_template references '' @ single_quoted (CHR ''$'' # name)
                  @ '' in '' @ single_quoted token
                  @ '', which has no resolved value (not supplied and no default)'')
      | Some value \<Rightarrow>
          (case List.find (\<lambda>f. str_contains f value) ARGS_TEMPLATE_FORBIDDEN of
             Some bad \<Rightarrow> template_reject (''parameter '' @ single_quoted name
                  @ '' resolved to a value containing the forbidden sequence '' @ single_quoted bad)
           | None \<Rightarrow> Inr value))"

function substitute_from ::
  "string \<Rightarrow> (string \<Rightarrow> string option) \<Rightarrow> string \<Rightarrow> script_error + string" where
  "substitute_from token lookup s =
     (case s of
        [] \<Rightarrow> Inr []
      | c # r \<Rightarrow>
          if c \<noteq> CHR ''$'' then check (substitute_from token lookup r) (\<lambda>out. Inr (c # out))
          else case r of
            [] \<Rightarrow> check (substitute_from token lookup r) (\<lambda>out. Inr (c # out))
          | d # r' \<Rightarrow>
              if d = CHR ''{'' then
                let name = takeWhile (\<lambda>c. c \<noteq> closing_brace) r';
                    rest = dropWhile (\<lambda>c. c \<noteq> closing_brace) r'
                in if rest = []
                   then template_reject (''args_template has an unterminated '' @ single_quoted ''${''
                          @ '' in '' @ single_quoted token)
                   else check (substitute_value token lookup name) (\<lambda>value.
                        check (substitute_from token lookup (drop 1 rest)) (\<lambda>out. Inr (value @ out)))
              else if is_ident_start d then
                check (substitute_value token lookup (takeWhile is_ident_char r)) (\<lambda>value.
                check (substitute_from token lookup (dropWhile is_ident_char r)) (\<lambda>out. Inr (value @ out)))
              else check (substitute_from token lookup r) (\<lambda>out. Inr (c # out)))"
  by pat_completeness auto
termination
  by (relation "measure (\<lambda>(token, lookup, s). length s)")
    (auto simp: drop_while_shorter)

declare substitute_from.simps [simp del]

definition substitute_token ::
  "string \<Rightarrow> (string \<Rightarrow> string option) \<Rightarrow> script_error + string" where
  "substitute_token token lookup = substitute_from token lookup token"

fun substitute_all ::
  "string list \<Rightarrow> (string \<Rightarrow> string option) \<Rightarrow> script_error + string list" where
  "substitute_all [] lookup = Inr []"
| "substitute_all (t # ts) lookup =
     check (substitute_token t lookup) (\<lambda>a. check (substitute_all ts lookup) (\<lambda>as. Inr (a # as)))"

definition value_lookup :: "resolved_parameters \<Rightarrow> string \<Rightarrow> string option" where
  "value_lookup resolved = map_of (rev (rp_values resolved))"

definition resolve_args_template ::
  "string \<Rightarrow> resolved_parameters \<Rightarrow> script_error + string list" where
  "resolve_args_template template resolved =
     substitute_all (split_whitespace template) (value_lookup resolved)"

section \<open>The command plan\<close>

definition PARAM_ENV_PREFIX :: string where
  "PARAM_ENV_PREFIX = ''HOOK_PARAM_''"

definition SUDO_BINARY :: string where
  "SUDO_BINARY = ''/usr/bin/sudo''"

record command_plan =
  cp_program :: string
  cp_args :: "string list"
  cp_env :: "(string \<times> string) list"
  cp_run_as_user :: "string option"

text \<open>
  The environment is a \<open>BTreeMap\<close>; here the list of insertions in reverse, so \<open>map_of\<close> reads the
  last one.  \<open>host\_env\<close> is the daemon's own environment.  The key of a parameter is an ASCII identifier
  (\<open>is\_valid\_param\_key\<close>), on which \<open>to\_uppercase\<close> is the ASCII upper case.
\<close>

definition host_environment :: "(string \<Rightarrow> string option) \<Rightarrow> runtime_config \<Rightarrow> (string \<times> string) list" where
  "host_environment host_env cfg =
     List.map_filter (\<lambda>name. map_option (Pair name) (host_env name)) (cf_allowed_env_vars cfg)"

definition param_environment :: "resolved_parameters \<Rightarrow> (string \<times> string) list" where
  "param_environment resolved =
     map (\<lambda>(key, value). (PARAM_ENV_PREFIX @ map ascii_upper key, value)) (rp_values resolved)"

definition build_command_plan ::
  "(string \<Rightarrow> string option) \<Rightarrow> hook \<Rightarrow> resolved_parameters \<Rightarrow> runtime_config \<Rightarrow>
     script_error + command_plan" where
  "build_command_plan host_env hook resolved cfg =
     (let env = rev (host_environment host_env cfg @ param_environment resolved);
          run_as_user = effective_run_as_user (hk_run_as_user hook);
          (program, args) = (case run_as_user of
             Some user \<Rightarrow> (SUDO_BINARY, [''-n'', ''-u'', user, ''--'', hk_script_path hook])
           | None \<Rightarrow> (hk_script_path hook, []))
      in check (case filter_opt (\<lambda>t. t \<noteq> []) (map_option trim (hk_args_template hook)) of
                  Some template \<Rightarrow> resolve_args_template template resolved
                | None \<Rightarrow> Inr (map snd (rp_values resolved))) (\<lambda>more.
         Inr \<lparr>cp_program = program, cp_args = args @ more, cp_env = env, cp_run_as_user = run_as_user\<rparr>))"

section \<open>Script paths\<close>

text \<open>
  \<open>std::path::Components\<close> on Unix: the root, then the non-empty segments; a segment \<open>.\<close> appears only
  at the start of a relative path.  \<open>Path::starts_with\<close> is the prefix order on components.
\<close>

datatype path_component = RootDir | CurDir | ParentDir | Normal string

definition is_absolute_path :: "string \<Rightarrow> bool" where
  "is_absolute_path p \<longleftrightarrow> p \<noteq> [] \<and> hd p = CHR ''/''"

definition segment_component :: "string \<Rightarrow> path_component" where
  "segment_component s = (if s = ''..'' then ParentDir else Normal s)"

definition path_components :: "string \<Rightarrow> path_component list" where
  "path_components p =
     (let segments = split_on (CHR ''/'') p
      in (if is_absolute_path p then [RootDir] else if hd segments = ''.'' then [CurDir] else [])
         @ map segment_component (filter (\<lambda>s. s \<noteq> [] \<and> s \<noteq> ''.'') segments))"

definition is_within_roots :: "path_component list \<Rightarrow> string list \<Rightarrow> bool" where
  "is_within_roots candidate roots \<longleftrightarrow>
     roots = [] \<or> list_ex (\<lambda>root. prefix (path_components root) candidate) roots"

definition describe_roots :: "string list \<Rightarrow> string" where
  "describe_roots roots = join '', '' roots"

definition validate_script_path :: "string \<Rightarrow> string list \<Rightarrow> script_error + unit" where
  "validate_script_path script_path allowed_roots =
     (if NUL \<in> set script_path
      then Inl (ScriptError MalformedPath ''script_path must not contain NUL bytes'')
      else if \<not> is_absolute_path script_path
      then Inl (ScriptError MalformedPath
        (''script_path must be an absolute path (got '' @ single_quoted script_path
         @ ''); a relative path would resolve against the daemon'' @ [CHR 0x27]
         @ ''s working directory, which is not a stable boundary''))
      else if ParentDir \<in> set (path_components script_path)
      then Inl (ScriptError MalformedPath
        (''script_path must not contain '' @ single_quoted ''..'' @ '' traversal segments (got ''
         @ single_quoted script_path @ '')''))
      else if \<not> is_within_roots (filter (\<lambda>c. c \<noteq> CurDir) (path_components script_path)) allowed_roots
      then Inl (ScriptError OutsideAllowedRoots
        (''script_path '' @ single_quoted script_path @ '' is outside the allowed script roots (''
         @ describe_roots allowed_roots @ ''). Choose a path inside one of them, or extend ALLOWED_SCRIPT_ROOTS.''))
      else Inr ())"

section \<open>What resolution computes\<close>

text \<open>The text a supplied value contributes; \<open>None\<close> for null.\<close>

definition json_text :: "json \<Rightarrow> string option" where
  "json_text j = (case j of JString s \<Rightarrow> Some s | JNumber n \<Rightarrow> Some n
     | JBool b \<Rightarrow> Some (if b then ''true'' else ''false'') | _ \<Rightarrow> None)"

definition acceptable_value :: "json \<Rightarrow> bool" where
  "acceptable_value j = (case j of JNull \<Rightarrow> True | JArray _ \<Rightarrow> False | JObject _ \<Rightarrow> False
     | _ \<Rightarrow> (case json_text j of Some t \<Rightarrow> NUL \<notin> set t | None \<Rightarrow> False))"

definition supplied_text :: "(string \<times> json) list \<Rightarrow> hook_parameter \<Rightarrow> string option" where
  "supplied_text supplied d = Option.bind (map_of supplied (hp_param_key d)) json_text"

definition effective_value :: "(string \<times> json) list \<Rightarrow> hook_parameter \<Rightarrow> string option" where
  "effective_value supplied d =
     (case supplied_text supplied d of Some v \<Rightarrow> Some v | None \<Rightarrow> hp_default_value d)"

lemma coerce_ok_iff:
  "coerce_param_value key j = Inr v \<longleftrightarrow> acceptable_value j \<and> v = json_text j"
  by (cases j) (auto simp: coerce_param_value_def acceptable_value_def json_text_def Let_def)

definition acceptable_for :: "(string \<times> json) list \<Rightarrow> hook_parameter \<Rightarrow> bool" where
  "acceptable_for supplied d =
     (case map_of supplied (hp_param_key d) of Some j \<Rightarrow> acceptable_value j | None \<Rightarrow> True)"

lemma resolve_loop_ok:
  "resolve_loop supplied declared acc = Inr r \<longleftrightarrow>
     list_all (acceptable_for supplied) declared
   \<and> r = acc\<lparr>rp_values := rp_values acc @ List.map_filter
          (\<lambda>d. map_option (Pair (hp_param_key d)) (effective_value supplied d)) declared,
        rp_missing_required := rp_missing_required acc @ map hp_param_key
          (filter (\<lambda>d. hp_is_required d \<and> effective_value supplied d = None) declared)\<rparr>"
proof (induction declared arbitrary: acc)
  case Nil
  then show ?case by (auto simp: List.map_filter_def)
next
  case (Cons d declared)
  let ?sv = "case map_of supplied (hp_param_key d) of
      Some raw \<Rightarrow> coerce_param_value (hp_param_key d) raw | None \<Rightarrow> Inr None"
  have sv: "?sv = Inr v \<longleftrightarrow> acceptable_for supplied d \<and> v = supplied_text supplied d" for v
    by (auto simp: acceptable_for_def supplied_text_def coerce_ok_iff split: option.splits)
  show ?case
  proof (cases "acceptable_for supplied d")
    case False
    then have "\<nexists>v. ?sv = Inr v" by (simp add: sv)
    with False show ?thesis by (auto simp: check_ok)
  next
    case True
    then have "?sv = Inr (supplied_text supplied d)" by (simp add: sv)
    with True show ?thesis
      by (auto simp: Cons.IH effective_value_def List.map_filter_def split: option.splits)
  qed
qed

section \<open>What the scanners see\<close>

lemma substitute_from_Nil [simp]: "substitute_from tok l [] = Inr []"
  by (simp add: substitute_from.simps)

lemma extract_Nil [simp]: "extract_template_variable_names [] = []"
  by (simp add: extract_template_variable_names.simps)

lemma substitute_from_plain:
  "c \<noteq> CHR ''$'' \<Longrightarrow> substitute_from tok l (c # r) = check (substitute_from tok l r) (\<lambda>out. Inr (c # out))"
  by (subst substitute_from.simps) simp

lemma extract_plain:
  "c \<noteq> CHR ''$'' \<Longrightarrow> extract_template_variable_names (c # r) = extract_template_variable_names r"
  by (subst extract_template_variable_names.simps) simp

lemma substitute_from_dollar_end:
  "substitute_from tok l [CHR ''$''] = Inr [CHR ''$'']"
  by (subst substitute_from.simps) simp

lemma extract_dollar_end: "extract_template_variable_names [CHR ''$''] = []"
  by (subst extract_template_variable_names.simps) simp

lemma substitute_from_brace:
  "substitute_from tok l (CHR ''$'' # CHR ''{'' # r) =
    (if dropWhile (\<lambda>c. c \<noteq> closing_brace) r = []
     then template_reject (''args_template has an unterminated '' @ single_quoted ''${''
            @ '' in '' @ single_quoted tok)
     else check (substitute_value tok l (takeWhile (\<lambda>c. c \<noteq> closing_brace) r)) (\<lambda>value.
          check (substitute_from tok l (drop 1 (dropWhile (\<lambda>c. c \<noteq> closing_brace) r))) (\<lambda>out.
          Inr (value @ out))))"
  by (subst substitute_from.simps) (simp add: Let_def)

lemma extract_brace:
  "extract_template_variable_names (CHR ''$'' # CHR ''{'' # r) =
    (if takeWhile (\<lambda>c. c \<noteq> closing_brace) r \<noteq> [] \<and> dropWhile (\<lambda>c. c \<noteq> closing_brace) r \<noteq> []
     then [takeWhile (\<lambda>c. c \<noteq> closing_brace) r] else [])
    @ extract_template_variable_names (drop 1 (dropWhile (\<lambda>c. c \<noteq> closing_brace) r))"
  by (subst extract_template_variable_names.simps) (simp add: Let_def)

lemma ident_start_not_brace: "is_ident_start d \<Longrightarrow> d \<noteq> CHR ''{''"
  by (auto simp: is_ident_start_def is_ascii_alphabetic_def)

lemma substitute_from_ident:
  "is_ident_start d \<Longrightarrow> substitute_from tok l (CHR ''$'' # d # r) =
    check (substitute_value tok l (takeWhile is_ident_char (d # r))) (\<lambda>value.
    check (substitute_from tok l (dropWhile is_ident_char (d # r))) (\<lambda>out. Inr (value @ out)))"
  using ident_start_not_brace[of d] by (subst substitute_from.simps) simp

lemma extract_ident:
  "is_ident_start d \<Longrightarrow> extract_template_variable_names (CHR ''$'' # d # r) =
    takeWhile is_ident_char (d # r) # extract_template_variable_names (dropWhile is_ident_char (d # r))"
  using ident_start_not_brace[of d] by (subst extract_template_variable_names.simps) simp

lemma substitute_from_dollar:
  "d \<noteq> CHR ''{'' \<Longrightarrow> \<not> is_ident_start d \<Longrightarrow> substitute_from tok l (CHR ''$'' # d # r) =
    check (substitute_from tok l (d # r)) (\<lambda>out. Inr (CHR ''$'' # out))"
  by (subst substitute_from.simps) simp

lemma extract_dollar:
  "d \<noteq> CHR ''{'' \<Longrightarrow> \<not> is_ident_start d \<Longrightarrow>
    extract_template_variable_names (CHR ''$'' # d # r) = extract_template_variable_names (d # r)"
  by (subst extract_template_variable_names.simps) simp

lemmas substitute_cases = substitute_from_plain substitute_from_dollar_end substitute_from_brace
  substitute_from_ident substitute_from_dollar
lemmas extract_cases = extract_plain extract_dollar_end extract_brace extract_ident extract_dollar

definition harmless :: "string \<Rightarrow> bool" where
  "harmless v \<longleftrightarrow> (\<forall>f\<in>set ARGS_TEMPLATE_FORBIDDEN. \<not> str_contains f v)"

lemma substitute_value_ok:
  "substitute_value tok l name = Inr v \<longleftrightarrow> l name = Some v \<and> harmless v"
  by (auto simp: substitute_value_def template_reject_def harmless_def find_Some_iff find_None_iff
      split: option.splits)

lemma ident_start_char: "is_ident_start c \<Longrightarrow> is_ident_char c"
  by (auto simp: is_ident_start_def is_ident_char_def is_ascii_alphanumeric_def)

lemma substitute_from_names:
  "substitute_from tok l s = Inr out \<Longrightarrow> name \<in> set (extract_template_variable_names s) \<Longrightarrow>
     \<exists>v. l name = Some v \<and> harmless v"
proof (induction s arbitrary: out rule: measure_induct_rule[where f = length])
  case (less s)
  consider "s = []" | c r where "s = c # r" "c \<noteq> CHR ''$''" | "s = [CHR ''$'']"
    | r where "s = CHR ''$'' # CHR ''{'' # r"
    | d r where "s = CHR ''$'' # d # r" "is_ident_start d"
    | d r where "s = CHR ''$'' # d # r" "d \<noteq> CHR ''{''" "\<not> is_ident_start d"
    by (cases s; cases "tl s") auto
  then show ?case
  proof cases
    case (4 r)
    let ?rest = "dropWhile (\<lambda>c. c \<noteq> closing_brace) r"
    have "length (drop 1 ?rest) < length s" using 4 drop_while_shorter(1) by simp
    note IH = less.IH[OF this]
    show ?thesis using IH less.prems 4
      by (auto simp: substitute_from_brace extract_brace check_ok substitute_value_ok template_reject_def
          split: if_splits)
  next
    case (5 d r)
    have "length (dropWhile is_ident_char (d # r)) < length s"
      using 5 drop_while_shorter(2)[of is_ident_char "d # r"] by simp
    with less 5 show ?thesis
      by (auto simp: substitute_from_ident extract_ident check_ok substitute_value_ok
          simp del: dropWhile.simps takeWhile.simps)
  next
    case (6 d r)
    have "length (d # r) < length s" using 6 by simp
    note IH = less.IH[OF this]
    show ?thesis using IH less.prems 6
      by (auto simp: substitute_from_dollar extract_dollar check_ok)
  qed (use less in \<open>auto simp: substitute_cases extract_cases check_ok\<close>)
qed

lemma substitute_all_ok:
  "substitute_all ts l = Inr as \<longleftrightarrow> list_all2 (\<lambda>t a. substitute_token t l = Inr a) ts as"
  by (induction ts arbitrary: as) (auto simp: check_ok list_all2_Cons1)

lemma value_lookup_range: "value_lookup r name = Some v \<Longrightarrow> (name, v) \<in> set (rp_values r)"
  unfolding value_lookup_def by (metis map_of_SomeD set_rev)

section \<open>What a template says\<close>

text \<open>
  A token of a template is read as a sequence of pieces: characters, \<open>${name}\<close> and \<open>$name\<close>.  The
  grammar is stated without the scanner: a braced name ends at the first closing brace, a bare name is
  as long as it can be, and a dollar stands for itself only in front of neither of the two.
\<close>

datatype piece = Verbatim char | Braced string | Bare string

inductive reads_as :: "string \<Rightarrow> piece list \<Rightarrow> bool" where
  reads_end: "reads_as [] []"
| reads_plain: "c \<noteq> CHR ''$'' \<Longrightarrow> reads_as s ps \<Longrightarrow> reads_as (c # s) (Verbatim c # ps)"
| reads_dollar: "\<forall>c r. s = c # r \<longrightarrow> c \<noteq> CHR ''{'' \<and> c \<noteq> CHR ''_'' \<and> \<not> is_ascii_alphabetic c \<Longrightarrow>
    reads_as s ps \<Longrightarrow> reads_as (CHR ''$'' # s) (Verbatim (CHR ''$'') # ps)"
| reads_braced: "CHR ''}'' \<notin> set n \<Longrightarrow> reads_as s ps \<Longrightarrow>
    reads_as (''${'' @ n @ ''}'' @ s) (Braced n # ps)"
| reads_bare: "is_ascii_alphabetic c \<or> c = CHR ''_'' \<Longrightarrow>
    \<forall>d\<in>set n. is_ascii_alphanumeric d \<or> d = CHR ''_'' \<Longrightarrow>
    \<forall>d r. s = d # r \<longrightarrow> \<not> is_ascii_alphanumeric d \<and> d \<noteq> CHR ''_'' \<Longrightarrow> reads_as s ps \<Longrightarrow>
    reads_as (CHR ''$'' # c # n @ s) (Bare (c # n) # ps)"

inductive_simps reads_as_Nil [simp]: "reads_as [] ps"

text \<open>The values that may stand in an argument, and what a piece contributes to it.\<close>

definition shell_safe :: "string \<Rightarrow> bool" where
  "shell_safe v \<longleftrightarrow> CHR ''|'' \<notin> set v \<and> CHR '';'' \<notin> set v \<and> CHR ''&'' \<notin> set v \<and> CHR 0x0A \<notin> set v
     \<and> \<not> sublist ''$('' v"

fun piece_text :: "(string \<Rightarrow> string option) \<Rightarrow> piece \<Rightarrow> string \<Rightarrow> bool" where
  "piece_text l (Verbatim c) t \<longleftrightarrow> t = [c]"
| "piece_text l (Braced n) t \<longleftrightarrow> l n = Some t \<and> shell_safe t"
| "piece_text l (Bare n) t \<longleftrightarrow> l n = Some t \<and> shell_safe t"

text \<open>
  What a token of the template contributes: one argument, its pieces in order, each name replaced by
  the last resolved value of this name.
\<close>

definition template_argument :: "resolved_parameters \<Rightarrow> string \<Rightarrow> string \<Rightarrow> bool" where
  "template_argument resolved token arg \<longleftrightarrow>
     (\<exists>pieces texts. reads_as token pieces
        \<and> list_all2 (piece_text (map_of (rev (rp_values resolved)))) pieces texts
        \<and> arg = concat texts)"

lemma contains_sublist: "str_contains p v \<longleftrightarrow> sublist p v"
  by (simp add: str_contains_iff sublist_def)

lemma sublist_char: "sublist [c] v \<longleftrightarrow> c \<in> set v"
  by (auto simp: sublist_def in_set_conv_decomp)

lemma harmless_shell_safe: "harmless v \<longleftrightarrow> shell_safe v"
  by (simp add: harmless_def shell_safe_def ARGS_TEMPLATE_FORBIDDEN_def contains_sublist sublist_char)

lemma drop_while_stop: "dropWhile P s = d # r \<Longrightarrow> \<not> P d"
  using hd_dropWhile[of P s] by simp

lemma reads_ident:
  assumes "is_ident_start d" "reads_as (dropWhile is_ident_char (d # r)) ps"
  shows "reads_as (CHR ''$'' # d # r) (Bare (takeWhile is_ident_char (d # r)) # ps)"
proof -
  have d: "is_ident_char d" using assms(1) by (rule ident_start_char)
  have "reads_as (CHR ''$'' # d # takeWhile is_ident_char r @ dropWhile is_ident_char r)
      (Bare (d # takeWhile is_ident_char r) # ps)"
  proof (rule reads_bare)
    show "\<forall>x\<in>set (takeWhile is_ident_char r). is_ascii_alphanumeric x \<or> x = CHR ''_''"
      by (metis is_ident_char_def set_takeWhileD)
    show "\<forall>x s. dropWhile is_ident_char r = x # s \<longrightarrow> \<not> is_ascii_alphanumeric x \<and> x \<noteq> CHR ''_''"
    proof (intro allI impI)
      fix x s
      assume "dropWhile is_ident_char r = x # s"
      from drop_while_stop[OF this] show "\<not> is_ascii_alphanumeric x \<and> x \<noteq> CHR ''_''"
        by (simp add: is_ident_char_def)
    qed
  qed (use assms d in \<open>auto simp: is_ident_start_def\<close>)
  with d show ?thesis by simp
qed

lemma substitute_reads:
  "substitute_from tok l s = Inr out \<Longrightarrow>
     \<exists>ps ts. reads_as s ps \<and> list_all2 (piece_text l) ps ts \<and> out = concat ts"
proof (induction s arbitrary: out rule: measure_induct_rule[where f = length])
  case (less s)
  have extend: "\<exists>ps ts. reads_as s ps \<and> list_all2 (piece_text l) ps ts \<and> v @ o' = concat ts"
    if "length s' < length s" "substitute_from tok l s' = Inr o'"
      "\<And>ps. reads_as s' ps \<Longrightarrow> reads_as s (p # ps)" "piece_text l p v" for s' o' p v
  proof -
    from less.IH[OF that(1,2)] obtain ps ts
      where "reads_as s' ps" "list_all2 (piece_text l) ps ts" "o' = concat ts" by blast
    with that show ?thesis by (intro exI[of _ "p # ps"] exI[of _ "v # ts"]) simp
  qed
  consider "s = []" | c r where "s = c # r" "c \<noteq> CHR ''$''" | "s = [CHR ''$'']"
    | r where "s = CHR ''$'' # CHR ''{'' # r"
    | d r where "s = CHR ''$'' # d # r" "is_ident_start d"
    | d r where "s = CHR ''$'' # d # r" "d \<noteq> CHR ''{''" "\<not> is_ident_start d"
    by (cases s; cases "tl s") auto
  then show ?case
  proof cases
    case 1
    with less.prems show ?thesis by simp
  next
    case (2 c r)
    with less.prems obtain o' where o: "substitute_from tok l r = Inr o'" "out = [c] @ o'"
      by (auto simp: substitute_from_plain check_ok)
    show ?thesis unfolding o(2)
      by (rule extend[of r o' "Verbatim c"]) (use 2 o in \<open>auto intro: reads_plain\<close>)
  next
    case 3
    with less.prems have "out = [CHR ''$''] @ []" by (simp add: substitute_from_dollar_end)
    then show ?thesis
      by (simp only:) (rule extend[of "[]" "[]" "Verbatim (CHR ''$'')"], use 3 in \<open>auto intro: reads_dollar\<close>)
  next
    case (4 r)
    let ?name = "takeWhile (\<lambda>c. c \<noteq> closing_brace) r"
    let ?rest = "dropWhile (\<lambda>c. c \<noteq> closing_brace) r"
    from less.prems 4 obtain v o' where o: "?rest \<noteq> []" "l ?name = Some v" "harmless v"
      "substitute_from tok l (drop 1 ?rest) = Inr o'" "out = v @ o'"
      by (auto simp: substitute_from_brace check_ok substitute_value_ok template_reject_def split: if_splits)
    obtain rest where rest: "?rest = closing_brace # rest"
      using o(1) drop_while_stop[of "\<lambda>c. c \<noteq> closing_brace" r] by (cases ?rest) auto
    have "r = ?name @ ?rest" by simp
    with 4 have s: "s = ''${'' @ ?name @ ''}'' @ drop 1 ?rest"
      unfolding rest by (simp add: closing_brace_def)
    have "CHR ''}'' \<notin> set ?name" by (auto simp: closing_brace_def dest: set_takeWhileD)
    note braced = reads_braced[OF this, of "drop 1 ?rest", folded s]
    have "length (drop 1 ?rest) < length s" using 4 drop_while_shorter(1) by simp
    from extend[OF this o(4) braced] o(2,3,5) show ?thesis by (simp add: harmless_shell_safe)
  next
    case (5 d r)
    let ?name = "takeWhile is_ident_char (d # r)"
    from less.prems 5 obtain v o' where o: "l ?name = Some v" "harmless v"
      "substitute_from tok l (dropWhile is_ident_char (d # r)) = Inr o'" "out = v @ o'"
      by (auto simp: substitute_from_ident check_ok substitute_value_ok simp del: dropWhile.simps takeWhile.simps)
    have "length (dropWhile is_ident_char (d # r)) < length s"
      using 5 drop_while_shorter(2)[of is_ident_char "d # r"] by simp
    from extend[OF this o(3), of "Bare ?name" v] reads_ident[OF 5(2)] o(1,2,4) show ?thesis
      by (simp add: harmless_shell_safe 5(1) del: dropWhile.simps takeWhile.simps)
  next
    case (6 d r)
    with less.prems obtain o' where o: "substitute_from tok l (d # r) = Inr o'" "out = [CHR ''$''] @ o'"
      by (auto simp: substitute_from_dollar check_ok)
    show ?thesis unfolding o(2)
      by (rule extend[of "d # r" o' "Verbatim (CHR ''$'')"])
        (use 6 o in \<open>auto intro!: reads_dollar simp: is_ident_start_def\<close>)
  qed
qed

lemma take_drop_ident:
  assumes "\<forall>d\<in>set n. is_ident_char d" "\<forall>d r. s = d # r \<longrightarrow> \<not> is_ident_char d"
  shows "takeWhile is_ident_char (n @ s) = n" "dropWhile is_ident_char (n @ s) = s"
  using assms by (induction n) (cases s; simp)+

lemma reads_substitute:
  "reads_as s ps \<Longrightarrow> list_all2 (piece_text l) ps ts \<Longrightarrow> substitute_from tok l s = Inr (concat ts)"
proof (induction arbitrary: ts rule: reads_as.induct)
  case (reads_dollar s ps)
  then show ?case
    by (cases s) (auto simp: list_all2_Cons1 substitute_cases is_ident_start_def)
next
  case (reads_braced n s ps)
  have "takeWhile (\<lambda>c. c \<noteq> closing_brace) (n @ closing_brace # s) = n"
    "dropWhile (\<lambda>c. c \<noteq> closing_brace) (n @ closing_brace # s) = closing_brace # s"
    using reads_braced.hyps(1) by (auto simp: closing_brace_def takeWhile_tail dropWhile_append3)
  with reads_braced show ?case
    by (auto simp: list_all2_Cons1 substitute_from_brace substitute_value_ok harmless_shell_safe
        closing_brace_def check_ok)
next
  case (reads_bare c n s ps)
  have "takeWhile is_ident_char ((c # n) @ s) = c # n" "dropWhile is_ident_char ((c # n) @ s) = s"
    by (rule take_drop_ident;
      use reads_bare.hyps in \<open>auto simp: is_ident_char_def is_ascii_alphanumeric_def\<close>)+
  moreover have "is_ident_start c" using reads_bare.hyps(1) by (simp add: is_ident_start_def)
  ultimately show ?case using reads_bare
    by (auto simp: list_all2_Cons1 substitute_from_ident substitute_value_ok harmless_shell_safe check_ok
        simp del: dropWhile.simps takeWhile.simps)
qed (auto simp: list_all2_Cons1 substitute_from_plain)

text \<open>Substitution implements the grammar, on success and on failure.\<close>

lemma substitute_token_iff: "substitute_token token (value_lookup r) = Inr arg \<longleftrightarrow> template_argument r token arg"
  unfolding substitute_token_def template_argument_def value_lookup_def
  using substitute_reads reads_substitute by blast

lemma resolve_template_iff:
  "resolve_args_template template r = Inr args \<longleftrightarrow>
     list_all2 (template_argument r) (split_whitespace template) args"
  by (simp add: resolve_args_template_def substitute_all_ok substitute_token_iff)

section \<open>Properties\<close>

text \<open>
  C28. Parameter resolution, on every branch: it succeeds exactly when every supplied key is declared
  and every supplied value of a declared parameter is null, or a string, number or boolean whose text
  has no NUL byte; the values are then the supplied text, else the default, in declaration order, and
  the missing list holds exactly the required parameters without either.
\<close>

theorem resolve_parameters_spec:
  "resolve_parameters declared supplied = Inr r \<longleftrightarrow>
     (\<forall>k\<in>fst ` set supplied. k \<in> hp_param_key ` set declared)
   \<and> (\<forall>d\<in>set declared. acceptable_for supplied d)
   \<and> rp_values r = List.map_filter
       (\<lambda>d. map_option (Pair (hp_param_key d)) (effective_value supplied d)) declared
   \<and> rp_missing_required r = map hp_param_key
       (filter (\<lambda>d. hp_is_required d \<and> effective_value supplied d = None) declared)"
proof -
  have "filter (\<lambda>k. \<not> list_ex (\<lambda>d. hp_param_key d = k) declared) (map fst supplied) = [] \<longleftrightarrow>
      (\<forall>k\<in>fst ` set supplied. k \<in> hp_param_key ` set declared)"
    unfolding filter_empty_conv list_ex_iff by fastforce
  then show ?thesis
    by (cases r) (auto simp: resolve_parameters_def Let_def resolve_loop_ok list_all_iff)
qed

theorem resolve_parameters_spec_witness:
  "resolve_parameters
     [\<lparr>hp_id = 1, hp_hook_id = 2, hp_param_key = ''ip'', hp_description = None,
       hp_default_value = None, hp_is_required = True, hp_created_at = 0\<rparr>]
     [(''ip'', JString ''10.0.0.1'')]
   = Inr \<lparr>rp_values = [(''ip'', ''10.0.0.1'')], rp_missing_required = []\<rparr>"
  by (subst resolve_parameters_spec)
    (simp add: acceptable_for_def acceptable_value_def json_text_def effective_value_def
      supplied_text_def NUL_def List.map_filter_def)

text \<open>
  C33. The arguments template, on every input: it yields exactly one argument per whitespace-separated
  token, in order, and fails when a token has none.  The argument of a token is its text with every
  \<open>$name\<close> and \<open>${name}\<close> replaced by the last resolved value of this name, and each such value has no
  pipe, semicolon, ampersand, line feed and \<open>$(\<close>; so a value never adds an argument or a shell construct.
  Every name the definition-time scanner reports in a token has such a value.
\<close>

theorem template_arguments_confined:
  "(resolve_args_template template resolved = Inr args \<longleftrightarrow>
      list_all2 (template_argument resolved) (split_whitespace template) args)
   \<and> (resolve_args_template template resolved = Inr args \<longrightarrow>
        length args = length (split_whitespace template)
      \<and> (\<forall>token\<in>set (split_whitespace template). \<forall>name\<in>set (extract_template_variable_names token).
           \<exists>v. (name, v) \<in> set (rp_values resolved) \<and> shell_safe v))"
proof (intro conjI impI ballI)
  show iff: "resolve_args_template template resolved = Inr args \<longleftrightarrow>
      list_all2 (template_argument resolved) (split_whitespace template) args"
    by (rule resolve_template_iff)
  assume r: "resolve_args_template template resolved = Inr args"
  then have all: "list_all2 (template_argument resolved) (split_whitespace template) args" by (simp add: iff)
  then show "length args = length (split_whitespace template)" by (simp add: list_all2_lengthD)
  fix token name
  assume "token \<in> set (split_whitespace template)"
    and n: "name \<in> set (extract_template_variable_names token)"
  with all obtain a where "template_argument resolved token a"
    by (auto simp: list_all2_conv_all_nth in_set_conv_nth)
  then have "substitute_from token (value_lookup resolved) token = Inr a"
    by (simp flip: substitute_token_iff add: substitute_token_def)
  from substitute_from_names[OF this n]
  show "\<exists>v. (name, v) \<in> set (rp_values resolved) \<and> shell_safe v"
    using value_lookup_range by (auto simp: harmless_shell_safe)
qed

theorem template_arguments_confined_witness:
  "template_argument \<lparr>rp_values = [(''ip'', ''10.0.0.1'')], rp_missing_required = []\<rparr> ''$ip'' ''10.0.0.1''
   \<and> (''ip'', ''10.0.0.1'') \<in> {(''ip'', v) | v. shell_safe v}"
proof -
  let ?r = "\<lparr>rp_values = [(''ip'', ''10.0.0.1'')], rp_missing_required = []\<rparr>"
  have split: "split_whitespace ''--ip $ip'' = [''--ip'', ''$ip'']"
    by (simp add: split_whitespace_def split_ws.simps whitespace_def)
  have ok: "resolve_args_template ''--ip $ip'' ?r = Inr [''--ip'', ''10.0.0.1'']"
    by (simp add: resolve_args_template_def split substitute_token_def substitute_from_plain
        substitute_from_ident is_ident_start_def is_ident_char_def is_ascii_alphanumeric_def
        is_ascii_alphabetic_def is_ascii_digit_def substitute_value_def value_lookup_def
        ARGS_TEMPLATE_FORBIDDEN_def)
  have names: "extract_template_variable_names ''$ip'' = [''ip'']"
    by (simp add: extract_ident is_ident_start_def is_ident_char_def is_ascii_alphanumeric_def
        is_ascii_alphabetic_def is_ascii_digit_def)
  note confined = template_arguments_confined[of "''--ip $ip''" ?r "[''--ip'', ''10.0.0.1'']"]
  show ?thesis using confined ok names by (simp add: split)
qed

text \<open>
  C22. The command plan: the program is the script itself, or \<open>sudo -n -u user --\<close> in front of it; what
  follows is one argument per token of a non-blank arguments template, each as the template says, and
  otherwise exactly the resolved values in declaration order; the child's environment holds nothing but
  allow-listed host variables and the hook's own \<open>HOOK\_PARAM\_\<close> injections.
\<close>

theorem command_plan_confined:
  assumes "build_command_plan host_env h resolved cfg = Inr plan"
  shows "(\<exists>more. (effective_run_as_user (hk_run_as_user h) = None \<longrightarrow>
              cp_program plan = hk_script_path h \<and> cp_args plan = more)
            \<and> (\<forall>u. effective_run_as_user (hk_run_as_user h) = Some u \<longrightarrow>
              cp_program plan = SUDO_BINARY
              \<and> cp_args plan = [''-n'', ''-u'', u, ''--'', hk_script_path h] @ more)
            \<and> (hk_args_template h = None \<or> (\<exists>t. hk_args_template h = Some t \<and> trim t = []) \<longrightarrow>
                more = map snd (rp_values resolved))
            \<and> (\<forall>t. hk_args_template h = Some t \<and> trim t \<noteq> [] \<longrightarrow>
                list_all2 (template_argument resolved) (split_whitespace (trim t)) more))
       \<and> (\<forall>k v. map_of (cp_env plan) k = Some v \<longrightarrow>
            k \<in> set (cf_allowed_env_vars cfg) \<and> host_env k = Some v
            \<or> (\<exists>key. k = PARAM_ENV_PREFIX @ map ascii_upper key \<and> (key, v) \<in> set (rp_values resolved)))"
proof
  let ?more = "case filter_opt (\<lambda>t. t \<noteq> []) (map_option trim (hk_args_template h)) of
      Some template \<Rightarrow> resolve_args_template template resolved
    | None \<Rightarrow> Inr (map snd (rp_values resolved))"
  from assms obtain more where m: "?more = Inr more"
    unfolding build_command_plan_def by (auto simp: Let_def check_ok split: prod.splits)
  with assms have plan: "cp_args plan = (case effective_run_as_user (hk_run_as_user h) of
        Some u \<Rightarrow> [''-n'', ''-u'', u, ''--'', hk_script_path h] | None \<Rightarrow> []) @ more"
    "cp_program plan = (case effective_run_as_user (hk_run_as_user h) of
        Some u \<Rightarrow> SUDO_BINARY | None \<Rightarrow> hk_script_path h)"
    "cp_env plan = rev (host_environment host_env cfg @ param_environment resolved)"
    by (auto simp: build_command_plan_def Let_def check_ok split: option.splits)
  have "hk_args_template h = None \<or> (\<exists>t. hk_args_template h = Some t \<and> trim t = []) \<longrightarrow>
      more = map snd (rp_values resolved)"
    using m by (auto simp: filter_opt_def)
  moreover have "\<forall>t. hk_args_template h = Some t \<and> trim t \<noteq> [] \<longrightarrow>
      list_all2 (template_argument resolved) (split_whitespace (trim t)) more"
    using m by (auto simp: filter_opt_def resolve_template_iff)
  ultimately show "\<exists>more. (effective_run_as_user (hk_run_as_user h) = None \<longrightarrow>
              cp_program plan = hk_script_path h \<and> cp_args plan = more)
            \<and> (\<forall>u. effective_run_as_user (hk_run_as_user h) = Some u \<longrightarrow>
              cp_program plan = SUDO_BINARY
              \<and> cp_args plan = [''-n'', ''-u'', u, ''--'', hk_script_path h] @ more)
            \<and> (hk_args_template h = None \<or> (\<exists>t. hk_args_template h = Some t \<and> trim t = []) \<longrightarrow>
                more = map snd (rp_values resolved))
            \<and> (\<forall>t. hk_args_template h = Some t \<and> trim t \<noteq> [] \<longrightarrow>
                list_all2 (template_argument resolved) (split_whitespace (trim t)) more)"
    using plan(1,2) by (intro exI[of _ more]) simp
  show "\<forall>k v. map_of (cp_env plan) k = Some v \<longrightarrow>
            k \<in> set (cf_allowed_env_vars cfg) \<and> host_env k = Some v
            \<or> (\<exists>key. k = PARAM_ENV_PREFIX @ map ascii_upper key \<and> (key, v) \<in> set (rp_values resolved))"
  proof (intro allI impI)
    fix k v
    assume "map_of (cp_env plan) k = Some v"
    then have "(k, v) \<in> set (host_environment host_env cfg) \<union> set (param_environment resolved)"
      unfolding plan(3) by (auto dest!: map_of_SomeD)
    then show "k \<in> set (cf_allowed_env_vars cfg) \<and> host_env k = Some v
            \<or> (\<exists>key. k = PARAM_ENV_PREFIX @ map ascii_upper key \<and> (key, v) \<in> set (rp_values resolved))"
      by (auto simp: host_environment_def param_environment_def List.map_filter_def)
  qed
qed

text \<open>A hook that runs as root, and its stored row.\<close>

definition ban_hook :: hook where
  "ban_hook =
     \<lparr>hk_id = 1, hk_name = ''ban'', hk_description = None, hk_script_path = ''/opt/ban.sh'',
      hk_default_timeout_seconds = 30, hk_run_as_user = Some ''root'', hk_owner_key_id = Some 3,
      hk_is_deleted = False, hk_deleted_at = None, hk_deleted_by = None, hk_created_at = 0,
      hk_updated_at = 0, hk_auth_mode = CanonicalV1, hk_hmac_secret = None,
      hk_signature_header = None, hk_signature_prefix = None, hk_canonical_template = None,
      hk_sample_payload_json = None, hk_args_template = None\<rparr>"

theorem command_plan_confined_witness:
  "\<exists>plan.
     build_command_plan (\<lambda>_. None) ban_hook
       \<lparr>rp_values = [(''ip'', ''10.0.0.1'')], rp_missing_required = []\<rparr> default_config = Inr plan
     \<and> cp_program plan = SUDO_BINARY
     \<and> cp_args plan = [''-n'', ''-u'', ''root'', ''--'', ''/opt/ban.sh'', ''10.0.0.1'']"
proof -
  have user: "effective_run_as_user (hk_run_as_user ban_hook) = Some ''root''"
    by (simp add: ban_hook_def effective_run_as_user_def trim_def trim_start_def trim_end_def
        trim_front.simps whitespace_def)
  obtain plan where plan: "build_command_plan (\<lambda>_. None) ban_hook
      \<lparr>rp_values = [(''ip'', ''10.0.0.1'')], rp_missing_required = []\<rparr> default_config = Inr plan"
    by (simp add: build_command_plan_def user) (simp add: ban_hook_def)
  have "hk_script_path ban_hook = ''/opt/ban.sh''" "hk_args_template ban_hook = None" by (simp_all add: ban_hook_def)
  with command_plan_confined[OF plan] user plan show ?thesis by auto
qed

text \<open>
  The accepted accounts: after trimming, a letter or underscore, then letters, digits, underscores
  and hyphens, with one optional trailing dollar, at most 32 bytes.  No accepted value starts with a
  hyphen, so none can be read by sudo as an option.
\<close>

theorem run_as_user_shape:
  "validate_run_as_user u = Inr () \<longleftrightarrow>
     (\<exists>c body. trim u = c # body \<and> length (trim u) \<le> 32
        \<and> (is_ascii_alphabetic c \<or> c = CHR ''_'') \<and> c \<noteq> CHR ''-''
        \<and> (\<exists>name. (body = name \<or> body = name @ ''$'')
             \<and> (\<forall>x\<in>set name. is_ascii_alphanumeric x \<or> x = CHR ''_'' \<or> x = CHR ''-'')))"
proof -
  have nohyphen: "\<not> is_ascii_alphabetic (CHR ''-'')" by (simp add: is_ascii_alphabetic_def)
  have dollar: "\<not> (is_ascii_alphanumeric (CHR ''$''))"
    by (simp add: is_ascii_alphanumeric_def is_ascii_alphabetic_def is_ascii_digit_def)
  have drop: "list_all P (drop_trailing_dollar body) \<longleftrightarrow>
      (\<exists>name. (body = name \<or> body = name @ ''$'') \<and> (\<forall>x\<in>set name. P x))"
    if "\<not> P (CHR ''$'')" for P and body :: string
  proof (cases body rule: rev_cases)
    case Nil
    then show ?thesis by (simp add: drop_trailing_dollar_def)
  next
    case (snoc ys y)
    then show ?thesis using that by (auto simp: drop_trailing_dollar_def list_all_iff)
  qed
  show ?thesis
    by (cases "trim u")
      (use nohyphen dollar in \<open>auto simp: validate_run_as_user_def invalid_user_def Let_def drop
         MAX_USERNAME_LEN_def\<close>)
qed

theorem run_as_user_shape_witness:
  "validate_run_as_user ''deploy$'' = Inr ()
   \<and> validate_run_as_user ''-u'' \<noteq> Inr ()"
proof -
  have shape: "\<exists>c body. trim ''deploy$'' = c # body \<and> length (trim ''deploy$'') \<le> 32
      \<and> (is_ascii_alphabetic c \<or> c = CHR ''_'') \<and> c \<noteq> CHR ''-''
      \<and> (\<exists>name. (body = name \<or> body = name @ ''$'')
           \<and> (\<forall>x\<in>set name. is_ascii_alphanumeric x \<or> x = CHR ''_'' \<or> x = CHR ''-''))"
    by (intro exI[of _ "CHR ''d''"] exI[of _ "''eploy$''"] conjI exI[of _ "''eploy''"]) code_simp+
  have "trim ''-u'' = ''-u''" by code_simp
  then show ?thesis using shape run_as_user_shape[of "''deploy$''"] run_as_user_shape[of "''-u''"] by auto
qed

text \<open>
  A script path is accepted at definition time exactly when it has no NUL byte, is absolute, has no
  parent-directory segment, and lies inside one of the configured roots component by component (any
  path when no root is configured).
\<close>

theorem script_path_accepted_iff:
  "validate_script_path p roots = Inr () \<longleftrightarrow>
     NUL \<notin> set p \<and> is_absolute_path p \<and> ''..'' \<notin> set (split_on (CHR ''/'') p)
   \<and> (roots = [] \<or> (\<exists>root\<in>set roots. prefix (path_components root) (path_components p)))"
proof -
  have dotdot: "ParentDir \<in> set (path_components p) \<longleftrightarrow> ''..'' \<in> set (split_on (CHR ''/'') p)"
    by (auto simp: path_components_def Let_def segment_component_def image_iff)
  have "is_absolute_path p \<Longrightarrow> filter (\<lambda>c. c \<noteq> CurDir) (path_components p) = path_components p"
    by (auto simp: path_components_def Let_def segment_component_def filter_id_conv)
  then show ?thesis
    by (auto simp: validate_script_path_def dotdot is_within_roots_def list_ex_iff)
qed

text \<open>A root is a boundary of components, not of text.\<close>

lemma sibling_directory_outside:
  "validate_script_path ''/opt/hooks-evil/run.sh'' [''/opt/hooks''] \<noteq> Inr ()"
  "validate_script_path ''/opt/hooks/run.sh'' [''/opt/hooks''] = Inr ()"
  by (simp_all add: validate_script_path_def is_within_roots_def path_components_def Let_def
      is_absolute_path_def segment_component_def NUL_def)

end
