(* ===== verification/Support.thy ===== *)
theory Support
  imports Store Crypto Executor_Plan "HOL-Library.Product_Lexorder"
begin

text \<open>
  What a handler runs in and the helpers it shares (\<open>src/api/support.rs\<close>): the environment with
  the results of the non-deterministic calls, stateful sequencing, hook resolution, audit entries,
  the bounds on numbers and networks, and the JSON body of an invocation.
\<close>

section \<open>The environment of a request\<close>

text \<open>
  \<open>AppState\<close> without the database, and for each handler the results of the calls whose answer the
  code does not determine: \<open>Uuid::new\_v4\<close>, \<open>Utc::now\<close> and the random generator.  Every call site of
  a handler reads its own number.
\<close>

record env =
  ev_ext :: externals
  ev_config :: runtime_config
  ev_cipher :: secret_cipher
  ev_uuid :: "nat \<Rightarrow> uuid"
  ev_now :: "nat \<Rightarrow> time"
  ev_rand :: "nat \<Rightarrow> bytes"

section \<open>Stateful sequencing\<close>

text \<open>
  \<open>commit w db k\<close> is \<open>w(db).await?\<close> followed by \<open>k\<close>: a refused write ends the handler with the
  database as it is.  \<open>and_then\<close> continues after a call that returns a result and a database.
\<close>

definition commit ::
  "(database \<Rightarrow> db_err + database) \<Rightarrow> database \<Rightarrow> (database \<Rightarrow> 'a result \<times> database) \<Rightarrow>
     'a result \<times> database" where
  "commit w db k = (case w db of Inl e \<Rightarrow> (Inl (DbError e), db) | Inr db' \<Rightarrow> k db')"

definition and_then ::
  "'a result \<times> 's \<Rightarrow> ('a \<Rightarrow> 's \<Rightarrow> 'b result \<times> 's) \<Rightarrow> 'b result \<times> 's" where
  "and_then m k = (case m of (Inl e, s) \<Rightarrow> (Inl e, s) | (Inr x, s) \<Rightarrow> k x s)"

lemma and_then_simps [simp]:
  "and_then (Inl e, s) k = (Inl e, s)"
  "and_then (Inr x, s) k = k x s"
  by (simp_all add: and_then_def)

lemma commit_ok [early_return]:
  "commit w db k = (Inr y, s') \<longleftrightarrow> (\<exists>db'. w db = Inr db' \<and> k db' = (Inr y, s'))"
  by (auto simp: commit_def split: sum.splits)

lemma and_then_ok [early_return]:
  "and_then m k = (Inr y, s') \<longleftrightarrow> (\<exists>x s. m = (Inr x, s) \<and> k x s = (Inr y, s'))"
  by (cases m; cases "fst m") auto

text \<open>How a property \<open>P\<close> of the database passes through the sequencing operators.\<close>

lemma state_pair: "P s \<Longrightarrow> P (snd (r, s))"
  by simp

lemma state_attempt:
  "P s \<Longrightarrow> (\<And>x. r = Inr x \<Longrightarrow> P (snd (k x))) \<Longrightarrow> P (snd (attempt r s k))"
  by (cases r) auto

lemma state_commit:
  "P s \<Longrightarrow> (\<And>s'. w s = Inr s' \<Longrightarrow> P (snd (k s'))) \<Longrightarrow> P (snd (commit w s k))"
  by (auto simp: commit_def split: sum.splits)

lemma state_and_then:
  "P (snd m) \<Longrightarrow> (\<And>x s. m = (Inr x, s) \<Longrightarrow> P s \<Longrightarrow> P (snd (k x s))) \<Longrightarrow> P (snd (and_then m k))"
  by (cases m; cases "fst m") auto

lemma state_tuple:
  "(\<And>a b. t = (a, b) \<Longrightarrow> P (snd (f a b))) \<Longrightarrow> P (snd (case t of (a, b) \<Rightarrow> f a b))"
  by (cases t) simp

lemma state_tuple_fun:
  "(\<And>a b. t = (a, b) \<Longrightarrow> P (snd (f a b s))) \<Longrightarrow> P (snd ((case t of (a, b) \<Rightarrow> f a b) s))"
  by (cases t) simp

lemma state_sum:
  "(\<And>e. r = Inl e \<Longrightarrow> P (snd (f e))) \<Longrightarrow> (\<And>x. r = Inr x \<Longrightarrow> P (snd (g x))) \<Longrightarrow>
     P (snd (case r of Inl e \<Rightarrow> f e | Inr x \<Rightarrow> g x))"
  by (cases r) simp_all

lemma state_if:
  "(b \<Longrightarrow> P (snd x)) \<Longrightarrow> (\<not> b \<Longrightarrow> P (snd y)) \<Longrightarrow> P (snd (if b then x else y))"
  by simp

lemma state_db_err:
  "P (snd a) \<Longrightarrow> P (snd b) \<Longrightarrow> P (snd c) \<Longrightarrow>
     P (snd (case e of UniqueConstraintViolation \<Rightarrow> a | ForeignKeyViolation \<Rightarrow> b | RecordNotUpdated \<Rightarrow> c))"
  by (cases e) simp_all

lemmas keeps_state = state_pair state_attempt state_commit state_and_then state_if state_tuple state_tuple_fun state_sum
  state_db_err

section \<open>Bounds\<close>

definition MAX_TIMEOUT_SECONDS :: int where
  "MAX_TIMEOUT_SECONDS = 86400"

definition MAX_CONCURRENT_JOBS :: int where
  "MAX_CONCURRENT_JOBS = 1000"

definition validate_timeout :: "int \<Rightarrow> unit result" where
  "validate_timeout seconds =
     (if seconds \<le> 0 then Inl (InvalidInput ''default_timeout_seconds must be greater than 0'')
      else if seconds > MAX_TIMEOUT_SECONDS
      then Inl (InvalidInput (''default_timeout_seconds must not exceed '' @ int_text MAX_TIMEOUT_SECONDS))
      else Inr ())"

definition validate_concurrency :: "int \<Rightarrow> unit result" where
  "validate_concurrency jobs =
     (if jobs < 1 then Inl (InvalidInput ''max_concurrent_jobs must be at least 1'')
      else if jobs > MAX_CONCURRENT_JOBS
      then Inl (InvalidInput (''max_concurrent_jobs must not exceed '' @ int_text MAX_CONCURRENT_JOBS))
      else Inr ())"

fun check_networks :: "externals \<Rightarrow> string list \<Rightarrow> unit result" where
  "check_networks X [] = Inr ()"
| "check_networks X (cidr # r) =
     (let trimmed = trim cidr
      in if trimmed = [] then check_networks X r
         else case x_network_parse X trimmed of
           None \<Rightarrow> Inl (InvalidInput (''Invalid CIDR: '' @ trimmed))
         | Some _ \<Rightarrow> check_networks X r)"

definition validate_bound_ips :: "externals \<Rightarrow> string \<Rightarrow> unit result" where
  "validate_bound_ips X bound_ips = check_networks X (split_on (CHR '','') bound_ips)"

section \<open>Keys and secrets\<close>

definition generate_random_key :: "env \<Rightarrow> nat \<Rightarrow> string" where
  "generate_random_key E n = x_hex_encode (ev_ext E) (ev_rand E n)"

definition hash_key :: "externals \<Rightarrow> string \<Rightarrow> string" where
  "hash_key X key = x_hex_encode X (x_sha256 X key)"

definition generate_key_id :: "env \<Rightarrow> nat \<Rightarrow> string" where
  "generate_key_id E n = ''shk_'' @ x_hex_encode (ev_ext E) (ev_rand E n)"

text \<open>Three random draws, from number \<open>n\<close> on: the key id, the secret, the cipher's nonce.\<close>

definition mint_signing_pair :: "env \<Rightarrow> nat \<Rightarrow> (string \<times> string \<times> string) result" where
  "mint_signing_pair E n =
     (let key_id = generate_key_id E n;
          signing_secret = generate_signing_secret (ev_ext E) (ev_rand E (Suc n))
      in case seal (ev_ext E) (ev_cipher E) (ev_rand E (Suc (Suc n))) signing_secret of
           Inl e \<Rightarrow> Inl Internal
         | Inr sealed \<Rightarrow> Inr (key_id, signing_secret, sealed))"

section \<open>Text for the audit log\<close>

definition format_reference :: "externals \<Rightarrow> string \<Rightarrow> uuid \<Rightarrow> string" where
  "format_reference X name i = single_quoted name @ '' ('' @ take 8 (x_uuid_text X i) @ ''...)''"

fun describe_hmac_mode :: "hmac_mode \<Rightarrow> string" where
  "describe_hmac_mode HmacCanonicalV1 = ''signatures: CANONICAL_V1''"

fun describe_privilege :: "string option \<Rightarrow> string" where
  "describe_privilege (Some user) = ''runs as '' @ single_quoted user @ '' via sudo''"
| "describe_privilege None = ''runs as the daemon user''"

text \<open>The entry takes the handler's identifier and instant number \<open>n\<close>.\<close>

definition create_audit_log ::
  "env \<Rightarrow> nat \<Rightarrow> api_key \<Rightarrow> ip \<Rightarrow> string \<Rightarrow> string option \<Rightarrow> string option \<Rightarrow> database \<Rightarrow>
     unit result \<times> database" where
  "create_audit_log E n key client_ip action target_resource details db =
     commit (insert_audit
       \<lparr>al_id = ev_uuid E n,
        al_api_key_id = Some (ak_id key),
        al_api_key_name = ak_name key,
        al_api_key_prefix = ak_prefix key,
        al_client_ip = x_ip_text (ev_ext E) client_ip,
        al_action = action,
        al_target_resource = target_resource,
        al_details = details,
        al_timestamp = ev_now E n\<rparr>) db (\<lambda>db. (Inr (), db))"

definition parse_instant :: "externals \<Rightarrow> string \<Rightarrow> string \<Rightarrow> time result" where
  "parse_instant X field raw =
     ok_or (x_rfc3339 X raw) (InvalidInput (''Invalid '' @ single_quoted field
       @ '': expected an RFC 3339 timestamp, e.g. 2026-08-19T00:00:00Z''))"

section \<open>Hooks and their parameters\<close>

definition resolve_hook_including_deleted :: "externals \<Rightarrow> database \<Rightarrow> string \<Rightarrow> hook result" where
  "resolve_hook_including_deleted X db identifier =
     (case Option.bind (x_uuid_parse X identifier) (find_hook db) of
        Some found \<Rightarrow> Inr found
      | None \<Rightarrow> ok_or (find_hook_by_name db identifier) NotFound)"

definition resolve_hook :: "externals \<Rightarrow> database \<Rightarrow> string \<Rightarrow> hook result" where
  "resolve_hook X db identifier =
     check (resolve_hook_including_deleted X db identifier) (\<lambda>found.
     if hk_is_deleted found then Inl NotFound else Inr found)"

definition load_parameters :: "database \<Rightarrow> uuid \<Rightarrow> hook_parameter list" where
  "load_parameters db hook_id =
     sort_key (\<lambda>p. (hp_created_at p, hp_param_key p))
       (filter (\<lambda>p. hp_hook_id p = hook_id) (db_params db))"

definition extract_parameter_map :: "externals \<Rightarrow> bytes \<Rightarrow> (string \<times> json) list result" where
  "extract_parameter_map X body =
     (if body = [] then Inr []
      else case x_json_parse X body of
        Inl e \<Rightarrow> Inl (InvalidInput (''Invalid JSON body: '' @ e))
      | Inr JNull \<Rightarrow> Inr []
      | Inr (JObject object) \<Rightarrow>
          (case map_of object ''parameters'' of
             Some (JObject inner) \<Rightarrow> Inr inner
           | Some JNull \<Rightarrow> Inr object
           | None \<Rightarrow> Inr object
           | Some _ \<Rightarrow> Inl (InvalidInput (single_quoted ''parameters'' @ '' must be a JSON object'')))
      | Inr _ \<Rightarrow> Inl (InvalidInput ''Request body must be a JSON object''))"

section \<open>Lemmas\<close>

lemma validate_timeout_ok [early_return]: "validate_timeout s = Inr u \<longleftrightarrow> 0 < s \<and> s \<le> 86400"
  by (auto simp: validate_timeout_def MAX_TIMEOUT_SECONDS_def)

lemma validate_concurrency_ok [early_return]: "validate_concurrency j = Inr u \<longleftrightarrow> 1 \<le> j \<and> j \<le> 1000"
  by (auto simp: validate_concurrency_def MAX_CONCURRENT_JOBS_def)

lemma check_networks_ok:
  "check_networks X cs = Inr u \<longleftrightarrow>
     (\<forall>c\<in>set cs. trim c = [] \<or> x_network_parse X (trim c) \<noteq> None)"
  by (induction cs) (auto simp: Let_def split: option.splits)

lemma validate_bound_ips_ok:
  "validate_bound_ips X b = Inr u \<longleftrightarrow>
     (\<forall>c\<in>set (split_on (CHR '','') b). trim c = [] \<or> x_network_parse X (trim c) \<noteq> None)"
  by (simp add: validate_bound_ips_def check_networks_ok)

lemma create_audit_log_wf:
  "wf_db db \<Longrightarrow> wf_db (snd (create_audit_log E n key c a t d db))"
  unfolding create_audit_log_def by (intro keeps_state[where P = wf_db]) (auto intro: insert_audit_wf)

lemma create_audit_log_tables [simp]:
  "db_keys (snd (create_audit_log E n key c a t d db)) = db_keys db"
  "db_hooks (snd (create_audit_log E n key c a t d db)) = db_hooks db"
  "db_params (snd (create_audit_log E n key c a t d db)) = db_params db"
  "db_perms (snd (create_audit_log E n key c a t d db)) = db_perms db"
  "db_execs (snd (create_audit_log E n key c a t d db)) = db_execs db"
  by (auto simp: create_audit_log_def commit_def insert_audit_def split: sum.splits)

lemma resolve_including_deletedD:
  "resolve_hook_including_deleted X db i = Inr h \<Longrightarrow>
     h \<in> set (db_hooks db) \<and> (x_uuid_parse X i = Some (hk_id h) \<or> hk_name h = i)"
  by (auto simp: resolve_hook_including_deleted_def early_return bind_eq_Some_conv
      split: option.splits dest: find_hookD find_hook_by_nameD)

lemma resolve_hookD:
  "resolve_hook X db i = Inr h \<Longrightarrow> h \<in> set (db_hooks db) \<and> \<not> hk_is_deleted h
     \<and> (x_uuid_parse X i = Some (hk_id h) \<or> hk_name h = i)"
  by (auto simp: resolve_hook_def early_return split: if_splits dest: resolve_including_deletedD)

lemma set_load_parameters [simp]:
  "set (load_parameters db i) = {p \<in> set (db_params db). hp_hook_id p = i}"
  by (simp add: load_parameters_def)

end
