(* ===== verification/Guards.thy ===== *)
theory Guards
  imports Support
begin

text \<open>
  The authorisation guards (\<open>src/api/guards.rs\<close>), one definition per function.  A guard that takes
  \<open>&DatabaseConnection\<close> reads the database; it never writes, so it is a pure function of it.  The
  second half of the theory states each guard as the condition it enforces.
\<close>

section \<open>Payloads the guards inspect\<close>

record update_api_key_payload =
  ukp_name :: "string option"
  ukp_bound_ips :: "string option"
  ukp_max_concurrent_jobs :: "int option"
  ukp_canonical_template :: "string option"
  ukp_can_manage_keys :: "bool option"
  ukp_can_manage_hooks :: "bool option"

section \<open>Hook verbs\<close>

definition guard_master_for_deleted_view :: "api_key \<Rightarrow> bool \<Rightarrow> unit result" where
  "guard_master_for_deleted_view key include_deleted =
     (if include_deleted \<and> \<not> ak_is_master key
      then Inl (Forbidden ''Only master API keys can view deleted hooks'') else Inr ())"

fun verb_denied :: "permission option \<Rightarrow> string \<Rightarrow> app_error" where
  "verb_denied (Some _) verb =
     Forbidden (''Permission denied: You do not have '' @ verb @ '' access to this hook'')"
| "verb_denied None verb = NotFound"

definition guard_execute :: "database \<Rightarrow> api_key \<Rightarrow> uuid \<Rightarrow> unit result" where
  "guard_execute db key hook_id =
     (if ak_is_master key then Inr ()
      else let held = hook_permission db (ak_id key) hook_id
           in case held of
                Some p \<Rightarrow> if pm_can_execute p then Inr () else Inl (verb_denied held ''execute'')
              | None \<Rightarrow> Inl (verb_denied held ''execute''))"

definition guard_hook_manage_conjunction :: "database \<Rightarrow> api_key \<Rightarrow> uuid \<Rightarrow> permission result" where
  "guard_hook_manage_conjunction db key hook_id =
     (let denied = Forbidden ''Permission denied: You do not have manage access to this hook''
      in case hook_permission db (ak_id key) hook_id of
           None \<Rightarrow> Inl NotFound
         | Some row \<Rightarrow>
             if \<not> ak_can_manage_keys key then Inl denied
             else if \<not> pm_can_manage row then Inl denied
             else Inr row)"

definition guard_manage :: "database \<Rightarrow> api_key \<Rightarrow> hook \<Rightarrow> unit result" where
  "guard_manage db key h =
     (if ak_is_master key then Inr ()
      else if hk_owner_key_id h = Some (ak_id key) then Inr ()
      else check (guard_hook_manage_conjunction db key (hk_id h)) (\<lambda>_. Inr ()))"

definition guard_dispatch_configuration :: "database \<Rightarrow> api_key \<Rightarrow> hook \<Rightarrow> unit result" where
  "guard_dispatch_configuration db key h =
     (if ak_is_master key then Inr ()
      else check (guard_hook_manage_conjunction db key (hk_id h)) (\<lambda>_. Inr ()))"

definition guard_visibility :: "database \<Rightarrow> api_key \<Rightarrow> hook \<Rightarrow> unit result" where
  "guard_visibility db key h =
     (if ak_is_master key then Inr ()
      else if hk_owner_key_id h = Some (ak_id key) then Inr ()
      else case hook_permission db (ak_id key) (hk_id h) of
             Some p \<Rightarrow> if pm_can_execute p \<or> pm_can_manage p \<or> pm_can_view_execution p
                       then Inr () else Inl NotFound
           | None \<Rightarrow> Inl NotFound)"

definition may_read_execution :: "database \<Rightarrow> api_key \<Rightarrow> execution \<Rightarrow> bool" where
  "may_read_execution db key execution =
     (if ak_is_master key \<or> ex_api_key_id execution = Some (ak_id key) then True
      else if (case find_hook db (ex_hook_id execution) of
                 Some h \<Rightarrow> hk_owner_key_id h = Some (ak_id key) | None \<Rightarrow> False) then True
      else case hook_permission db (ak_id key) (ex_hook_id execution) of
             Some p \<Rightarrow> pm_can_view_execution p \<or> pm_can_manage p
           | None \<Rightarrow> False)"

definition owned_hook_ids :: "database \<Rightarrow> uuid \<Rightarrow> uuid list" where
  "owned_hook_ids db key_id = map hk_id (filter (\<lambda>h. hk_owner_key_id h = Some key_id) (db_hooks db))"

definition granted_hook_ids :: "database \<Rightarrow> uuid \<Rightarrow> (permission \<Rightarrow> bool) \<Rightarrow> uuid list" where
  "granted_hook_ids db key_id verb =
     map pm_hook_id (filter (\<lambda>p. pm_api_key_id p = key_id \<and> verb p) (db_perms db))"

definition execution_visible_hook_ids :: "database \<Rightarrow> api_key \<Rightarrow> uuid list" where
  "execution_visible_hook_ids db key =
     remdups_adj (sort (owned_hook_ids db (ak_id key)
       @ granted_hook_ids db (ak_id key) (\<lambda>p. pm_can_view_execution p \<or> pm_can_manage p)))"

definition visible_hook_ids :: "database \<Rightarrow> api_key \<Rightarrow> uuid list option" where
  "visible_hook_ids db key =
     (if ak_is_master key then None
      else Some (remdups_adj (sort
        (granted_hook_ids db (ak_id key)
           (\<lambda>p. pm_can_execute p \<or> pm_can_manage p \<or> pm_can_view_execution p)
         @ owned_hook_ids db (ak_id key)))))"

section \<open>Privileged fields\<close>

definition normalize_run_as_user :: "api_key \<Rightarrow> string option \<Rightarrow> (string option) result" where
  "normalize_run_as_user key run_as_user =
     (case effective_run_as_user run_as_user of
        Some user \<Rightarrow>
          if \<not> ak_is_master key
          then Inl (Forbidden ''Only master API keys can assign run_as_user privileges'')
          else check (script_error_to_app (validate_run_as_user user)) (\<lambda>_. Inr (Some user))
      | None \<Rightarrow> Inr None)"

definition guard_master_to_grant_scopes ::
  "api_key \<Rightarrow> bool option \<Rightarrow> bool option \<Rightarrow> unit result" where
  "guard_master_to_grant_scopes key can_manage_keys can_manage_hooks =
     (if ak_is_master key then Inr ()
      else case List.find snd
             [(''can_manage_keys'', unwrap_or can_manage_keys False),
              (''can_manage_hooks'', unwrap_or can_manage_hooks False)] of
             None \<Rightarrow> Inr ()
           | Some (scope, _) \<Rightarrow>
               Inl (Forbidden (''Only master API keys can grant '' @ single_quoted scope)))"

definition guard_canonical_v1_for_key_management ::
  "bool \<Rightarrow> hmac_mode \<Rightarrow> string option \<Rightarrow> unit result" where
  "guard_canonical_v1_for_key_management can_manage_keys mode canonical_template =
     (if \<not> can_manage_keys then Inr ()
      else if mode \<noteq> HmacCanonicalV1
      then Inl (InvalidInput ''can_manage_keys requires hmac_mode = CANONICAL_V1: a key that can administer other credentials must not opt out of replay protection. Create or promote it as a CANONICAL_V1 key, or leave can_manage_keys unset.'')
      else if (case canonical_template of Some t \<Rightarrow> t \<noteq> [] | None \<Rightarrow> False)
      then Inl (InvalidInput ''can_manage_keys requires the standard canonical_template: a key that can administer other credentials must sign over the template this codebase's verification has been reviewed against, not one of its own choosing. Clear canonical_template, or leave can_manage_keys unset.'')
      else Inr ())"

definition guard_master_to_administer :: "api_key \<Rightarrow> api_key \<Rightarrow> string \<Rightarrow> unit result" where
  "guard_master_to_administer key target action =
     (if \<not> ak_is_master target \<or> ak_is_master key then Inr ()
      else Inl (Forbidden (''Only master API keys can '' @ action @ '' a master key'')))"

definition refuse_master_lifecycle_action :: "api_key \<Rightarrow> string \<Rightarrow> unit result" where
  "refuse_master_lifecycle_action target action =
     (if \<not> ak_is_master target then Inr ()
      else Inl (Forbidden (''The master API key cannot be '' @ action
        @ ''d through the API; remove its row directly in the database and restart to re-mint it'')))"

definition guard_master_self_edit_is_bound_ips_only ::
  "api_key \<Rightarrow> api_key \<Rightarrow> update_api_key_payload \<Rightarrow> unit result" where
  "guard_master_self_edit_is_bound_ips_only key target payload =
     (if \<not> ak_is_master target then Inr ()
      else if ak_id key \<noteq> ak_id target
      then Inl (Forbidden ''Only the master API key itself may edit the master key's bound_ips'')
      else
        let other_fields =
              [(''name'', ukp_name payload \<noteq> None),
               (''max_concurrent_jobs'', ukp_max_concurrent_jobs payload \<noteq> None),
               (''can_manage_keys'', ukp_can_manage_keys payload \<noteq> None),
               (''canonical_template'', ukp_canonical_template payload \<noteq> None)];
            requested = (case map_option fst (List.find snd other_fields) of
               Some field \<Rightarrow> Some field
             | None \<Rightarrow> if ukp_can_manage_hooks payload \<noteq> None then Some ''can_manage_hooks'' else None)
        in case requested of
             None \<Rightarrow> Inr ()
           | Some field \<Rightarrow>
               Inl (Forbidden (''The master API key is immutable except for its own ''
                 @ single_quoted ''bound_ips'' @ ''; '' @ single_quoted field
                 @ '' cannot be changed through the API'')))"

definition guard_master_for_privileged_hook :: "api_key \<Rightarrow> hook \<Rightarrow> string \<Rightarrow> unit result" where
  "guard_master_for_privileged_hook key h action =
     (if ak_is_master key then Inr ()
      else case effective_run_as_user (hk_run_as_user h) of
             None \<Rightarrow> Inr ()
           | Some user \<Rightarrow>
               Inl (Forbidden (''Only master API keys can '' @ action @ '' a hook that runs as ''
                 @ single_quoted user)))"

section \<open>Permission administration\<close>

definition manages_any_hook :: "database \<Rightarrow> uuid \<Rightarrow> bool" where
  "manages_any_hook db key_id \<longleftrightarrow>
     List.find (\<lambda>p. pm_api_key_id p = key_id \<and> pm_can_manage p) (db_perms db) \<noteq> None"

definition has_permission_admin_standing :: "database \<Rightarrow> api_key \<Rightarrow> bool" where
  "has_permission_admin_standing db key =
     (if ak_is_master key then True
      else if \<not> ak_can_manage_keys key then False
      else manages_any_hook db (ak_id key))"

definition guard_lifecycle_authority :: "api_key \<Rightarrow> hook \<Rightarrow> string \<Rightarrow> unit result" where
  "guard_lifecycle_authority key h action =
     (if ak_is_master key \<or> hk_owner_key_id h = Some (ak_id key) then Inr ()
      else Inl (Forbidden (''Permission denied: only the master key or hook ''
        @ single_quoted (hk_name h) @ [CHR 0x27] @ ''s owner may '' @ action
        @ '' it; managing a hook does not confer lifecycle authority over it'')))"

definition is_permission_reduction :: "permission option \<Rightarrow> bool \<Rightarrow> bool \<Rightarrow> bool \<Rightarrow> bool" where
  "is_permission_reduction existing requested_execute requested_manage requested_view_execution =
     (let (had_execute, had_manage, had_view) =
            (case existing of
               None \<Rightarrow> (False, False, False)
             | Some p \<Rightarrow> (pm_can_execute p, pm_can_manage p, pm_can_view_execution p));
          grants_execute = (requested_execute \<and> \<not> had_execute);
          grants_manage = (requested_manage \<and> \<not> had_manage);
          grants_view = (requested_view_execution \<and> \<not> had_view)
      in \<not> grants_execute \<and> \<not> grants_manage \<and> \<not> grants_view)"

definition guard_delegated_hook_grant ::
  "database \<Rightarrow> api_key \<Rightarrow> hook \<Rightarrow> bool \<Rightarrow> bool \<Rightarrow> bool \<Rightarrow> unit result" where
  "guard_delegated_hook_grant db key h requested_execute requested_manage requested_view_execution =
     (if ak_is_master key then Inr ()
      else check (guard_hook_manage_conjunction db key (hk_id h)) (\<lambda>held.
        case List.find (\<lambda>(verb, wanted, holds). wanted \<and> \<not> holds)
               [(''can_execute'', requested_execute, pm_can_execute held),
                (''can_manage'', requested_manage, pm_can_manage held),
                (''can_view_execution'', requested_view_execution, pm_can_view_execution held)] of
          Some (verb, _, _) \<Rightarrow>
            Inl (Forbidden (''Permission denied: you cannot grant '' @ single_quoted verb @ '' on hook ''
              @ single_quoted (hk_name h) @ '' because you do not hold it yourself''))
        | None \<Rightarrow> Inr ()))"

section \<open>What the guards enforce\<close>

definition holds_conjunction :: "database \<Rightarrow> api_key \<Rightarrow> uuid \<Rightarrow> bool" where
  "holds_conjunction db key hook_id \<longleftrightarrow> ak_can_manage_keys key
     \<and> (\<exists>p. hook_permission db (ak_id key) hook_id = Some p \<and> pm_can_manage p)"

lemma conjunction_ok [early_return]:
  "guard_hook_manage_conjunction db key i = Inr p \<longleftrightarrow>
     ak_can_manage_keys key \<and> hook_permission db (ak_id key) i = Some p \<and> pm_can_manage p"
  by (auto simp: guard_hook_manage_conjunction_def Let_def split: option.splits)

lemma guard_execute_ok [early_return]:
  "guard_execute db key i = Inr u \<longleftrightarrow>
     ak_is_master key \<or> (\<exists>p. hook_permission db (ak_id key) i = Some p \<and> pm_can_execute p)"
  by (auto simp: guard_execute_def Let_def split: option.splits)

lemma guard_manage_ok [early_return]:
  "guard_manage db key h = Inr u \<longleftrightarrow>
     ak_is_master key \<or> hk_owner_key_id h = Some (ak_id key) \<or> holds_conjunction db key (hk_id h)"
  by (auto simp: guard_manage_def early_return holds_conjunction_def)

lemma guard_dispatch_ok [early_return]:
  "guard_dispatch_configuration db key h = Inr u \<longleftrightarrow>
     ak_is_master key \<or> holds_conjunction db key (hk_id h)"
  by (auto simp: guard_dispatch_configuration_def early_return holds_conjunction_def)

lemma guard_visibility_ok [early_return]:
  "guard_visibility db key h = Inr u \<longleftrightarrow> ak_is_master key \<or> hk_owner_key_id h = Some (ak_id key)
     \<or> (\<exists>p. hook_permission db (ak_id key) (hk_id h) = Some p
            \<and> (pm_can_execute p \<or> pm_can_manage p \<or> pm_can_view_execution p))"
  by (auto simp: guard_visibility_def split: option.splits)

lemma guard_visibility_error: "guard_visibility db key h = Inl e \<Longrightarrow> e = NotFound"
  by (auto simp: guard_visibility_def split: option.splits if_splits)

lemma guard_scopes_ok [early_return]:
  "guard_master_to_grant_scopes key k h = Inr u \<longleftrightarrow>
     ak_is_master key \<or> (k \<noteq> Some True \<and> h \<noteq> Some True)"
  by (cases k; cases h) (auto simp: guard_master_to_grant_scopes_def)

lemma guard_canonical_ok [early_return]:
  "guard_canonical_v1_for_key_management b m t = Inr u \<longleftrightarrow>
     (b \<longrightarrow> m = HmacCanonicalV1 \<and> (t = None \<or> t = Some []))"
  by (cases t) (auto simp: guard_canonical_v1_for_key_management_def)

lemma guard_administer_ok [early_return]:
  "guard_master_to_administer key target a = Inr u \<longleftrightarrow> (ak_is_master target \<longrightarrow> ak_is_master key)"
  by (auto simp: guard_master_to_administer_def)

lemma refuse_lifecycle_ok [early_return]:
  "refuse_master_lifecycle_action target a = Inr u \<longleftrightarrow> \<not> ak_is_master target"
  by (auto simp: refuse_master_lifecycle_action_def)

lemma guard_self_edit_ok [early_return]:
  "guard_master_self_edit_is_bound_ips_only key target pl = Inr u \<longleftrightarrow>
     (ak_is_master target \<longrightarrow> ak_id key = ak_id target \<and> ukp_name pl = None
        \<and> ukp_max_concurrent_jobs pl = None \<and> ukp_can_manage_keys pl = None
        \<and> ukp_canonical_template pl = None \<and> ukp_can_manage_hooks pl = None)"
  by (simp add: guard_master_self_edit_is_bound_ips_only_def Let_def split: option.splits)

lemma guard_privileged_ok [early_return]:
  "guard_master_for_privileged_hook key h a = Inr u \<longleftrightarrow>
     ak_is_master key \<or> effective_run_as_user (hk_run_as_user h) = None"
  by (auto simp: guard_master_for_privileged_hook_def split: option.splits)

lemma guard_lifecycle_ok [early_return]:
  "guard_lifecycle_authority key h a = Inr u \<longleftrightarrow>
     ak_is_master key \<or> hk_owner_key_id h = Some (ak_id key)"
  by (auto simp: guard_lifecycle_authority_def)

lemma guard_deleted_view_ok [early_return]:
  "guard_master_for_deleted_view key b = Inr u \<longleftrightarrow> (b \<longrightarrow> ak_is_master key)"
  by (auto simp: guard_master_for_deleted_view_def)

lemma normalize_run_as_user_ok [early_return]:
  "normalize_run_as_user key r = Inr u \<longleftrightarrow>
     (effective_run_as_user r = None \<and> u = None)
     \<or> (\<exists>user. effective_run_as_user r = Some user \<and> u = Some user \<and> ak_is_master key
          \<and> validate_run_as_user user = Inr ())"
  by (auto simp: normalize_run_as_user_def early_return split: option.splits)

definition verbs_within :: "permission \<Rightarrow> bool \<Rightarrow> bool \<Rightarrow> bool \<Rightarrow> bool" where
  "verbs_within p x m v \<longleftrightarrow>
     (x \<longrightarrow> pm_can_execute p) \<and> (m \<longrightarrow> pm_can_manage p) \<and> (v \<longrightarrow> pm_can_view_execution p)"

lemma delegated_grant_ok [early_return]:
  "guard_delegated_hook_grant db key h x m v = Inr u \<longleftrightarrow>
     ak_is_master key \<or> (ak_can_manage_keys key
       \<and> (\<exists>p. hook_permission db (ak_id key) (hk_id h) = Some p \<and> pm_can_manage p
              \<and> verbs_within p x m v))"
  by (auto simp: guard_delegated_hook_grant_def early_return verbs_within_def split: if_splits)

lemma reduction_iff:
  "is_permission_reduction ex x m v \<longleftrightarrow>
     (case ex of None \<Rightarrow> \<not> x \<and> \<not> m \<and> \<not> v | Some p \<Rightarrow> verbs_within p x m v)"
  by (auto simp: is_permission_reduction_def verbs_within_def split: option.splits)

lemma manages_any_hook_iff:
  "manages_any_hook db i \<longleftrightarrow> (\<exists>p\<in>set (db_perms db). pm_api_key_id p = i \<and> pm_can_manage p)"
  by (auto simp: manages_any_hook_def find_None_iff)

lemma set_owned_hook_ids:
  "set (owned_hook_ids db i) = hk_id ` {h \<in> set (db_hooks db). hk_owner_key_id h = Some i}"
  by (simp add: owned_hook_ids_def)

lemma set_granted_hook_ids:
  "set (granted_hook_ids db i verb) =
     pm_hook_id ` {p \<in> set (db_perms db). pm_api_key_id p = i \<and> verb p}"
  by (simp add: granted_hook_ids_def)

end
