(* ===== verification/Client_Ip.thy ===== *)
theory Client_Ip
  imports Config Utf8 Demo_Externals
begin

text \<open>
  Which address a request is attributed to (\<open>src/config.rs\<close>: \<open>normalize_ip\<close>, \<open>is_trusted\<close>,
  \<open>resolve_client_ip\<close>), with the text of IP addresses as Rust's standard library reads it.  The header
  map is the list of the request's headers, names in lower case.
\<close>

section \<open>Headers\<close>

type_synonym headers = "(string \<times> bytes) list"

definition header_get :: "headers \<Rightarrow> string \<Rightarrow> bytes option" where
  "header_get hs name = map_of hs (map ascii_lower name)"

definition contains_key :: "headers \<Rightarrow> string \<Rightarrow> bool" where
  "contains_key hs name \<longleftrightarrow> header_get hs name \<noteq> None"

text \<open>\<open>HeaderValue::to\_str\<close>: visible ASCII, space and tab only.\<close>

definition header_text :: "bytes \<Rightarrow> bool" where
  "header_text v \<longleftrightarrow> list_all (\<lambda>c. 32 \<le> byte_code c \<and> byte_code c \<le> 126 \<or> byte_code c = 9) v"

definition header_str :: "headers \<Rightarrow> string \<Rightarrow> string option" where
  "header_str hs name = filter_opt header_text (header_get hs name)"

section \<open>Address text\<close>

text \<open>Rust's address parser: each reader returns what it read and the rest, or consumes nothing.\<close>

definition hex_value :: "char \<Rightarrow> nat option" where
  "hex_value c =
     (if is_ascii_digit c then Some (byte_code c - 48)
      else if 97 \<le> byte_code c \<and> byte_code c \<le> 102 then Some (byte_code c - 87)
      else if 65 \<le> byte_code c \<and> byte_code c \<le> 70 then Some (byte_code c - 55) else None)"

definition digit_value :: "nat \<Rightarrow> char \<Rightarrow> nat option" where
  "digit_value radix c = filter_opt (\<lambda>v. v < radix) (hex_value c)"

definition read_number :: "nat \<Rightarrow> nat \<Rightarrow> nat \<Rightarrow> bool \<Rightarrow> string \<Rightarrow> (nat \<times> string) option" where
  "read_number radix max_digits limit allow_zero_prefix s =
     (let digits = takeWhile (\<lambda>c. digit_value radix c \<noteq> None) s;
          v = foldl (\<lambda>acc c. acc * radix + the (digit_value radix c)) 0 digits
      in if digits = [] \<or> length digits > max_digits \<or> v > limit
            \<or> (\<not> allow_zero_prefix \<and> hd digits = CHR ''0'' \<and> length digits > 1)
         then None else Some (v, drop (length digits) s))"

fun read_char :: "char \<Rightarrow> string \<Rightarrow> string option" where
  "read_char c [] = None"
| "read_char c (x # r) = (if x = c then Some r else None)"

definition read_separated ::
  "char \<Rightarrow> nat \<Rightarrow> (string \<Rightarrow> ('a \<times> string) option) \<Rightarrow> string \<Rightarrow> ('a \<times> string) option" where
  "read_separated sep index reader s =
     (if index > 0 then Option.bind (read_char sep s) reader else reader s)"

definition read_octet :: "string \<Rightarrow> (nat \<times> string) option" where
  "read_octet s = read_number 10 3 255 False s"

definition read_ipv4 :: "string \<Rightarrow> (nat \<times> string) option" where
  "read_ipv4 s =
     Option.bind (read_separated (CHR ''.'') 0 read_octet s) (\<lambda>(a, s).
     Option.bind (read_separated (CHR ''.'') 1 read_octet s) (\<lambda>(b, s).
     Option.bind (read_separated (CHR ''.'') 2 read_octet s) (\<lambda>(c, s).
     Option.bind (read_separated (CHR ''.'') 3 read_octet s) (\<lambda>(d, s).
     Some (((a * 256 + b) * 256 + c) * 256 + d, s)))))"

text \<open>
  \<open>read\_groups\<close> with \<open>n\<close> groups left of those it may fill and \<open>i\<close> already filled; the flag says that
  the last two came from an embedded IPv4 address.
\<close>

fun read_groups :: "nat \<Rightarrow> nat \<Rightarrow> string \<Rightarrow> nat list \<times> bool \<times> string" where
  "read_groups 0 i s = ([], False, s)"
| "read_groups (Suc n) i s =
     (case (if n > 0 then read_separated (CHR '':'') i read_ipv4 s else None) of
        Some (v, s) \<Rightarrow> ([v div 65536, v mod 65536], True, s)
      | None \<Rightarrow>
          (case read_separated (CHR '':'') i (read_number 16 4 65535 True) s of
             Some (g, s) \<Rightarrow>
               (case read_groups n (Suc i) s of (gs, v4, s) \<Rightarrow> (g # gs, v4, s))
           | None \<Rightarrow> ([], False, s)))"

definition read_ipv6 :: "string \<Rightarrow> (nat list \<times> string) option" where
  "read_ipv6 s =
     (let (head, head_ipv4, s) = read_groups 8 0 s
      in if length head = 8 then Some (head, s)
         else if head_ipv4 then None
         else Option.bind (read_char (CHR '':'') s) (\<lambda>s.
              Option.bind (read_char (CHR '':'') s) (\<lambda>s.
              let (rest, _, s) = read_groups (8 - (length head + 1)) 0 s
              in Some (head @ replicate (8 - length head - length rest) 0 @ rest, s))))"

definition ipv6_of_groups :: "nat list \<Rightarrow> 128 word" where
  "ipv6_of_groups gs = of_nat (foldl (\<lambda>acc g. acc * 65536 + g) 0 gs)"

definition parse_ip :: "string \<Rightarrow> ip option" where
  "parse_ip s =
     (case read_ipv4 s of
        Some (v, r) \<Rightarrow> if r = [] then Some (V4 (of_nat v)) else None
      | None \<Rightarrow>
          (case read_ipv6 s of
             Some (gs, r) \<Rightarrow> if r = [] then Some (V6 (ipv6_of_groups gs)) else None
           | None \<Rightarrow> None))"

section \<open>The client's address\<close>

text \<open>\<open>Ipv6Addr::to\_ipv4\_mapped\<close>: the prefix \<open>::ffff:0:0/96\<close>.\<close>

definition to_ipv4_mapped :: "128 word \<Rightarrow> (32 word) option" where
  "to_ipv4_mapped w =
     (if unat w div 2 ^ 32 = 65535 then Some (of_nat (unat w mod 2 ^ 32)) else None)"

fun normalize_ip :: "ip \<Rightarrow> ip" where
  "normalize_ip (V6 w) = (case to_ipv4_mapped w of Some v \<Rightarrow> V4 v | None \<Rightarrow> V6 w)"
| "normalize_ip (V4 w) = V4 w"

definition is_trusted :: "externals \<Rightarrow> ip \<Rightarrow> network list \<Rightarrow> bool" where
  "is_trusted X a trusted \<longleftrightarrow> list_ex (\<lambda>net. x_network_contains X net a) trusted"

definition forwarded_chain :: "string \<Rightarrow> ip list" where
  "forwarded_chain forwarded =
     map normalize_ip (List.map_filter parse_ip
       (filter (\<lambda>s. s \<noteq> []) (map trim (split_on (CHR '','') forwarded))))"

definition resolve_client_ip :: "externals \<Rightarrow> ip \<Rightarrow> headers \<Rightarrow> network list \<Rightarrow> ip" where
  "resolve_client_ip X peer hs trusted =
     (let peer = normalize_ip peer
      in if \<not> is_trusted X peer trusted then peer
         else case Option.bind (header_str hs ''X-Forwarded-For'')
                (\<lambda>forwarded. List.find (\<lambda>a. \<not> is_trusted X a trusted) (rev (forwarded_chain forwarded))) of
           Some client \<Rightarrow> client
         | None \<Rightarrow>
             (case Option.bind (map_option trim (header_str hs ''X-Real-IP'')) parse_ip of
                Some real_ip \<Rightarrow> normalize_ip real_ip
              | None \<Rightarrow> peer))"

section \<open>Properties\<close>

text \<open>
  A request from a peer that is not a trusted proxy is attributed to that peer, whatever headers it
  sends.
\<close>

theorem untrusted_peer_is_the_client:
  assumes "\<not> is_trusted X (normalize_ip peer) trusted"
  shows "resolve_client_ip X peer hs trusted = normalize_ip peer"
  using assms by (simp add: resolve_client_ip_def)

theorem untrusted_peer_is_the_client_witness:
  "resolve_client_ip demo_externals (V4 7) [(''x-forwarded-for'', ''1.2.3.4'')] [] = V4 7"
proof -
  have "\<not> is_trusted demo_externals (normalize_ip (V4 7)) []" by (simp add: is_trusted_def)
  from untrusted_peer_is_the_client[OF this] show ?thesis by simp
qed

text \<open>
  C38. Behind a trusted proxy, the forwarding chain is read from the right: entries appended by trusted
  proxies are skipped and the first address that is not trusted is the client; anything the client wrote
  to the left of it has no effect.
\<close>

theorem rightmost_untrusted_is_the_client:
  assumes "is_trusted X (normalize_ip peer) trusted"
    and "header_str hs ''X-Forwarded-For'' = Some forwarded"
    and "forwarded_chain forwarded = spoofed @ client # hops"
    and "\<not> is_trusted X client trusted"
    and "\<forall>hop\<in>set hops. is_trusted X hop trusted"
  shows "resolve_client_ip X peer hs trusted = client"
proof -
  have "List.find (\<lambda>a. \<not> is_trusted X a trusted) (rev hops) = None"
    using assms(5) by (simp add: find_None_iff)
  then have "List.find (\<lambda>a. \<not> is_trusted X a trusted) (rev (forwarded_chain forwarded)) = Some client"
    using assms(4) by (simp add: assms(3) find_append)
  with assms(1,2) show ?thesis by (simp add: resolve_client_ip_def)
qed

lemma demo_addresses:
  "parse_ip ''9.9.9.9'' = Some (V4 0x09090909)" "parse_ip ''1.2.3.4'' = Some (V4 0x01020304)"
  by (simp_all add: parse_ip_def read_ipv4_def read_separated_def read_octet_def read_number_def
      digit_value_def hex_value_def is_ascii_digit_def Let_def)

theorem rightmost_untrusted_is_the_client_witness:
  "resolve_client_ip demo_externals (V6 5) [(''x-forwarded-for'', ''9.9.9.9,1.2.3.4'')]
     [Network (V6 5) 128] = V4 0x01020304"
proof -
  let ?hs = "[(''x-forwarded-for'', ''9.9.9.9,1.2.3.4'')]"
  have "normalize_ip (V6 5) = V6 5" by (simp add: to_ipv4_mapped_def)
  then have "is_trusted demo_externals (normalize_ip (V6 5)) [Network (V6 5) 128]"
    by (simp add: is_trusted_def demo_externals_def)
  moreover have "header_str ?hs ''X-Forwarded-For'' = Some ''9.9.9.9,1.2.3.4''" by code_simp
  moreover have "forwarded_chain ''9.9.9.9,1.2.3.4'' = [V4 0x09090909] @ V4 0x01020304 # []"
    by (simp add: forwarded_chain_def trim_visible graphic_def demo_addresses List.map_filter_def)
  moreover have "\<not> is_trusted demo_externals (V4 0x01020304) [Network (V6 5) 128]"
    by (simp add: is_trusted_def demo_externals_def)
  ultimately show ?thesis
    by (rule rightmost_untrusted_is_the_client[where spoofed = "[V4 0x09090909]" and hops = "[]"]) simp
qed

end
