(* ===== verification/Replay.thy ===== *)
theory Replay
  imports App_Error "HOL-Library.AList"
begin

text \<open>
  \<open>src/replay.rs\<close>: the guard that accepts each verified signature once.  Instants are nanoseconds of
  the monotonic clock, the hash map is an association list with distinct keys, and a poisoned mutex
  is a flag of the state.  The locale \<open>expiring_set\<close> is the guard's contract (membership that lapses
  with time); pruning is invisible through it.
\<close>

definition NANOS_PER_SEC :: nat where
  "NANOS_PER_SEC = 1000000000"

definition PRUNE_INTERVAL_DIVISOR :: nat where
  "PRUNE_INTERVAL_DIVISOR = 4"

definition CAPACITY_BACKOFF_DIVISOR :: nat where
  "CAPACITY_BACKOFF_DIVISOR = 16"

definition MAX_TRACKED_SIGNATURES :: nat where
  "MAX_TRACKED_SIGNATURES = 250000"

type_synonym instant = nat
type_synonym signature_id = "uuid \<times> bytes"

record prune_schedule =
  ps_next :: instant
  ps_next_capacity :: instant

record replay_guard =
  rg_seen :: "(signature_id \<times> instant) list"
  rg_schedule :: prune_schedule
  rg_window :: nat
  rg_prune_interval :: nat
  rg_capacity_backoff :: nat
  rg_seen_poisoned :: bool
  rg_schedule_poisoned :: bool

definition replay_guard_new :: "int \<Rightarrow> instant \<Rightarrow> replay_guard" where
  "replay_guard_new window_seconds now =
     (let window = nat (max 1 (min 3600 window_seconds)) * NANOS_PER_SEC;
          prune_interval = window div PRUNE_INTERVAL_DIVISOR;
          capacity_backoff = window div CAPACITY_BACKOFF_DIVISOR
      in \<lparr>rg_seen = [],
          rg_schedule = \<lparr>ps_next = now + prune_interval, ps_next_capacity = now\<rparr>,
          rg_window = window,
          rg_prune_interval = prune_interval,
          rg_capacity_backoff = capacity_backoff,
          rg_seen_poisoned = False,
          rg_schedule_poisoned = False\<rparr>)"

definition prune_if_due :: "instant \<Rightarrow> replay_guard \<Rightarrow> replay_guard" where
  "prune_if_due now g =
     (let over_capacity = \<not> rg_seen_poisoned g \<and> MAX_TRACKED_SIGNATURES \<le> length (rg_seen g);
          schedule = rg_schedule g;
          routine_due = ps_next schedule \<le> now;
          capacity_due = over_capacity \<and> ps_next_capacity schedule \<le> now
      in if rg_schedule_poisoned g then g
         else if \<not> routine_due \<and> \<not> capacity_due then g
         else
           let schedule' = schedule\<lparr>ps_next := now + rg_prune_interval g\<rparr>;
               schedule'' = (if capacity_due
                 then schedule'\<lparr>ps_next_capacity := now + rg_capacity_backoff g\<rparr> else schedule');
               g' = g\<lparr>rg_schedule := schedule''\<rparr>
           in if rg_seen_poisoned g' then g'
              else g'\<lparr>rg_seen := filter (\<lambda>(_, expires_at). now < expires_at) (rg_seen g')\<rparr>)"

definition check_and_record ::
  "instant \<Rightarrow> uuid \<Rightarrow> bytes \<Rightarrow> replay_guard \<Rightarrow> bool \<times> replay_guard" where
  "check_and_record now key_id digest g0 =
     (let g = prune_if_due now g0; i = (key_id, digest)
      in if rg_seen_poisoned g then (False, g)
         else case map_of (rg_seen g) i of
           Some expires_at \<Rightarrow>
             if now < expires_at then (False, g)
             else (True, g\<lparr>rg_seen := AList.update i (now + rg_window g) (rg_seen g)\<rparr>)
         | None \<Rightarrow> (True, g\<lparr>rg_seen := AList.update i (now + rg_window g) (rg_seen g)\<rparr>))"

section \<open>The contract\<close>

text \<open>Presenting identifiers at given instants and collecting the answers.\<close>

fun uses :: "(instant \<Rightarrow> 'i \<Rightarrow> 's \<Rightarrow> bool \<times> 's) \<Rightarrow> 's \<Rightarrow> (instant \<times> 'i) list \<Rightarrow> bool list" where
  "uses record_use s [] = []"
| "uses record_use s ((now, i) # r) =
     fst (record_use now i s) # uses record_use (snd (record_use now i s)) r"

fun monotone_from :: "instant \<Rightarrow> (instant \<times> 'i) list \<Rightarrow> bool" where
  "monotone_from now [] = True"
| "monotone_from now ((t, i) # r) = (now \<le> t \<and> monotone_from t r)"

lemma length_uses [simp]: "length (uses f s evs) = length evs"
  by (induction f s evs rule: uses.induct) auto

lemma monotone_from_le: "monotone_from t evs \<Longrightarrow> now \<le> t \<Longrightarrow> monotone_from now evs"
  by (cases evs) auto

locale expiring_set =
  fixes record_use :: "instant \<Rightarrow> 'i \<Rightarrow> 's \<Rightarrow> bool \<times> 's"
    and live :: "instant \<Rightarrow> 's \<Rightarrow> 'i set"
    and window :: "'s \<Rightarrow> nat"
    and healthy :: "'s \<Rightarrow> bool"
  assumes answer: "healthy s \<Longrightarrow> fst (record_use now i s) \<longleftrightarrow> i \<notin> live now s"
    and live_after: "healthy s \<Longrightarrow> now \<le> t \<Longrightarrow> live t (snd (record_use now i s)) =
      live t s \<union> (if i \<notin> live now s \<and> t < now + window s then {i} else {})"
    and window_kept: "window (snd (record_use now i s)) = window s"
    and healthy_kept: "healthy s \<Longrightarrow> healthy (snd (record_use now i s))"
begin

lemma remembered_refused:
  assumes "healthy s" and "monotone_from now evs"
    and "\<And>t. now \<le> t \<Longrightarrow> t < E \<Longrightarrow> i \<in> live t s"
    and "k < length evs" and "evs ! k = (tk, i)" and "uses record_use s evs ! k"
  shows "E \<le> tk"
  using assms
proof (induction evs arbitrary: s now k)
  case Nil
  then show ?case by simp
next
  case (Cons e evs)
  obtain t j where e: "e = (t, j)" by (cases e)
  show ?case
  proof (cases k)
    case 0
    with Cons.prems e have "i \<notin> live tk s" and "now \<le> tk"
      by (auto simp: answer)
    with Cons.prems(3) show ?thesis by (meson not_le)
  next
    case (Suc k')
    let ?s = "snd (record_use t j s)"
    show ?thesis
    proof (rule Cons.IH)
      show "healthy ?s" using Cons.prems(1) by (rule healthy_kept)
      show "monotone_from t evs" using Cons.prems(2) e by simp
      show "i \<in> live u ?s" if "t \<le> u" "u < E" for u
        using Cons.prems(1-3) e that by (auto simp: live_after)
    qed (use Cons.prems(4-6) e Suc in auto)
  qed
qed

text \<open>One identifier is accepted at most once per window.\<close>

lemma single_use:
  assumes "healthy s" and "monotone_from now evs" and "j < k" and "k < length evs"
    and "evs ! j = (tj, i)" and "evs ! k = (tk, i)"
    and "uses record_use s evs ! j" and "uses record_use s evs ! k"
  shows "tj + window s \<le> tk"
  using assms
proof (induction evs arbitrary: s now j k)
  case Nil
  then show ?case by simp
next
  case (Cons e evs)
  obtain t a where e: "e = (t, a)" by (cases e)
  let ?s = "snd (record_use t a s)"
  obtain k' where k: "k = Suc k'" using Cons.prems(3) by (cases k) auto
  show ?case
  proof (cases j)
    case 0
    with Cons.prems e have t: "t = tj" "a = i" and "i \<notin> live tj s" by (auto simp: answer)
    have "i \<in> live u ?s" if "tj \<le> u" "u < tj + window s" for u
      using Cons.prems(1) t \<open>i \<notin> live tj s\<close> that by (simp add: live_after)
    then show ?thesis
      using remembered_refused[of ?s tj evs "tj + window s" i k' tk] Cons.prems e k t
      by (auto simp: healthy_kept)
  next
    case (Suc j')
    then show ?thesis
      using Cons.IH[of ?s t j' k'] Cons.prems e k by (auto simp: healthy_kept window_kept)
  qed
qed

end

section \<open>The guard meets the contract\<close>

definition live_signatures :: "instant \<Rightarrow> replay_guard \<Rightarrow> signature_id set" where
  "live_signatures now g = {i. \<exists>e. map_of (rg_seen g) i = Some e \<and> now < e}"

definition guard_healthy :: "replay_guard \<Rightarrow> bool" where
  "guard_healthy g \<longleftrightarrow> \<not> rg_seen_poisoned g \<and> distinct (map fst (rg_seen g))"

definition guard_use :: "instant \<Rightarrow> signature_id \<Rightarrow> replay_guard \<Rightarrow> bool \<times> replay_guard" where
  "guard_use now i g = check_and_record now (fst i) (snd i) g"

lemma map_of_filter_live:
  "distinct (map fst xs) \<Longrightarrow>
   map_of (filter (\<lambda>(_, e). P e) xs) i = (case map_of xs i of Some e \<Rightarrow> if P e then Some e else None | None \<Rightarrow> None)"
proof (induction xs)
  case Nil
  then show ?case by simp
next
  case (Cons x xs)
  obtain a b where x: "x = (a, b)" by (cases x)
  show ?case
  proof (cases "i = a")
    case True
    with Cons.prems x have "map_of xs i = None" by (auto simp: map_of_eq_None_iff)
    with Cons x True show ?thesis by auto
  next
    case False
    with Cons x show ?thesis by auto
  qed
qed

lemma prune_frame [simp]:
  "rg_window (prune_if_due now g) = rg_window g"
  "rg_seen_poisoned (prune_if_due now g) = rg_seen_poisoned g"
  "rg_schedule_poisoned (prune_if_due now g) = rg_schedule_poisoned g"
  by (simp_all add: prune_if_due_def Let_def)

lemma prune_seen:
  "rg_seen (prune_if_due now g) = rg_seen g
   \<or> rg_seen (prune_if_due now g) = filter (\<lambda>(_, e). now < e) (rg_seen g)"
  by (simp add: prune_if_due_def Let_def)

lemma prune_healthy: "guard_healthy g \<Longrightarrow> guard_healthy (prune_if_due now g)"
  using prune_seen[of now g] by (auto simp: guard_healthy_def distinct_map_filter)

lemma prune_live:
  assumes "guard_healthy g" and "now \<le> t"
  shows "live_signatures t (prune_if_due now g) = live_signatures t g"
  using prune_seen[of now g] assms
  by (auto simp: live_signatures_def guard_healthy_def map_of_filter_live split: option.splits if_splits)

lemma check_and_record_answer:
  assumes "guard_healthy g"
  shows "fst (check_and_record now k d g) \<longleftrightarrow> (k, d) \<notin> live_signatures now g"
proof -
  have "\<not> rg_seen_poisoned g" using assms by (simp add: guard_healthy_def)
  then have "fst (check_and_record now k d g) \<longleftrightarrow> (k, d) \<notin> live_signatures now (prune_if_due now g)"
    by (auto simp: check_and_record_def Let_def live_signatures_def split: option.splits)
  then show ?thesis by (simp add: prune_live[OF assms])
qed

lemma check_and_record_state:
  assumes "guard_healthy g"
  shows "snd (check_and_record now k d g) =
    (if (k, d) \<in> live_signatures now g then prune_if_due now g
     else (prune_if_due now g)\<lparr>rg_seen :=
       AList.update (k, d) (now + rg_window g) (rg_seen (prune_if_due now g))\<rparr>)"
proof -
  have "\<not> rg_seen_poisoned g" using assms by (simp add: guard_healthy_def)
  moreover have "(k, d) \<in> live_signatures now g \<longleftrightarrow> (k, d) \<in> live_signatures now (prune_if_due now g)"
    by (simp add: prune_live[OF assms])
  ultimately show ?thesis
    by (auto simp: check_and_record_def Let_def live_signatures_def split: option.splits)
qed

lemma live_after_update:
  assumes "(k, d) \<notin> live_signatures now g" and "now \<le> t"
  shows "live_signatures t (g\<lparr>rg_seen := AList.update (k, d) e (rg_seen g)\<rparr>) =
    live_signatures t g \<union> (if t < e then {(k, d)} else {})"
proof -
  have "(k, d) \<notin> live_signatures t g"
    using assms by (auto simp: live_signatures_def)
  then show ?thesis
    by (auto simp: live_signatures_def update_conv' split: if_splits)
qed

interpretation replay: expiring_set guard_use live_signatures rg_window guard_healthy
proof unfold_locales
  fix s :: replay_guard and now t :: instant and i :: signature_id
  obtain k d where i: "i = (k, d)" by (cases i)
  assume h: "guard_healthy s"
  show "fst (guard_use now i s) \<longleftrightarrow> i \<notin> live_signatures now s"
    using check_and_record_answer[OF h] by (simp add: guard_use_def i)
  show "guard_healthy (snd (guard_use now i s))"
    using prune_healthy[OF h, of now]
    by (auto simp: guard_use_def i check_and_record_state[OF h] guard_healthy_def distinct_update)
  assume t: "now \<le> t"
  show "live_signatures t (snd (guard_use now i s)) = live_signatures t s
    \<union> (if i \<notin> live_signatures now s \<and> t < now + rg_window s then {i} else {})"
  proof (cases "i \<in> live_signatures now s")
    case True
    then show ?thesis using prune_live[OF h t]
      by (simp add: guard_use_def i check_and_record_state[OF h])
  next
    case False
    then have "(k, d) \<notin> live_signatures now (prune_if_due now s)"
      using prune_live[OF h, of now now] by (simp add: i)
    from live_after_update[OF this t, of "now + rg_window s"] False show ?thesis
      using prune_live[OF h t] by (simp add: guard_use_def i check_and_record_state[OF h])
  qed
next
  fix s :: replay_guard and now :: instant and i :: signature_id
  show "rg_window (snd (guard_use now i s)) = rg_window s"
    by (auto simp: guard_use_def check_and_record_def Let_def split: option.splits)
qed

lemma fresh_guard_healthy: "guard_healthy (replay_guard_new w now)"
  by (simp add: replay_guard_new_def guard_healthy_def Let_def)

section \<open>Properties\<close>

text \<open>
  C27. A signature is honoured once per window: over any sequence of uses at non-decreasing instants,
  two accepted uses of the same signature under the same key are at least one window apart, however
  the sweeps and the capacity ceiling interleave.
\<close>

theorem signature_single_use:
  assumes "monotone_from now evs" and "j < k" and "k < length evs"
    and "evs ! j = (tj, sig)" and "evs ! k = (tk, sig)"
    and "uses guard_use (replay_guard_new w t0) evs ! j"
    and "uses guard_use (replay_guard_new w t0) evs ! k"
  shows "tj + rg_window (replay_guard_new w t0) \<le> tk"
  using fresh_guard_healthy assms by (rule replay.single_use)

theorem signature_single_use_witness:
  "0 + rg_window (replay_guard_new 1 0) \<le> (1000000000 :: nat)"
proof -
  let ?evs = "[(0, (7, ''d'')), (1000000000, (7, ''d''))] :: (instant \<times> signature_id) list"
  have "uses guard_use (replay_guard_new 1 0) ?evs = [True, True]"
    by (simp add: guard_use_def check_and_record_def prune_if_due_def replay_guard_new_def Let_def
        NANOS_PER_SEC_def PRUNE_INTERVAL_DIVISOR_def CAPACITY_BACKOFF_DIVISOR_def
        MAX_TRACKED_SIGNATURES_def)
  then show ?thesis
    by (intro signature_single_use[of 0 ?evs 0 1 0 "(7, ''d'')" 1000000000 1 0]) simp_all
qed

text \<open>
  C35. Pruning is invisible and answers are exact: on a guard whose lock is not poisoned, a signature is
  accepted exactly when it is not remembered at that instant, the signatures remembered afterwards are
  those remembered before together with the accepted one until its window ends, and a poisoned lock
  accepts nothing.
\<close>

theorem check_and_record_spec:
  "(guard_healthy g \<longrightarrow>
      (fst (check_and_record now key_id digest g) \<longleftrightarrow> (key_id, digest) \<notin> live_signatures now g)
    \<and> (\<forall>t\<ge>now. live_signatures t (snd (check_and_record now key_id digest g)) =
         live_signatures t g \<union>
         (if (key_id, digest) \<notin> live_signatures now g \<and> t < now + rg_window g
          then {(key_id, digest)} else {})))
   \<and> (rg_seen_poisoned g \<longrightarrow> \<not> fst (check_and_record now key_id digest g))"
  using replay.answer[of g now "(key_id, digest)"] replay.live_after[of g now _ "(key_id, digest)"]
  by (auto simp: guard_use_def check_and_record_def[of now key_id digest g] Let_def)

theorem check_and_record_spec_witness:
  "fst (check_and_record 5 7 ''d'' (replay_guard_new 300 0))
   \<and> (7, ''d'') \<in> live_signatures 6 (snd (check_and_record 5 7 ''d'' (replay_guard_new 300 0)))"
proof -
  let ?g = "replay_guard_new 300 0"
  have empty: "live_signatures t ?g = {}" for t
    by (simp add: live_signatures_def replay_guard_new_def Let_def)
  have "rg_window ?g = 300 * NANOS_PER_SEC" by (simp add: replay_guard_new_def Let_def)
  then show ?thesis
    using check_and_record_spec[of ?g 5 7 "''d''"] fresh_guard_healthy[of 300 0] empty
    by (simp add: NANOS_PER_SEC_def)
qed

text \<open>
  The window is clamped into one second to one hour whatever \<open>SIGNATURE\_MAX\_AGE\_SECONDS\<close> says, so
  no setting switches the guard off; the map never loses an entry that is still in force, even at the
  capacity ceiling.
\<close>

theorem window_clamped_and_never_flushed:
  "NANOS_PER_SEC \<le> rg_window (replay_guard_new w t0)
   \<and> rg_window (replay_guard_new w t0) \<le> 3600 * NANOS_PER_SEC
   \<and> (i, e) \<in> set (rg_seen (prune_if_due now g)) = ((i, e) \<in> set (rg_seen g)
        \<and> (now < e \<or> rg_seen (prune_if_due now g) = rg_seen g))"
proof -
  have "1 \<le> nat (max 1 (min 3600 w))" by (auto simp: max_def min_def)
  then have "NANOS_PER_SEC \<le> rg_window (replay_guard_new w t0)"
    by (simp add: replay_guard_new_def Let_def)
  moreover have "rg_window (replay_guard_new w t0) \<le> 3600 * NANOS_PER_SEC"
    by (simp add: replay_guard_new_def Let_def nat_le_iff)
  moreover have "(i, e) \<in> set (rg_seen (prune_if_due now g)) = ((i, e) \<in> set (rg_seen g)
        \<and> (now < e \<or> rg_seen (prune_if_due now g) = rg_seen g))"
    using prune_seen[of now g] by auto
  ultimately show ?thesis by simp
qed

end
