(* ===== verification/Demo_Data.thy ===== *)
theory Demo_Data
  imports Support
begin

text \<open>
  A small populated database and an environment, used by the witnesses only: the master key \<open>root_key\<close>
  (id 1), \<open>admin_key\<close> (id 2, manages keys and hooks, child of the master), \<open>ci_key\<close> (id 3, child of
  \<open>admin_key\<close>), and the hook \<open>deploy_hook\<close> (id 10) that \<open>admin_key\<close> owns and manages and \<open>ci_key\<close> may
  execute.
\<close>

definition plain_key :: "uuid \<Rightarrow> string \<Rightarrow> uuid option \<Rightarrow> api_key" where
  "plain_key i name parent =
     \<lparr>ak_id = i, ak_name = name, ak_key_hash = name, ak_prefix = name, ak_key_id = None,
      ak_signing_secret = None, ak_hmac_mode = HmacCanonicalV1, ak_bound_ips = None,
      ak_max_concurrent_jobs = 2, ak_is_master = False, ak_can_manage_keys = False,
      ak_can_manage_hooks = False, ak_parent_key_id = parent, ak_created_at = 0, ak_updated_at = 0,
      ak_canonical_template = None\<rparr>"

definition root_key :: api_key where
  "root_key = (plain_key 1 ''root'' None)\<lparr>ak_is_master := True, ak_can_manage_keys := True,
     ak_can_manage_hooks := True\<rparr>"

definition admin_key :: api_key where
  "admin_key = (plain_key 2 ''admin'' (Some 1))\<lparr>ak_can_manage_keys := True, ak_can_manage_hooks := True\<rparr>"

definition ci_key :: api_key where
  "ci_key = plain_key 3 ''ci'' (Some 2)"

definition deploy_hook :: hook where
  "deploy_hook = ban_hook\<lparr>hk_id := 10, hk_name := ''deploy'', hk_run_as_user := None,
     hk_owner_key_id := Some 2\<rparr>"

definition demo_db :: database where
  "demo_db =
     \<lparr>db_keys = [root_key, admin_key, ci_key],
      db_hooks = [deploy_hook],
      db_params = [],
      db_perms =
        [\<lparr>pm_id = 20, pm_api_key_id = 2, pm_hook_id = 10, pm_can_execute = True, pm_can_manage = True,
          pm_can_view_execution = False, pm_created_at = 0\<rparr>,
         \<lparr>pm_id = 21, pm_api_key_id = 3, pm_hook_id = 10, pm_can_execute = True, pm_can_manage = False,
          pm_can_view_execution = False, pm_created_at = 0\<rparr>],
      db_execs = [],
      db_audit = []\<rparr>"

definition demo_env :: env where
  "demo_env =
     \<lparr>ev_ext = demo_externals, ev_config = default_config, ev_cipher = Plaintext,
      ev_uuid = (\<lambda>n. of_nat (100 + n)), ev_now = (\<lambda>n. int n), ev_rand = (\<lambda>n. ''r'' @ nat_text n)\<rparr>"

lemma demo_env_simps [simp]:
  "ev_ext demo_env = demo_externals" "ev_config demo_env = default_config"
  "ev_cipher demo_env = Plaintext"
  by (simp_all add: demo_env_def)

lemmas demo_keys_def = root_key_def admin_key_def ci_key_def plain_key_def

lemma demo_ids [simp]:
  "ak_id root_key = 1" "ak_id admin_key = 2" "ak_id ci_key = 3" "hk_id deploy_hook = 10"
  "ak_is_master root_key" "\<not> ak_is_master admin_key" "\<not> ak_is_master ci_key"
  "ak_can_manage_keys root_key" "ak_can_manage_keys admin_key" "\<not> ak_can_manage_keys ci_key"
  "ak_can_manage_hooks root_key" "ak_can_manage_hooks admin_key" "\<not> ak_can_manage_hooks ci_key"
  "ak_max_concurrent_jobs ci_key = 2"
  by (simp_all add: demo_keys_def deploy_hook_def)

lemma demo_db_wf: "wf_db demo_db"
  by (simp add: wf_db_def wf_tables_def demo_db_def key_exists_def hook_exists_def key_clash_def
      nullable_clash_def master_marker_def demo_keys_def deploy_hook_def)

end
