(* ===== verification/Authentication.thy ===== *)
theory Authentication
  imports Guards Client_Ip Replay Demo_Data
begin

text \<open>
  Who a request comes from (\<open>src/middleware.rs\<close>, \<open>src/master.rs\<close>): the pinned identity of the master
  key, the timestamp window on 64-bit integers, bearer authentication with its optional signature, and
  the two middlewares.  A middleware returns what it hands to the handler (the client's address and the
  key) or the error; its state is the master pin and the replay guard.
\<close>

section \<open>The master pin\<close>

datatype master_pin_error = NoMaster | Duplicates "uuid list" | MissingConstraint

type_synonym master_pin = "uuid option" \<comment> \<open>the \<open>OnceCell\<close>\<close>

definition resolve_inner :: "database \<Rightarrow> master_pin_error + uuid" where
  "resolve_inner db =
     (case filter ak_is_master (db_keys db) of
        [] \<Rightarrow> Inl NoMaster
      | [m] \<Rightarrow> Inr (ak_id m)
      | ms \<Rightarrow> Inl (Duplicates (map ak_id ms)))"

text \<open>\<open>cell.set\<close> keeps a value that is already there.\<close>

definition cell_set :: "uuid \<Rightarrow> master_pin \<Rightarrow> master_pin" where
  "cell_set i pin = (case pin of Some p \<Rightarrow> Some p | None \<Rightarrow> Some i)"

definition pin_at_boot ::
  "bool \<Rightarrow> database \<Rightarrow> master_pin \<Rightarrow> (master_pin_error + uuid) \<times> master_pin" where
  "pin_at_boot has_index db pin =
     (if \<not> has_index then (Inl MissingConstraint, pin)
      else attempt (resolve_inner db) pin (\<lambda>i.
        let pin = cell_set i pin in (Inr (unwrap_or pin i), pin)))"

definition pin_resolve :: "database \<Rightarrow> master_pin \<Rightarrow> uuid option \<times> master_pin" where
  "pin_resolve db pin =
     (case pin of
        Some i \<Rightarrow> (Some i, pin)
      | None \<Rightarrow>
          (case resolve_inner db of
             Inr i \<Rightarrow> let pin = cell_set i pin in (pin, pin)
           | Inl _ \<Rightarrow> (None, pin)))"

definition pin_authenticate :: "database \<Rightarrow> api_key \<Rightarrow> master_pin \<Rightarrow> api_key \<times> master_pin" where
  "pin_authenticate db key pin =
     (if \<not> ak_is_master key then (key, pin)
      else case pin_resolve db pin of
        (Some pinned, pin) \<Rightarrow>
          if pinned = ak_id key then (key, pin) else (key\<lparr>ak_is_master := False\<rparr>, pin)
      | (None, pin) \<Rightarrow> (key\<lparr>ak_is_master := False\<rparr>, pin))"

section \<open>The timestamp\<close>

definition TIMESTAMP_HEADER :: string where
  "TIMESTAMP_HEADER = ''X-Timestamp''"

definition SIGNATURE_HEADER :: string where
  "SIGNATURE_HEADER = ''X-Signature-256''"

definition API_KEY_HEADER :: string where
  "API_KEY_HEADER = ''X-API-Key''"

definition HMAC_ONLY_DEFAULT_HEADER :: string where
  "HMAC_ONLY_DEFAULT_HEADER = ''X-Signature-256''"

definition MAX_SIGNED_BODY_BYTES :: nat where
  "MAX_SIGNED_BODY_BYTES = 3 * 1024 * 1024"

text \<open>\<open>str::parse::<i64>\<close>: an optional sign and at least one digit, within 64 bits.\<close>

fun decimal_value :: "nat \<Rightarrow> string \<Rightarrow> nat option" where
  "decimal_value acc [] = Some acc"
| "decimal_value acc (c # r) =
     (if is_ascii_digit c then decimal_value (10 * acc + (byte_code c - 48)) r else None)"

definition parse_i64 :: "string \<Rightarrow> (64 word) option" where
  "parse_i64 s =
     (let digits = (if s \<noteq> [] \<and> (hd s = CHR ''-'' \<or> hd s = CHR ''+'') then tl s else s)
      in if digits = [] then None
         else Option.bind (decimal_value 0 digits) (\<lambda>n.
           let v = (if hd s = CHR ''-'' then - int n else int n)
           in if - (2 ^ 63) \<le> v \<and> v < 2 ^ 63 then Some (word_of_int v) else None))"

text \<open>\<open>i64::abs\<close> as a release build computes it: the least value is its own absolute value.\<close>

definition abs64 :: "64 word \<Rightarrow> 64 word" where
  "abs64 w = (if sint w < 0 then - w else w)"

definition validate_timestamp :: "64 word \<Rightarrow> string \<Rightarrow> 64 word \<Rightarrow> unit result" where
  "validate_timestamp now raw max_age_seconds =
     check (ok_or (parse_i64 (trim raw))
       (Unauthorized (TIMESTAMP_HEADER @ '' must be a Unix timestamp in seconds''))) (\<lambda>presented.
     let skew = abs64 (now - presented)
     in if sint skew > sint max_age_seconds
        then Inl (Unauthorized (''Request timestamp is outside the permitted ''
          @ int_text (sint max_age_seconds) @ ''s window (off by '' @ int_text (sint skew)
          @ ''s); check the client'' @ [CHR 0x27] @ ''s clock, or re-sign the request''))
        else Inr ())"

definition now_seconds :: "env \<Rightarrow> nat \<Rightarrow> 64 word" where
  "now_seconds E n = word_of_int (ev_now E n div 1000000000)"

definition prevalidate_timestamp_header ::
  "64 word \<Rightarrow> headers \<Rightarrow> 64 word \<Rightarrow> (string option) result" where
  "prevalidate_timestamp_header now hs max_age_seconds =
     (case header_str hs TIMESTAMP_HEADER of
        None \<Rightarrow> Inr None
      | Some raw \<Rightarrow>
          check (if contains_key hs SIGNATURE_HEADER
                 then validate_timestamp now raw max_age_seconds else Inr ()) (\<lambda>_. Inr (Some raw)))"

section \<open>Secrets and rejections\<close>

fun reject_signature :: "signature_rejection \<Rightarrow> app_error" where
  "reject_signature MissingPrefix = Unauthorized ''Signature must be formatted as sha256=<hex>''"
| "reject_signature MalformedHex = Unauthorized ''Signature is not valid hexadecimal''"
| "reject_signature Mismatch = Unauthorized ''Invalid request signature''"
| "reject_signature KeyUnusable = Internal"

definition map_err :: "('e \<Rightarrow> 'f) \<Rightarrow> 'e + 'a \<Rightarrow> 'f + 'a" where
  "map_err f r = (case r of Inl e \<Rightarrow> Inl (f e) | Inr x \<Rightarrow> Inr x)"

definition recover_signing_secret :: "env \<Rightarrow> api_key \<Rightarrow> string result" where
  "recover_signing_secret E key_record =
     check (ok_or (ak_signing_secret key_record)
       (Unauthorized ''This API key has no signing secret; rotate it to obtain one'')) (\<lambda>stored.
     map_err (\<lambda>_. Internal) (open_secret (ev_ext E) (ev_cipher E) stored))"

definition recover_hook_secret :: "env \<Rightarrow> hook \<Rightarrow> string result" where
  "recover_hook_secret E target =
     check (ok_or (hk_hmac_secret target) Internal) (\<lambda>stored.
     map_err (\<lambda>_. Internal) (open_secret (ev_ext E) (ev_cipher E) stored))"

section \<open>The request\<close>

text \<open>
  \<open>rq_path\<close> is the path as the nested router sees it, percent-encoded as it came; \<open>rq_path_and_query\<close> is
  the original one.
\<close>

record request =
  rq_method :: string
  rq_path :: string
  rq_path_and_query :: string
  rq_headers :: headers
  rq_body :: bytes
  rq_peer :: ip

definition read_body :: "request \<Rightarrow> bytes result" where
  "read_body rq =
     (if length (rq_body rq) > MAX_SIGNED_BODY_BYTES
      then Inl (InvalidInput ''Request body too large to verify'') else Inr (rq_body rq))"

definition hook_identifier_from_path :: "string \<Rightarrow> string option" where
  "hook_identifier_from_path path =
     (case split_on (CHR ''/'') (dropWhile (\<lambda>c. c = CHR ''/'') path) of
        [identifier] \<Rightarrow> if identifier \<noteq> [] then Some identifier else None
      | [a, identifier, b] \<Rightarrow>
          if a = ''hooks'' \<and> (b = ''execute'' \<or> b = ''test'') then Some identifier else None
      | _ \<Rightarrow> None)"

definition invocation_unauthorized :: app_error where
  "invocation_unauthorized = Unauthorized ''Unauthorized''"

fun uniformize_keyed_auth_failure :: "app_error \<Rightarrow> app_error" where
  "uniformize_keyed_auth_failure (Unauthorized _) = invocation_unauthorized"
| "uniformize_keyed_auth_failure other = other"

definition signature_material_present :: "headers \<Rightarrow> hook \<Rightarrow> bool" where
  "signature_material_present hs target \<longleftrightarrow> contains_key hs SIGNATURE_HEADER
     \<or> (case hk_signature_header target of Some h \<Rightarrow> contains_key hs h | None \<Rightarrow> False)"

section \<open>Bearer authentication\<close>

record auth_state =
  au_pin :: master_pin
  au_replay :: replay_guard

fun parse_networks :: "externals \<Rightarrow> string list \<Rightarrow> network list result" where
  "parse_networks X [] = Inr []"
| "parse_networks X (s # r) =
     check (ok_or (x_network_parse X s) Internal) (\<lambda>n.
     check (parse_networks X r) (\<lambda>ns. Inr (n # ns)))"

definition bound_networks :: "externals \<Rightarrow> api_key \<Rightarrow> network list result" where
  "bound_networks X key_record =
     parse_networks X (filter (\<lambda>s. s \<noteq> []) (map trim (split_on (CHR '','')
       (unwrap_or (ak_bound_ips key_record) []))))"

definition signing_template :: "hook option \<Rightarrow> api_key \<Rightarrow> string option" where
  "signing_template invocation_hook key_record =
     (case (case invocation_hook of
              Some h \<Rightarrow> if hk_auth_mode h = CanonicalV1 then hk_canonical_template h else None
            | None \<Rightarrow> None) of
        Some template \<Rightarrow> Some template
      | None \<Rightarrow> ak_canonical_template key_record)"

definition signed_base :: "string option \<Rightarrow> request \<Rightarrow> string \<Rightarrow> bytes \<Rightarrow> bytes" where
  "signed_base template rq timestamp body =
     (case template of
        Some template \<Rightarrow>
          render_canonical_template template (rq_method rq) (rq_path_and_query rq) timestamp body
      | None \<Rightarrow> canonical_v1_payload (rq_method rq) (rq_path_and_query rq) timestamp body)"

text \<open>The check of a presented signature: the digest it verifies to.\<close>

definition check_request_signature ::
  "env \<Rightarrow> request \<Rightarrow> hook option \<Rightarrow> api_key \<Rightarrow> string option \<Rightarrow> string \<Rightarrow> bytes result" where
  "check_request_signature E rq invocation_hook key_record presented_timestamp signature =
     check (ok_or presented_timestamp
       (Unauthorized (''A signed request must include an '' @ TIMESTAMP_HEADER @ '' header''))) (\<lambda>timestamp.
     check (validate_timestamp (now_seconds E 1) timestamp
       (cf_signature_max_age_seconds (ev_config E))) (\<lambda>_.
     check (recover_signing_secret E key_record) (\<lambda>secret.
     check (read_body rq) (\<lambda>body.
     map_err reject_signature
       (verify_signature (ev_ext E) secret
         (signed_base (signing_template invocation_hook key_record) rq timestamp body) signature)))))"

definition signature_required :: "env \<Rightarrow> api_key \<Rightarrow> bool" where
  "signature_required E key_record \<longleftrightarrow> cf_require_signed_requests (ev_config E)
     \<or> (ak_can_manage_keys key_record \<and> \<not> ak_is_master key_record)"

text \<open>\<open>match signature\<close>; \<open>t\<close> is the monotonic clock when the signature is recorded.\<close>

definition signature_step ::
  "env \<Rightarrow> instant \<Rightarrow> request \<Rightarrow> hook option \<Rightarrow> api_key \<Rightarrow> string option \<Rightarrow> auth_state \<Rightarrow>
     unit result \<times> auth_state" where
  "signature_step E t rq invocation_hook key_record presented_timestamp au =
     (case header_str (rq_headers rq) SIGNATURE_HEADER of
        Some signature \<Rightarrow>
          attempt (check_request_signature E rq invocation_hook key_record presented_timestamp signature)
            au (\<lambda>digest.
          let (fresh, guard) = check_and_record t (ak_id key_record) digest (au_replay au);
              au = au\<lparr>au_replay := guard\<rparr>
          in attempt (require fresh
               (Unauthorized ''This signature has already been used; sign a fresh request'')) au (\<lambda>_.
             (Inr (), au)))
      | None \<Rightarrow>
          attempt (require (\<not> signature_required E key_record)
            (Unauthorized (''This request must be signed: send '' @ SIGNATURE_HEADER @ '' and ''
               @ TIMESTAMP_HEADER))) au (\<lambda>_. (Inr (), au)))"

definition authenticate_bearer_key ::
  "env \<Rightarrow> instant \<Rightarrow> request \<Rightarrow> hook option \<Rightarrow> string \<Rightarrow> ip \<Rightarrow> database \<Rightarrow> auth_state \<Rightarrow>
     api_key result \<times> auth_state" where
  "authenticate_bearer_key E t rq invocation_hook presented_key client_ip db au =
     attempt (prevalidate_timestamp_header (now_seconds E 0) (rq_headers rq)
       (cf_signature_max_age_seconds (ev_config E))) au (\<lambda>presented_timestamp.
     attempt (ok_or (find_key_by_hash db (x_hex_encode (ev_ext E) (x_sha256 (ev_ext E) presented_key)))
       (Unauthorized ''Invalid API Key'')) au (\<lambda>found.
     let (key_record, pin) = pin_authenticate db found (au_pin au);
         au = au\<lparr>au_pin := pin\<rparr> in
     and_then (signature_step E t rq invocation_hook key_record presented_timestamp au) (\<lambda>_ au.
     attempt (bound_networks (ev_ext E) key_record) au (\<lambda>networks.
     attempt (require (networks = [] \<or> list_ex (\<lambda>net. x_network_contains (ev_ext E) net client_ip) networks)
       (Forbidden ''Client IP not allowed'')) au (\<lambda>_.
     (Inr key_record, au))))))"

section \<open>The middlewares\<close>

definition auth_middleware ::
  "env \<Rightarrow> instant \<Rightarrow> network list \<Rightarrow> request \<Rightarrow> database \<Rightarrow> auth_state \<Rightarrow>
     (ip \<times> api_key) result \<times> auth_state" where
  "auth_middleware E t trusted_proxies rq db au =
     (let client_ip = resolve_client_ip (ev_ext E) (rq_peer rq) (rq_headers rq) trusted_proxies in
      attempt (ok_or (header_str (rq_headers rq) API_KEY_HEADER)
        (Unauthorized (''Missing credentials: provide an '' @ API_KEY_HEADER @ '' header''))) au
        (\<lambda>presented_key.
      and_then (authenticate_bearer_key E t rq None presented_key client_ip db au) (\<lambda>key_record au.
      (Inr (client_ip, key_record), au))))"

definition invocation_target :: "env \<Rightarrow> database \<Rightarrow> request \<Rightarrow> hook option" where
  "invocation_target E db rq =
     Option.bind (hook_identifier_from_path (rq_path rq)) (\<lambda>identifier.
       case resolve_hook (ev_ext E) db identifier of Inr h \<Rightarrow> Some h | Inl _ \<Rightarrow> None)"

text \<open>A request without a key: the target hook's mode decides.\<close>

definition authenticate_keyless :: "env \<Rightarrow> request \<Rightarrow> hook \<Rightarrow> unit result" where
  "authenticate_keyless E rq target =
     (if (hk_auth_mode target = ApiKeyOnly \<or> hk_auth_mode target = NoAuth)
         \<and> signature_material_present (rq_headers rq) target
      then Inl invocation_unauthorized
      else case hk_auth_mode target of
        CanonicalV1 \<Rightarrow> Inl invocation_unauthorized
      | ApiKeyOnly \<Rightarrow> Inl invocation_unauthorized
      | NoAuth \<Rightarrow>
          if cf_require_signed_requests (ev_config E) then Inl invocation_unauthorized else Inr ()
      | HmacOnly \<Rightarrow>
          check (ok_or (header_str (rq_headers rq)
            (unwrap_or (hk_signature_header target) HMAC_ONLY_DEFAULT_HEADER))
            invocation_unauthorized) (\<lambda>provided.
          check (recover_hook_secret E target) (\<lambda>secret.
          check (read_body rq) (\<lambda>body.
          check (map_err reject_signature
            (verify_signature_with_prefix (ev_ext E) secret body provided
               (unwrap_or (hk_signature_prefix target) SIGNATURE_PREFIX))) (\<lambda>_.
          Inr ())))))"

definition invocation_auth_middleware ::
  "env \<Rightarrow> instant \<Rightarrow> network list \<Rightarrow> request \<Rightarrow> database \<Rightarrow> auth_state \<Rightarrow>
     (ip \<times> api_key option) result \<times> auth_state" where
  "invocation_auth_middleware E t trusted_proxies rq db au =
     (let client_ip = resolve_client_ip (ev_ext E) (rq_peer rq) (rq_headers rq) trusted_proxies in
      case header_str (rq_headers rq) API_KEY_HEADER of
        Some presented_key \<Rightarrow>
          (case authenticate_bearer_key E t rq (invocation_target E db rq) presented_key client_ip db au of
             (r, au) \<Rightarrow> attempt (map_err uniformize_keyed_auth_failure r) au (\<lambda>key_record.
               (Inr (client_ip, Some key_record), au)))
      | None \<Rightarrow>
          attempt (ok_or (hook_identifier_from_path (rq_path rq)) invocation_unauthorized) au (\<lambda>identifier.
          attempt (map_err (\<lambda>_. invocation_unauthorized) (resolve_hook (ev_ext E) db identifier)) au
            (\<lambda>target.
          attempt (authenticate_keyless E rq target) au (\<lambda>_.
          (Inr (client_ip, None), au)))))"

section \<open>The pin\<close>

lemma map_err_ok [early_return]: "map_err f r = Inr x \<longleftrightarrow> r = Inr x"
  by (auto simp: map_err_def split: sum.splits)

lemma pin_authenticate_key: "fst (pin_authenticate db key pin) = key\<lparr>ak_is_master := ak_is_master (fst (pin_authenticate db key pin))\<rparr>"
  by (auto simp: pin_authenticate_def split: prod.splits option.splits)

lemma pin_authenticate_master:
  "ak_is_master (fst (pin_authenticate db key pin)) \<Longrightarrow>
     ak_is_master key \<and> snd (pin_authenticate db key pin) = Some (ak_id key)"
  by (auto simp: pin_authenticate_def pin_resolve_def cell_set_def Let_def
      split: prod.splits option.splits sum.splits if_splits)

lemma pin_authenticate_sticky: "pin = Some p \<Longrightarrow> snd (pin_authenticate db key pin) = Some p"
  by (auto simp: pin_authenticate_def pin_resolve_def)

lemma pin_authenticate_id [simp]: "ak_id (fst (pin_authenticate db key pin)) = ak_id key"
  by (subst pin_authenticate_key) simp

section \<open>The window on 64 bits\<close>

lemma sint_bounds64: "- (2 ^ 63) \<le> sint (w :: 64 word)" "sint (w :: 64 word) < 2 ^ 63"
  using sint_ge[of w] sint_lt[of w] by simp_all

lemma sint_sub64:
  fixes a b :: "64 word"
  shows "sint (a - b) = sint a - sint b \<or> sint (a - b) = sint a - sint b - 2 ^ 64
     \<or> sint (a - b) = sint a - sint b + 2 ^ 64"
proof -
  have e: "sint (a - b) = signed_take_bit 63 (sint a - sint b)"
    by (simp add: sint_word_ariths)
  obtain k where k: "signed_take_bit 63 (sint a - sint b) = sint a - sint b + k * 2 ^ 64"
  proof -
    have "take_bit 64 (signed_take_bit 63 (sint a - sint b)) = take_bit 64 (sint a - sint b)"
      by (simp add: take_bit_signed_take_bit)
    then have "(signed_take_bit 63 (sint a - sint b)) mod 2 ^ 64 = (sint a - sint b) mod 2 ^ 64"
      unfolding take_bit_eq_mod .
    then have "2 ^ 64 dvd signed_take_bit 63 (sint a - sint b) - (sint a - sint b)"
      by (simp add: mod_eq_dvd_iff)
    then show ?thesis using that by (metis add.commute diff_add_cancel dvdE mult.commute)
  qed
  have "- (2 ^ 63) \<le> sint (a - b)" "sint (a - b) < 2 ^ 63" by (rule sint_bounds64)+
  with e k sint_bounds64[of a] sint_bounds64[of b] have "k = 0 \<or> k = 1 \<or> k = - 1" by auto
  with e k show ?thesis by auto
qed

lemma sint_abs64: "sint (abs64 w) = (if sint w = - (2 ^ 63) then - (2 ^ 63) else \<bar>sint w\<bar>)"
proof -
  define x y where "x = sint w" and "y = sint (- w)"
  have "sint (- w) = sint (0 - w)" by simp
  then have "y = - x \<or> y = - x - 2 ^ 64 \<or> y = - x + 2 ^ 64"
    using sint_sub64[of 0 w] by (simp add: x_def y_def)
  moreover have "- (2 ^ 63) \<le> x" "x < 2 ^ 63" "- (2 ^ 63) \<le> y" "y < 2 ^ 63"
    unfolding x_def y_def by (rule sint_bounds64)+
  moreover have "sint (abs64 w) = (if x < 0 then y else x)" by (simp add: abs64_def x_def y_def)
  ultimately show ?thesis unfolding x_def[symmetric] by auto
qed

lemma validate_timestamp_ok:
  "validate_timestamp now raw max_age = Inr u \<longleftrightarrow>
     (\<exists>p. parse_i64 (trim raw) = Some p \<and> sint (abs64 (now - p)) \<le> sint max_age)"
  by (cases "parse_i64 (trim raw)") (auto simp: validate_timestamp_def Let_def)

section \<open>What authentication establishes\<close>

definition key_hash_of :: "env \<Rightarrow> string \<Rightarrow> string" where
  "key_hash_of E presented_key = x_hex_encode (ev_ext E) (x_sha256 (ev_ext E) presented_key)"

definition address_allowed :: "externals \<Rightarrow> api_key \<Rightarrow> ip \<Rightarrow> bool" where
  "address_allowed X key client_ip \<longleftrightarrow> (\<exists>networks. bound_networks X key = Inr networks
     \<and> (networks = [] \<or> (\<exists>net\<in>set networks. x_network_contains X net client_ip)))"

lemma prevalidate_ok [early_return]:
  "prevalidate_timestamp_header now hs m = Inr ts \<longleftrightarrow> ts = header_str hs TIMESTAMP_HEADER
     \<and> (\<forall>raw. ts = Some raw \<and> contains_key hs SIGNATURE_HEADER \<longrightarrow> validate_timestamp now raw m = Inr ())"
  by (auto simp: prevalidate_timestamp_header_def early_return split: option.splits)

lemma request_signature_ok:
  "check_request_signature E rq h key ts signature = Inr digest \<longleftrightarrow>
     (\<exists>timestamp stored secret sig_hex. ts = Some timestamp
        \<and> validate_timestamp (now_seconds E 1) timestamp (cf_signature_max_age_seconds (ev_config E)) = Inr ()
        \<and> ak_signing_secret key = Some stored
        \<and> open_secret (ev_ext E) (ev_cipher E) stored = Inr secret
        \<and> length (rq_body rq) \<le> MAX_SIGNED_BODY_BYTES
        \<and> trim signature = SIGNATURE_PREFIX @ sig_hex
        \<and> x_hex_decode (ev_ext E) (trim sig_hex) = Some digest
        \<and> x_hmac_sha256 (ev_ext E) secret
            (signed_base (signing_template h key) rq timestamp (rq_body rq)) = Some digest)"
  by (auto simp: check_request_signature_def early_return recover_signing_secret_def read_body_def
      verify_signature_def verify_with_prefix_ok split: if_splits)

lemma signature_step_ok:
  "signature_step E t rq h key ts au = (Inr u, au') \<longleftrightarrow>
     (case header_str (rq_headers rq) SIGNATURE_HEADER of
        None \<Rightarrow> \<not> signature_required E key \<and> au' = au
      | Some signature \<Rightarrow> \<exists>digest. check_request_signature E rq h key ts signature = Inr digest
          \<and> fst (check_and_record t (ak_id key) digest (au_replay au))
          \<and> au' = au\<lparr>au_replay := snd (check_and_record t (ak_id key) digest (au_replay au))\<rparr>)"
  by (auto simp: signature_step_def early_return split_beta Let_def split: option.splits)

lemma parse_networks_ok:
  "parse_networks X ss = Inr ns \<longleftrightarrow> list_all2 (\<lambda>s n. x_network_parse X s = Some n) ss ns"
  by (induction ss arbitrary: ns) (auto simp: early_return list_all2_Cons1)

text \<open>The address binding on the text of its column: a comma-separated list of networks.\<close>

lemma address_allowed_text:
  assumes "address_allowed X key client_ip"
    and "networks = filter (\<lambda>s. s \<noteq> []) (map trim (split_on (CHR '','')
      (case ak_bound_ips key of None \<Rightarrow> [] | Some text \<Rightarrow> text)))"
  shows "(\<forall>s\<in>set networks. x_network_parse X s \<noteq> None)
    \<and> (networks = [] \<or> (\<exists>s\<in>set networks. \<exists>n. x_network_parse X s = Some n \<and> x_network_contains X n client_ip))"
proof -
  have "unwrap_or (ak_bound_ips key) [] = (case ak_bound_ips key of None \<Rightarrow> [] | Some text \<Rightarrow> text)"
    by (simp split: option.split)
  with assms obtain ns where ns: "list_all2 (\<lambda>s n. x_network_parse X s = Some n) networks ns"
    "ns = [] \<or> (\<exists>net\<in>set ns. x_network_contains X net client_ip)"
    by (auto simp: address_allowed_def bound_networks_def parse_networks_ok)
  then show ?thesis by (fastforce simp: list_all2_conv_all_nth in_set_conv_nth)
qed

text \<open>The bytes a signature is taken over: those of the template in force, or the canonical form.\<close>

lemma signed_base_text:
  assumes "template = (case h of
      Some target \<Rightarrow> if hk_auth_mode target = CanonicalV1 \<and> hk_canonical_template target \<noteq> None
        then hk_canonical_template target else ak_canonical_template key
    | None \<Rightarrow> ak_canonical_template key)"
  shows "signed_base (signing_template h key) rq timestamp body = (case template of
      None \<Rightarrow> rq_method rq @ [CHR 0x0A] @ rq_path_and_query rq @ [CHR 0x0A] @ timestamp @ [CHR 0x0A] @ body
    | Some custom \<Rightarrow> str_replace ''{body}'' (utf8_lossy body) (str_replace ''{timestamp}'' timestamp
        (str_replace ''{path}'' (rq_path_and_query rq) (str_replace ''{method}'' (rq_method rq) custom))))"
  unfolding assms
  by (auto simp: signed_base_def signing_template_def canonical_v1_payload_def newline_def
      render_canonical_template_def split: option.splits)

text \<open>A successful authentication, in one equivalence.\<close>

lemma bearer_ok:
  "authenticate_bearer_key E t rq h presented_key client_ip db au = (Inr key, au') \<longleftrightarrow>
     (\<exists>found. find_key_by_hash db (key_hash_of E presented_key) = Some found
      \<and> key = fst (pin_authenticate db found (au_pin au))
      \<and> au_pin au' = snd (pin_authenticate db found (au_pin au))
      \<and> address_allowed (ev_ext E) key client_ip
      \<and> (contains_key (rq_headers rq) SIGNATURE_HEADER \<longrightarrow>
           (\<forall>raw. header_str (rq_headers rq) TIMESTAMP_HEADER = Some raw \<longrightarrow>
              validate_timestamp (now_seconds E 0) raw (cf_signature_max_age_seconds (ev_config E)) = Inr ()))
      \<and> (case header_str (rq_headers rq) SIGNATURE_HEADER of
           None \<Rightarrow> \<not> signature_required E key \<and> au_replay au' = au_replay au
         | Some signature \<Rightarrow> \<exists>digest.
             check_request_signature E rq h key (header_str (rq_headers rq) TIMESTAMP_HEADER) signature
               = Inr digest
             \<and> fst (check_and_record t (ak_id key) digest (au_replay au))
             \<and> au_replay au' = snd (check_and_record t (ak_id key) digest (au_replay au))))"
  (is "?L \<longleftrightarrow> ?R")
proof -
  have st: "au' = au\<lparr>au_pin := p, au_replay := g\<rparr> \<longleftrightarrow> au_pin au' = p \<and> au_replay au' = g" for p g
    by (cases au; cases au') auto
  have st': "au' = au\<lparr>au_pin := p\<rparr> \<longleftrightarrow> au_pin au' = p \<and> au_replay au' = au_replay au" for p
    by (cases au; cases au') auto
  let ?sig = "header_str (rq_headers rq) SIGNATURE_HEADER"
  have "?L \<longleftrightarrow> (\<exists>found u. find_key_by_hash db (key_hash_of E presented_key) = Some found
      \<and> prevalidate_timestamp_header (now_seconds E 0) (rq_headers rq)
          (cf_signature_max_age_seconds (ev_config E)) = Inr (header_str (rq_headers rq) TIMESTAMP_HEADER)
      \<and> key = fst (pin_authenticate db found (au_pin au))
      \<and> signature_step E t rq h key (header_str (rq_headers rq) TIMESTAMP_HEADER)
          (au\<lparr>au_pin := snd (pin_authenticate db found (au_pin au))\<rparr>) = (Inr u, au')
      \<and> address_allowed (ev_ext E) key client_ip)"
    unfolding authenticate_bearer_key_def key_hash_of_def address_allowed_def
    by (auto simp: early_return Let_def list_ex_iff split_beta)
  also have "\<dots> \<longleftrightarrow> ?R"
    by (cases ?sig) (auto simp: signature_step_ok early_return st st')
  finally show ?thesis .
qed

lemma keyless_ok:
  "authenticate_keyless E rq target = Inr u \<longleftrightarrow>
     (hk_auth_mode target = NoAuth \<and> \<not> cf_require_signed_requests (ev_config E)
        \<and> \<not> signature_material_present (rq_headers rq) target)
   \<or> (hk_auth_mode target = HmacOnly \<and> (\<exists>provided stored secret sig_hex digest.
        header_str (rq_headers rq) (unwrap_or (hk_signature_header target) HMAC_ONLY_DEFAULT_HEADER)
          = Some provided
        \<and> hk_hmac_secret target = Some stored
        \<and> open_secret (ev_ext E) (ev_cipher E) stored = Inr secret
        \<and> length (rq_body rq) \<le> MAX_SIGNED_BODY_BYTES
        \<and> trim provided = unwrap_or (hk_signature_prefix target) SIGNATURE_PREFIX @ sig_hex
        \<and> x_hex_decode (ev_ext E) (trim sig_hex) = Some digest
        \<and> x_hmac_sha256 (ev_ext E) secret (rq_body rq) = Some digest))"
  by (cases "hk_auth_mode target")
    (auto simp: authenticate_keyless_def early_return recover_hook_secret_def read_body_def
      verify_with_prefix_ok split: if_splits)

lemma bearer_refusal:
  assumes "fst (authenticate_bearer_key E t rq h presented ip db au) = Inl e"
  shows "(\<exists>msg. e = Unauthorized msg)
    \<or> ((\<exists>key\<in>set (db_keys db). ak_key_hash key = x_hex_encode (ev_ext E) (x_sha256 (ev_ext E) presented))
        \<and> e \<in> {Forbidden ''Client IP not allowed'', InvalidInput ''Request body too large to verify'', Internal})"
proof (cases "find_key_by_hash db (key_hash_of E presented)")
  case None
  with assms show ?thesis
    by (auto simp: authenticate_bearer_key_def key_hash_of_def attempt_def prevalidate_timestamp_header_def
        validate_timestamp_def check_def ok_or_def Let_def split: sum.splits option.splits if_splits)
next
  case (Some found)
  then have stored: "\<exists>key\<in>set (db_keys db). ak_key_hash key = x_hex_encode (ev_ext E) (x_sha256 (ev_ext E) presented)"
    by (auto simp: find_key_by_hash_def find_Some_iff key_hash_of_def)
  have pre: "prevalidate_timestamp_header now hs m = Inl e' \<Longrightarrow> \<exists>msg. e' = Unauthorized msg" for now hs m e'
    by (auto simp: prevalidate_timestamp_header_def validate_timestamp_def check_def ok_or_def Let_def
        split: sum.splits option.splits if_splits)
  have rej: "(\<exists>msg. reject_signature x = Unauthorized msg) \<or> reject_signature x = Internal" for x
    by (cases x) auto
  have chk: "(\<exists>msg. e' = Unauthorized msg) \<or> e' = Internal \<or> e' = InvalidInput ''Request body too large to verify''"
    if "check_request_signature E rq h k ts sg = Inl e'" for k ts sg e'
    using that rej
    by (auto simp: check_request_signature_def validate_timestamp_def recover_signing_secret_def read_body_def
        map_err_def check_def ok_or_def Let_def split: sum.splits option.splits if_splits)
  have step: "(\<exists>msg. e' = Unauthorized msg) \<or> e' = Internal \<or> e' = InvalidInput ''Request body too large to verify''"
    if "fst (signature_step E t rq h k ts a) = Inl e'" for k ts a e'
    using that chk
    by (auto simp: signature_step_def attempt_def require_def Let_def split: sum.splits option.splits
        if_splits prod.splits)
  have nets: "parse_networks X ss = Inl e' \<Longrightarrow> e' = Internal" for X ss e'
    by (induction ss) (auto simp: check_def ok_or_def split: sum.splits option.splits)
  from assms Some show ?thesis
    using stored by (auto simp: authenticate_bearer_key_def key_hash_of_def attempt_def and_then_def Let_def ok_or_def
        require_def bound_networks_def split_beta split: sum.splits if_splits prod.splits dest!: pre step nets)
qed

lemma keyless_refusal:
  assumes "authenticate_keyless E rq target = Inl e"
  shows "e = Unauthorized ''Unauthorized''
    \<or> (hk_auth_mode target = HmacOnly
        \<and> header_str (rq_headers rq) (unwrap_or (hk_signature_header target) HMAC_ONLY_DEFAULT_HEADER) \<noteq> None
        \<and> e \<in> {Unauthorized ''Signature must be formatted as sha256=<hex>'',
                Unauthorized ''Signature is not valid hexadecimal'', Unauthorized ''Invalid request signature'',
                InvalidInput ''Request body too large to verify'', Internal})"
proof -
  have rej: "reject_signature x \<in> {Unauthorized ''Signature must be formatted as sha256=<hex>'',
      Unauthorized ''Signature is not valid hexadecimal'', Unauthorized ''Invalid request signature'', Internal}" for x
    by (cases x) auto
  show ?thesis
    using assms rej
    by (cases "hk_auth_mode target")
      (auto simp: authenticate_keyless_def invocation_unauthorized_def recover_hook_secret_def read_body_def
        map_err_def check_def ok_or_def split: sum.splits option.splits if_splits)
qed

lemma bearer_pin:
  "snd (authenticate_bearer_key E t rq h pk ip db au) = au'
     \<Longrightarrow> au_pin au = Some p \<Longrightarrow> au_pin au' = Some p"
  by (auto simp: authenticate_bearer_key_def attempt_def and_then_def signature_step_def Let_def
      split_beta pin_authenticate_sticky split: sum.splits option.splits)

text \<open>
  The demo administrator with a stored signing secret, and its request signed with the demo MAC, which
  is the secret followed by the signed text.
\<close>

definition signing_admin :: api_key where
  "signing_admin = admin_key\<lparr>ak_signing_secret := Some (PLAINTEXT_PREFIX @ demo_hex_encode ''s'')\<rparr>"

definition signing_db :: database where
  "signing_db = demo_db\<lparr>db_keys := [root_key, signing_admin\<lparr>ak_key_hash := demo_hex_encode ''a''\<rparr>]\<rparr>"

definition demo_mac :: bytes where
  "demo_mac = ''s'' @ canonical_v1_payload ''GET'' ''/api/keys'' ''5'' []"

definition demo_signature :: string where
  "demo_signature = ''sha256='' @ demo_hex_encode demo_mac"

definition signed_request :: request where
  "signed_request =
     \<lparr>rq_method = ''GET'', rq_path = ''/keys'', rq_path_and_query = ''/api/keys'',
      rq_headers = [(''x-api-key'', ''a''), (''x-timestamp'', ''5''),
        (''x-signature-256'', demo_signature)],
      rq_body = [], rq_peer = V4 7\<rparr>"

definition demo_auth :: auth_state where
  "demo_auth = \<lparr>au_pin = Some 1, au_replay = replay_guard_new 300 0\<rparr>"

lemma header_names [simp]:
  "map ascii_lower TIMESTAMP_HEADER = ''x-timestamp''"
  "map ascii_lower SIGNATURE_HEADER = ''x-signature-256''"
  "map ascii_lower API_KEY_HEADER = ''x-api-key''"
  by code_simp+

lemma demo_signature_visible: "header_text demo_signature" "trim demo_signature = demo_signature"
proof -
  have h: "is_ascii_hexdigit c \<Longrightarrow> 32 \<le> byte_code c \<and> byte_code c \<le> 126" for c
    by (auto simp: is_ascii_hexdigit_def is_ascii_digit_def)
  have "32 \<le> byte_code c \<and> byte_code c \<le> 126" if "c \<in> set (demo_hex_encode demo_mac)" for c
    using that by (rule h[OF demo_hex_digits])
  then have "header_text (demo_hex_encode demo_mac)" unfolding header_text_def list_all_iff by blast
  then show "header_text demo_signature"
    by (simp add: demo_signature_def header_text_def)
  show "trim demo_signature = demo_signature"
    unfolding demo_signature_def
    by (simp only: demo_simps(1)[symmetric])
      (rule prefixed_hex_trim[OF demo_laws(1)], simp_all add: graphic_def)
qed

lemma signed_request_headers:
  "header_str (rq_headers signed_request) TIMESTAMP_HEADER = Some ''5''"
  "header_str (rq_headers signed_request) SIGNATURE_HEADER = Some demo_signature"
  "contains_key (rq_headers signed_request) SIGNATURE_HEADER"
  by (simp_all add: header_str_def header_get_def contains_key_def signed_request_def
      demo_signature_visible) (simp add: header_text_def)

lemma signed_request_timestamp:
  "validate_timestamp (now_seconds demo_env n) ''5'' (cf_signature_max_age_seconds (ev_config demo_env)) = Inr ()"
  if "n \<le> 1"
proof -
  have "trim ''5'' = ''5''" by (simp add: trim_visible graphic_def)
  moreover have "parse_i64 ''5'' = Some 5" by (simp add: parse_i64_def is_ascii_digit_def)
  moreover have "now_seconds demo_env n = 0" using that by (simp add: now_seconds_def demo_env_def)
  ultimately show ?thesis
    by (simp add: validate_timestamp_ok demo_env_def default_config_def abs64_def)
qed

lemma signed_request_checks:
  "check_request_signature demo_env signed_request None signing_admin (Some ''5'') demo_signature
     = Inr demo_mac"
proof -
  have opened: "open_secret demo_externals Plaintext (PLAINTEXT_PREFIX @ demo_hex_encode ''s'') = Inr ''s''"
    using open_plain[of demo_externals "''s''" Plaintext] demo_laws(1)
    by (simp add: ascii_valid is_ascii_def del: demo_hex_encode.simps)
  have ts: "validate_timestamp (now_seconds demo_env 1) ''5''
      (cf_signature_max_age_seconds (ev_config demo_env)) = Inr ()"
    by (rule signed_request_timestamp) simp
  have base: "signed_base (signing_template None signing_admin) signed_request ''5'' (rq_body signed_request)
      = canonical_v1_payload ''GET'' ''/api/keys'' ''5'' []"
    by (simp add: signing_template_def signed_base_def signing_admin_def admin_key_def plain_key_def
        signed_request_def)
  have stored: "ak_signing_secret signing_admin = Some (PLAINTEXT_PREFIX @ demo_hex_encode ''s'')"
    by (simp add: signing_admin_def)
  have body: "length (rq_body signed_request) \<le> MAX_SIGNED_BODY_BYTES"
    by (simp add: signed_request_def)
  have tag: "trim demo_signature = SIGNATURE_PREFIX @ demo_hex_encode demo_mac"
    unfolding demo_signature_visible by (simp add: demo_signature_def SIGNATURE_PREFIX_def)
  have hex: "x_hex_decode demo_externals (trim (demo_hex_encode demo_mac)) = Some demo_mac"
    using hex_trim[OF demo_laws(1), of demo_mac] by (simp add: demo_hex_roundtrip)
  have mac: "x_hmac_sha256 demo_externals ''s'' (canonical_v1_payload ''GET'' ''/api/keys'' ''5'' []) = Some demo_mac"
    by (simp add: demo_mac_def)
  show ?thesis
    unfolding request_signature_ok
    by (rule exI[where x = "''5''"], rule exI[where x = "PLAINTEXT_PREFIX @ demo_hex_encode ''s''"],
        rule exI[where x = "''s''"], rule exI[where x = "demo_hex_encode demo_mac"])
      (simp only: ts[unfolded demo_env_simps] base stored body tag hex mac opened demo_env_simps simp_thms)
qed

lemma signed_request_accepted:
  "\<exists>au'. authenticate_bearer_key demo_env 0 signed_request None ''a'' (V4 7) signing_db demo_auth
     = (Inr (signing_admin\<lparr>ak_key_hash := demo_hex_encode ''a''\<rparr>), au')"
proof -
  let ?key = "signing_admin\<lparr>ak_key_hash := demo_hex_encode ''a''\<rparr>"
  let ?replay = "check_and_record 0 (ak_id ?key) demo_mac (au_replay demo_auth)"
  let ?au = "\<lparr>au_pin = Some 1, au_replay = snd ?replay\<rparr>"
  have found: "find_key_by_hash signing_db (key_hash_of demo_env ''a'') = Some ?key"
    by (simp add: find_key_by_hash_def signing_db_def key_hash_of_def demo_keys_def signing_admin_def
        demo_hex_digit_def)
  have pin: "pin_authenticate signing_db ?key (Some 1) = (?key, Some 1)"
    by (simp add: pin_authenticate_def signing_admin_def admin_key_def plain_key_def)
  have addr: "address_allowed demo_externals ?key (V4 7)"
    by (simp add: address_allowed_def bound_networks_def signing_admin_def admin_key_def plain_key_def
        trim_visible)
  have chk: "check_request_signature demo_env signed_request None ?key (Some ''5'') demo_signature = Inr demo_mac"
    using signed_request_checks
    by (simp add: request_signature_ok signing_template_def signing_admin_def cong: conj_cong)
  have fresh: "fst ?replay"
    by (simp add: check_and_record_def prune_if_due_def replay_guard_new_def Let_def demo_auth_def
        NANOS_PER_SEC_def MAX_TRACKED_SIGNATURES_def PRUNE_INTERVAL_DIVISOR_def)
  have ts: "validate_timestamp (now_seconds demo_env 0) ''5''
      (cf_signature_max_age_seconds (ev_config demo_env)) = Inr ()"
    by (rule signed_request_timestamp) simp
  have "authenticate_bearer_key demo_env 0 signed_request None ''a'' (V4 7) signing_db demo_auth
      = (Inr ?key, ?au)"
    unfolding bearer_ok
    by (rule exI[where x = ?key])
      (use found pin addr chk fresh ts in \<open>simp add: demo_auth_def signed_request_headers\<close>)
  then show ?thesis by blast
qed

text \<open>A request without credentials for an open hook.\<close>

definition anonymous_request :: request where
  "anonymous_request = signed_request\<lparr>rq_path := ''/deploy'', rq_headers := []\<rparr>"

definition open_db :: database where
  "open_db = demo_db\<lparr>db_hooks := [deploy_hook\<lparr>hk_auth_mode := NoAuth\<rparr>]\<rparr>"

section \<open>Properties\<close>

text \<open>
  C36. The timestamp window, exactly, on 64-bit integers: for a clock and a window below 2\^62, a
  timestamp is accepted when it is within the window of the clock, and in one more case, where the
  subtraction wraps onto the least integer, whose absolute value is itself.
\<close>

theorem timestamp_window:
  assumes "0 \<le> sint now" and "sint now < 2 ^ 62" and "0 \<le> sint max_age" and "sint max_age < 2 ^ 62"
  shows "validate_timestamp now raw max_age = Inr () \<longleftrightarrow>
     (\<exists>p. parse_i64 (trim raw) = Some p
        \<and> (\<bar>sint now - sint p\<bar> \<le> sint max_age \<or> sint p = sint now - 2 ^ 63))"
proof -
  have "sint (abs64 (now - p)) \<le> sint max_age \<longleftrightarrow>
      \<bar>sint now - sint p\<bar> \<le> sint max_age \<or> sint p = sint now - 2 ^ 63" for p
  proof -
    define n q m d where "n = sint now" and "q = sint p" and "m = sint max_age" and "d = sint (now - p)"
    have "d = n - q \<or> d = n - q - 2 ^ 64 \<or> d = n - q + 2 ^ 64"
      using sint_sub64[of now p] by (simp add: n_def q_def d_def)
    moreover have "- (2 ^ 63) \<le> q" "q < 2 ^ 63" "- (2 ^ 63) \<le> d" "d < 2 ^ 63"
      unfolding q_def d_def by (rule sint_bounds64)+
    moreover have "sint (abs64 (now - p)) = (if d = - (2 ^ 63) then - (2 ^ 63) else \<bar>d\<bar>)"
      by (simp add: sint_abs64 d_def)
    ultimately show ?thesis using assms
      unfolding n_def[symmetric] q_def[symmetric] m_def[symmetric] by (auto simp: abs_if split: if_splits)
  qed
  then show ?thesis by (simp add: validate_timestamp_ok)
qed

theorem timestamp_window_witness:
  "validate_timestamp 1000 ''970'' 300 = Inr () \<and> validate_timestamp 1000 ''600'' 300 \<noteq> Inr ()
   \<and> validate_timestamp 1000 ''-9223372036854774808'' 300 = Inr ()"
proof -
  have t: "trim ''970'' = ''970''" "trim ''600'' = ''600''"
    "trim ''-9223372036854774808'' = ''-9223372036854774808''"
    by (simp_all add: trim_visible graphic_def)
  have p: "parse_i64 ''970'' = Some 970" "parse_i64 ''600'' = Some 600"
    "parse_i64 ''-9223372036854774808'' = Some (word_of_int (-9223372036854774808))"
    by (simp_all add: parse_i64_def is_ascii_digit_def)
  have "sint (word_of_int (-9223372036854774808) :: 64 word) = -9223372036854774808"
    by (simp add: sint_sbintrunc' signed_take_bit_int_eq_self)
  then show ?thesis
    using timestamp_window[of 1000 300 "''970''"] timestamp_window[of 1000 300 "''600''"]
      timestamp_window[of 1000 300 "''-9223372036854774808''"]
    by (simp add: t p)
qed

text \<open>
  C20. What a successful bearer authentication establishes.  The key is stored with the hash of the
  presented one, and is master only if its row is and the pin names it; each network of its binding
  parses, and one holds the client unless there is none.  If the deployment demands signatures, or the
  key manages keys without being master, or a signature was presented, then the request has a signature
  \<open>sha256=<hex>\<close> and a timestamp inside the window, the body is at most 3 MB, and the hexadecimal part
  decodes to the HMAC, under the key's own opened secret, of method, target, timestamp and body on four
  lines or, where the invoked hook or else the key has a template of its own, of this template with its
  placeholders replaced; and a healthy replay guard did not know this digest, and knows it for a whole window.
\<close>

theorem bearer_authenticated:
  assumes "authenticate_bearer_key E t rq h presented_key client_ip db au = (Inr key, au')"
  shows "\<exists>found\<in>set (db_keys db).
     ak_key_hash found = x_hex_encode (ev_ext E) (x_sha256 (ev_ext E) presented_key)
   \<and> key = found\<lparr>ak_is_master := ak_is_master key\<rparr>
   \<and> (ak_is_master key \<longrightarrow> ak_is_master found \<and> au_pin au' = Some (ak_id key))
   \<and> (\<forall>networks. networks = filter (\<lambda>s. s \<noteq> []) (map trim (split_on (CHR '','')
          (case ak_bound_ips key of None \<Rightarrow> [] | Some text \<Rightarrow> text))) \<longrightarrow>
        (\<forall>s\<in>set networks. x_network_parse (ev_ext E) s \<noteq> None)
      \<and> (networks = [] \<or> (\<exists>s\<in>set networks. \<exists>n. x_network_parse (ev_ext E) s = Some n
            \<and> x_network_contains (ev_ext E) n client_ip)))
   \<and> (cf_require_signed_requests (ev_config E) \<or> (ak_can_manage_keys key \<and> \<not> ak_is_master key)
        \<or> header_str (rq_headers rq) ''X-Signature-256'' \<noteq> None \<longrightarrow>
      (\<exists>signature sig_hex timestamp p skew stored secret digest template.
         header_str (rq_headers rq) ''X-Signature-256'' = Some signature
       \<and> header_str (rq_headers rq) ''X-Timestamp'' = Some timestamp
       \<and> parse_i64 (trim timestamp) = Some p \<and> skew = now_seconds E 1 - p
       \<and> sint (if sint skew < 0 then - skew else skew) \<le> sint (cf_signature_max_age_seconds (ev_config E))
       \<and> length (rq_body rq) \<le> 3 * 1024 * 1024
       \<and> ak_signing_secret key = Some stored
       \<and> open_secret (ev_ext E) (ev_cipher E) stored = Inr secret
       \<and> trim signature = ''sha256='' @ sig_hex
       \<and> x_hex_decode (ev_ext E) (trim sig_hex) = Some digest
       \<and> template = (case h of
             Some target \<Rightarrow> if hk_auth_mode target = CanonicalV1 \<and> hk_canonical_template target \<noteq> None
               then hk_canonical_template target else ak_canonical_template key
           | None \<Rightarrow> ak_canonical_template key)
       \<and> x_hmac_sha256 (ev_ext E) secret (case template of
             None \<Rightarrow> rq_method rq @ [CHR 0x0A] @ rq_path_and_query rq @ [CHR 0x0A] @ timestamp @ [CHR 0x0A]
               @ rq_body rq
           | Some custom \<Rightarrow> str_replace ''{body}'' (utf8_lossy (rq_body rq))
               (str_replace ''{timestamp}'' timestamp (str_replace ''{path}'' (rq_path_and_query rq)
                 (str_replace ''{method}'' (rq_method rq) custom)))) = Some digest
       \<and> (guard_healthy (au_replay au) \<longrightarrow> (ak_id key, digest) \<notin> live_signatures t (au_replay au)
            \<and> (\<forall>t'\<ge>t. t' < t + rg_window (au_replay au) \<longrightarrow>
                 (ak_id key, digest) \<in> live_signatures t' (au_replay au')))))"
proof -
  from assms obtain found where f: "find_key_by_hash db (key_hash_of E presented_key) = Some found"
    and key: "key = fst (pin_authenticate db found (au_pin au))"
    and pin: "au_pin au' = snd (pin_authenticate db found (au_pin au))"
    and addr: "address_allowed (ev_ext E) key client_ip"
    and sig: "case header_str (rq_headers rq) SIGNATURE_HEADER of
           None \<Rightarrow> \<not> signature_required E key \<and> au_replay au' = au_replay au
         | Some signature \<Rightarrow> \<exists>digest.
             check_request_signature E rq h key (header_str (rq_headers rq) TIMESTAMP_HEADER) signature
               = Inr digest
             \<and> fst (check_and_record t (ak_id key) digest (au_replay au))
             \<and> au_replay au' = snd (check_and_record t (ak_id key) digest (au_replay au))"
    unfolding bearer_ok by blast
  have stored: "found \<in> set (db_keys db) \<and> ak_key_hash found = x_hex_encode (ev_ext E) (x_sha256 (ev_ext E) presented_key)"
    using f by (auto simp: find_key_by_hash_def find_Some_iff key_hash_of_def)
  have same: "key = found\<lparr>ak_is_master := ak_is_master key\<rparr>"
    using pin_authenticate_key[of db found "au_pin au"] by (simp add: key)
  have master: "ak_is_master key \<longrightarrow> ak_is_master found \<and> au_pin au' = Some (ak_id key)"
    using pin_authenticate_master[of db found "au_pin au"] by (simp add: key pin)
  have fresh: "guard_healthy (au_replay au) \<longrightarrow> (ak_id key, digest) \<notin> live_signatures t (au_replay au)
      \<and> (\<forall>t'\<ge>t. t' < t + rg_window (au_replay au) \<longrightarrow> (ak_id key, digest) \<in> live_signatures t' (au_replay au'))"
    if "fst (check_and_record t (ak_id key) digest (au_replay au))"
      "au_replay au' = snd (check_and_record t (ak_id key) digest (au_replay au))" for digest
    using replay.live_after[of "au_replay au" t _ "(ak_id key, digest)"]
      check_and_record_answer[of "au_replay au" t "ak_id key" digest] that
    by (simp add: guard_use_def)
  show ?thesis
  proof (intro bexI[of _ found] conjI impI)
    show "\<forall>networks. networks = filter (\<lambda>s. s \<noteq> []) (map trim (split_on (CHR '','')
          (case ak_bound_ips key of None \<Rightarrow> [] | Some text \<Rightarrow> text))) \<longrightarrow>
        (\<forall>s\<in>set networks. x_network_parse (ev_ext E) s \<noteq> None)
      \<and> (networks = [] \<or> (\<exists>s\<in>set networks. \<exists>n. x_network_parse (ev_ext E) s = Some n
            \<and> x_network_contains (ev_ext E) n client_ip))"
      using address_allowed_text[OF addr] by blast
    assume "cf_require_signed_requests (ev_config E) \<or> (ak_can_manage_keys key \<and> \<not> ak_is_master key)
        \<or> header_str (rq_headers rq) ''X-Signature-256'' \<noteq> None"
    with sig obtain signature digest where
      s: "header_str (rq_headers rq) SIGNATURE_HEADER = Some signature"
      and chk: "check_request_signature E rq h key (header_str (rq_headers rq) TIMESTAMP_HEADER) signature = Inr digest"
      and new: "fst (check_and_record t (ak_id key) digest (au_replay au))"
        "au_replay au' = snd (check_and_record t (ak_id key) digest (au_replay au))"
      by (auto simp: signature_required_def SIGNATURE_HEADER_def split: option.splits)
    note base = signed_base_text[OF refl, of h key rq]
    from s chk fresh[OF new] show "\<exists>signature sig_hex timestamp p skew stored secret digest template.
         header_str (rq_headers rq) ''X-Signature-256'' = Some signature
       \<and> header_str (rq_headers rq) ''X-Timestamp'' = Some timestamp
       \<and> parse_i64 (trim timestamp) = Some p \<and> skew = now_seconds E 1 - p
       \<and> sint (if sint skew < 0 then - skew else skew) \<le> sint (cf_signature_max_age_seconds (ev_config E))
       \<and> length (rq_body rq) \<le> 3 * 1024 * 1024
       \<and> ak_signing_secret key = Some stored
       \<and> open_secret (ev_ext E) (ev_cipher E) stored = Inr secret
       \<and> trim signature = ''sha256='' @ sig_hex
       \<and> x_hex_decode (ev_ext E) (trim sig_hex) = Some digest
       \<and> template = (case h of
             Some target \<Rightarrow> if hk_auth_mode target = CanonicalV1 \<and> hk_canonical_template target \<noteq> None
               then hk_canonical_template target else ak_canonical_template key
           | None \<Rightarrow> ak_canonical_template key)
       \<and> x_hmac_sha256 (ev_ext E) secret (case template of
             None \<Rightarrow> rq_method rq @ [CHR 0x0A] @ rq_path_and_query rq @ [CHR 0x0A] @ timestamp @ [CHR 0x0A]
               @ rq_body rq
           | Some custom \<Rightarrow> str_replace ''{body}'' (utf8_lossy (rq_body rq))
               (str_replace ''{timestamp}'' timestamp (str_replace ''{path}'' (rq_path_and_query rq)
                 (str_replace ''{method}'' (rq_method rq) custom)))) = Some digest
       \<and> (guard_healthy (au_replay au) \<longrightarrow> (ak_id key, digest) \<notin> live_signatures t (au_replay au)
            \<and> (\<forall>t'\<ge>t. t' < t + rg_window (au_replay au) \<longrightarrow>
                 (ak_id key, digest) \<in> live_signatures t' (au_replay au')))"
      unfolding request_signature_ok validate_timestamp_ok base abs64_def SIGNATURE_HEADER_def
        TIMESTAMP_HEADER_def SIGNATURE_PREFIX_def MAX_SIGNED_BODY_BYTES_def
      by blast
  qed (use stored same master in \<open>auto simp only: simp_thms\<close>)
qed

theorem bearer_authenticated_witness:
  "\<exists>digest. x_hmac_sha256 demo_externals ''s'' (''GET'' @ [CHR 0x0A] @ ''/api/keys'' @ [CHR 0x0A] @ ''5'' @ [CHR 0x0A])
      = Some digest
    \<and> x_hex_decode demo_externals (demo_hex_encode demo_mac) = Some digest
    \<and> (ak_id admin_key, digest) \<notin> live_signatures 0 (au_replay demo_auth)"
proof -
  let ?key = "signing_admin\<lparr>ak_key_hash := demo_hex_encode ''a''\<rparr>"
  obtain au' where a: "authenticate_bearer_key demo_env 0 signed_request None ''a'' (V4 7) signing_db demo_auth
      = (Inr ?key, au')"
    using signed_request_accepted by blast
  have sig: "header_str (rq_headers signed_request) ''X-Signature-256'' = Some demo_signature"
    "header_str (rq_headers signed_request) ''X-Timestamp'' = Some ''5''"
    using signed_request_headers by (simp_all add: SIGNATURE_HEADER_def TIMESTAMP_HEADER_def)
  have opened: "open_secret demo_externals Plaintext (PLAINTEXT_PREFIX @ demo_hex_encode ''s'') = Inr ''s''"
    using open_plain[of demo_externals "''s''" Plaintext] demo_laws(1)
    by (simp add: ascii_valid is_ascii_def del: demo_hex_encode.simps)
  have key: "ak_signing_secret ?key = Some (PLAINTEXT_PREFIX @ demo_hex_encode ''s'')"
    "ak_canonical_template ?key = None"
    by (simp_all add: signing_admin_def admin_key_def plain_key_def)
  have trimmed: "trim (demo_hex_encode demo_mac) = demo_hex_encode demo_mac"
    using hex_trim[OF demo_laws(1), of demo_mac] by (simp del: demo_hex_encode.simps)
  have healthy: "guard_healthy (au_replay demo_auth)" by (simp add: demo_auth_def fresh_guard_healthy)
  have request: "rq_method signed_request = ''GET''" "rq_path_and_query signed_request = ''/api/keys''"
    "rq_body signed_request = []"
    by (simp_all add: signed_request_def)
  from bearer_authenticated[OF a] obtain sig_hex secret stored digest where
    tag: "trim demo_signature = ''sha256='' @ sig_hex" and opens: "ak_signing_secret ?key = Some stored"
    "open_secret demo_externals Plaintext stored = Inr secret"
    and decoded: "x_hex_decode demo_externals (trim sig_hex) = Some digest"
    and mac: "x_hmac_sha256 demo_externals secret (''GET'' @ [CHR 0x0A] @ ''/api/keys'' @ [CHR 0x0A] @ ''5''
      @ [CHR 0x0A]) = Some digest"
    and fresh: "(ak_id ?key, digest) \<notin> live_signatures 0 (au_replay demo_auth)"
    unfolding sig request key option.simps demo_env_simps using healthy by auto
  have "sig_hex = demo_hex_encode demo_mac"
    using tag unfolding demo_signature_visible by (simp add: demo_signature_def)
  moreover have "secret = ''s''" using opens opened key by simp
  ultimately show ?thesis using decoded mac fresh trimmed
    by (auto simp: signing_admin_def)
qed

text \<open>
  The pin: once the process has pinned a master, no bearer authentication moves the pin, and a key
  stored as master whose id is not the pinned one is handled as an ordinary key.
\<close>

theorem pinned_master_only:
  assumes "au_pin au = Some p"
    and "authenticate_bearer_key E t rq h presented_key client_ip db au = (r, au')"
  shows "au_pin au' = Some p \<and> (\<forall>key. r = Inr key \<and> ak_is_master key \<longrightarrow> ak_id key = p)"
proof -
  have pin: "au_pin au' = Some p" using bearer_pin assms by (metis snd_conv)
  moreover have "ak_id key = p" if "r = Inr key" "ak_is_master key" for key
  proof -
    from assms(2) that(1) have "authenticate_bearer_key E t rq h presented_key client_ip db au = (Inr key, au')"
      by simp
    then obtain found where "key = fst (pin_authenticate db found (au_pin au))"
      and "au_pin au' = snd (pin_authenticate db found (au_pin au))" unfolding bearer_ok by blast
    with pin_authenticate_master that(2) pin show ?thesis by fastforce
  qed
  ultimately show ?thesis by blast
qed

theorem pinned_master_only_witness:
  "\<exists>key au'. authenticate_bearer_key demo_env 0 signed_request None ''a'' (V4 7) signing_db demo_auth
     = (Inr key, au') \<and> au_pin au' = Some 1"
proof -
  obtain au' where a: "authenticate_bearer_key demo_env 0 signed_request None ''a'' (V4 7) signing_db demo_auth
      = (Inr (signing_admin\<lparr>ak_key_hash := demo_hex_encode ''a''\<rparr>), au')"
    using signed_request_accepted by blast
  have "au_pin demo_auth = Some 1" by (simp add: demo_auth_def)
  from pinned_master_only[OF this a] a show ?thesis by blast
qed

text \<open>
  C30. A signed request is honoured once: after it was accepted, the same request presented again with
  the same key is refused at every instant before the end of the guard's window, whatever its clock
  readings.
\<close>

theorem replayed_request_refused:
  assumes "authenticate_bearer_key E t rq h presented_key client_ip db au = (Inr key, au')"
    and "header_str (rq_headers rq) SIGNATURE_HEADER \<noteq> None"
    and "guard_healthy (au_replay au)"
    and "t \<le> t'" and "t' < t + rg_window (au_replay au)"
    and "ev_ext E' = ev_ext E" and "ev_cipher E' = ev_cipher E" and "au_pin au = Some p"
  shows "fst (authenticate_bearer_key E' t' rq h presented_key client_ip' db au') \<noteq> Inr key'"
proof
  assume again: "fst (authenticate_bearer_key E' t' rq h presented_key client_ip' db au') = Inr key'"
  obtain signature where s: "header_str (rq_headers rq) SIGNATURE_HEADER = Some signature"
    using assms(2) by blast
  from assms(1) s obtain found digest where f: "find_key_by_hash db (key_hash_of E presented_key) = Some found"
    and key: "key = fst (pin_authenticate db found (au_pin au))"
    and chk: "check_request_signature E rq h key (header_str (rq_headers rq) TIMESTAMP_HEADER) signature = Inr digest"
    and fresh: "fst (check_and_record t (ak_id key) digest (au_replay au))"
    and guard: "au_replay au' = snd (check_and_record t (ak_id key) digest (au_replay au))"
    unfolding bearer_ok by auto
  from again obtain au'' where "authenticate_bearer_key E' t' rq h presented_key client_ip' db au' = (Inr key', au'')"
    by (metis prod.collapse)
  with s obtain found' digest' where f': "find_key_by_hash db (key_hash_of E' presented_key) = Some found'"
    and key': "key' = fst (pin_authenticate db found' (au_pin au'))"
    and chk': "check_request_signature E' rq h key' (header_str (rq_headers rq) TIMESTAMP_HEADER) signature = Inr digest'"
    and fresh': "fst (check_and_record t' (ak_id key') digest' (au_replay au'))"
    unfolding bearer_ok by auto
  have "au_pin au' = au_pin au" using bearer_pin[of E t rq h] assms(1,8) by (metis snd_conv)
  then have same: "key' = key"
    using f f' key key' assms(6) by (simp add: key_hash_of_def)
  have "digest' = digest"
    using chk chk' assms(6,7) unfolding request_signature_ok same by auto
  moreover have "(ak_id key, digest) \<in> live_signatures t' (au_replay au')"
    using replay.live_after[of "au_replay au" t t' "(ak_id key, digest)"]
      replay.answer[of "au_replay au" t "(ak_id key, digest)"] assms(3-5) fresh
    by (simp add: guard guard_use_def)
  moreover have "guard_healthy (au_replay au')"
    using replay.healthy_kept[of "au_replay au" t "(ak_id key, digest)"] assms(3)
    by (simp add: guard guard_use_def)
  ultimately show False
    using fresh' check_and_record_answer[of "au_replay au'" t' "ak_id key" digest] by (simp add: same)
qed

theorem replayed_request_refused_witness:
  "\<exists>au'. snd (authenticate_bearer_key demo_env 0 signed_request None ''a'' (V4 7) signing_db demo_auth) = au'
     \<and> fst (authenticate_bearer_key demo_env 60000000000 signed_request None ''a'' (V4 7) signing_db au')
         \<noteq> Inr (signing_admin\<lparr>ak_key_hash := demo_hex_encode ''a''\<rparr>)"
proof -
  obtain au' where a: "authenticate_bearer_key demo_env 0 signed_request None ''a'' (V4 7) signing_db demo_auth
      = (Inr (signing_admin\<lparr>ak_key_hash := demo_hex_encode ''a''\<rparr>), au')"
    using signed_request_accepted by blast
  have "header_str (rq_headers signed_request) SIGNATURE_HEADER \<noteq> None"
    by (simp add: signed_request_headers)
  moreover have "guard_healthy (au_replay demo_auth)"
    by (simp add: demo_auth_def fresh_guard_healthy)
  moreover have "(60000000000::nat) < 0 + rg_window (au_replay demo_auth)"
    by (simp add: demo_auth_def replay_guard_new_def Let_def NANOS_PER_SEC_def)
  moreover have "au_pin demo_auth = Some 1" by (simp add: demo_auth_def)
  ultimately have "fst (authenticate_bearer_key demo_env 60000000000 signed_request None ''a'' (V4 7) signing_db au')
      \<noteq> Inr (signing_admin\<lparr>ak_key_hash := demo_hex_encode ''a''\<rparr>)"
    by (intro replayed_request_refused[OF a]) simp_all
  with a show ?thesis by simp
qed

text \<open>
  C21. Without a key, an invocation is let through exactly when the hook that the path names is live and
  either open (\<open>NONE\<close>), where the deployment allows unsigned requests and the request carries no
  signature header at all, or \<open>HMAC\_ONLY\<close>, where the hook's header carries the MAC of the body under the
  hook's own opened secret.
\<close>

theorem keyless_let_through_iff:
  assumes "header_str (rq_headers rq) API_KEY_HEADER = None"
  shows "(\<exists>client. fst (invocation_auth_middleware E t trusted rq db au) = Inr (client, None)) \<longleftrightarrow>
     (\<exists>identifier target. hook_identifier_from_path (rq_path rq) = Some identifier
      \<and> resolve_hook (ev_ext E) db identifier = Inr target
      \<and> ((hk_auth_mode target = NoAuth \<and> \<not> cf_require_signed_requests (ev_config E)
            \<and> \<not> signature_material_present (rq_headers rq) target)
         \<or> (hk_auth_mode target = HmacOnly \<and> (\<exists>provided stored secret sig_hex digest.
              header_str (rq_headers rq) (unwrap_or (hk_signature_header target) HMAC_ONLY_DEFAULT_HEADER)
                = Some provided
            \<and> hk_hmac_secret target = Some stored
            \<and> open_secret (ev_ext E) (ev_cipher E) stored = Inr secret
            \<and> length (rq_body rq) \<le> MAX_SIGNED_BODY_BYTES
            \<and> trim provided = unwrap_or (hk_signature_prefix target) SIGNATURE_PREFIX @ sig_hex
            \<and> x_hex_decode (ev_ext E) (trim sig_hex) = Some digest
            \<and> x_hmac_sha256 (ev_ext E) secret (rq_body rq) = Some digest))))"
proof -
  have "(\<exists>client. fst (invocation_auth_middleware E t trusted rq db au) = Inr (client, None)) \<longleftrightarrow>
     (\<exists>identifier target. hook_identifier_from_path (rq_path rq) = Some identifier
      \<and> resolve_hook (ev_ext E) db identifier = Inr target
      \<and> authenticate_keyless E rq target = Inr ())"
    using assms
    by (auto simp: invocation_auth_middleware_def Let_def attempt_def ok_or_def map_err_def
        split: option.splits sum.splits)
  then show ?thesis by (simp add: keyless_ok)
qed

theorem keyless_let_through_iff_witness:
  "\<exists>client. fst (invocation_auth_middleware demo_env 0 [] anonymous_request open_db demo_auth) = Inr (client, None)"
proof -
  have key: "header_str (rq_headers anonymous_request) API_KEY_HEADER = None"
    by (simp add: anonymous_request_def header_str_def header_get_def)
  have "hook_identifier_from_path (rq_path anonymous_request) = Some ''deploy''"
    by (simp add: anonymous_request_def hook_identifier_from_path_def)
  moreover have "resolve_hook (ev_ext demo_env) open_db ''deploy'' = Inr (deploy_hook\<lparr>hk_auth_mode := NoAuth\<rparr>)"
    by (simp add: resolve_hook_def resolve_hook_including_deleted_def demo_externals_def is_ascii_digit_def
        find_hook_by_name_def open_db_def deploy_hook_def ban_hook_def)
  moreover have "\<not> signature_material_present (rq_headers anonymous_request) (deploy_hook\<lparr>hk_auth_mode := NoAuth\<rparr>)"
    by (simp add: signature_material_present_def anonymous_request_def contains_key_def header_get_def
        deploy_hook_def ban_hook_def)
  moreover have "\<not> cf_require_signed_requests (ev_config demo_env)"
    by (simp add: default_config_def)
  ultimately show ?thesis
    unfolding keyless_let_through_iff[OF key]
    by (intro exI[of _ "''deploy''"] exI[of _ "deploy_hook\<lparr>hk_auth_mode := NoAuth\<rparr>"]) simp
qed



end
