(* ===== verification/Executor_Run.thy ===== *)
theory Executor_Run
  imports Guards Demo_Data
begin

text \<open>
  \<open>src/executor.rs\<close>, second part: the checks made on the host before a hook runs, the per-key
  concurrency limiter, capturing a child's output up to a limit, the outcome of a process, and
  \<open>execute\_hook\<close> with the record it stores.

  The operating system is a parameter: the record \<open>host\<close> answers for the file system, the process
  identity and the spawned child.
\<close>

unbundle bit_operations_syntax

section \<open>The host\<close>

datatype io_kind = KindNotFound | KindPermissionDenied | KindOther string \<comment> \<open>its Debug text\<close>

record io_error =
  ie_kind :: io_kind
  ie_text :: string

datatype exit_status = ExitCode int | ExitSignal int

datatype read_event = ReadOk bytes | ReadErr

text \<open>
  A child: what its two pipes deliver to the readers before these are joined, how long it runs if
  left alone (in milliseconds; \<open>None\<close> for ever), what waiting for it answers then, and what waiting
  answers after it was killed.
\<close>

record child =
  ch_stdout :: "read_event list"
  ch_stderr :: "read_event list"
  ch_runs_for :: "nat option"
  ch_exit :: "exit_status option"
  ch_after_kill :: "exit_status option"

record host =
  ho_env :: "string \<Rightarrow> string option"
  ho_uid :: nat
  ho_gid :: nat
  ho_canonicalize :: "string \<Rightarrow> io_error + string"
  ho_metadata :: "string \<Rightarrow> io_error + bool \<times> nat" \<comment> \<open>regular file?, mode bits\<close>
  ho_spawn :: "command_plan \<Rightarrow> io_error + child"
  ho_elapsed_ms :: nat

section \<open>Diagnostics\<close>

definition diagnostic :: "string \<Rightarrow> string \<Rightarrow> string \<Rightarrow> string" where
  "diagnostic script_path cause remedy =
     ''[ERROR] Cannot execute '' @ single_quoted script_path @ '': '' @ cause @ ''. '' @ remedy"

definition process_identity :: "host \<Rightarrow> string" where
  "process_identity H =
     (let ids = ''uid='' @ nat_text (ho_uid H) @ '' gid='' @ nat_text (ho_gid H)
      in case (case ho_env H ''USER'' of Some n \<Rightarrow> Some n | None \<Rightarrow> ho_env H ''LOGNAME'') of
           Some name \<Rightarrow> if name \<noteq> [] then single_quoted name @ '' ('' @ ids @ '')'' else ids
         | None \<Rightarrow> ids)"

text \<open>
  \<open>Path::parent\<close> and \<open>Path::ancestors\<close> of an absolute path: what is before the last component, without
  trailing separators and dots.
\<close>

fun trim_back_rev :: "string \<Rightarrow> string" where
  "trim_back_rev (a # b # r) =
     (if a = CHR ''/'' then trim_back_rev (b # r)
      else if a = CHR ''.'' \<and> b = CHR ''/'' then trim_back_rev (b # r)
      else a # b # r)"
| "trim_back_rev s = s"

definition path_parent :: "string \<Rightarrow> string option" where
  "path_parent p =
     (let t = trim_back_rev (rev p)
      in if t = [] \<or> t = ''/'' then None
         else Some (rev (trim_back_rev (dropWhile (\<lambda>c. c \<noteq> CHR ''/'') t))))"

lemma trim_back_rev_length: "length (trim_back_rev s) \<le> length s"
  by (induction s rule: trim_back_rev.induct) auto

lemma trim_back_rev_head: "trim_back_rev s = t \<Longrightarrow> t = [] \<or> t = ''/'' \<or> hd t \<noteq> CHR ''/''"
  by (induction s rule: trim_back_rev.induct) (auto split: if_splits)

lemma path_parent_shorter:
  assumes "path_parent p = Some q"
  shows "length q < length p"
proof -
  let ?t = "trim_back_rev (rev p)"
  from assms have t: "?t \<noteq> []" "?t \<noteq> ''/''" and q: "q = rev (trim_back_rev (dropWhile (\<lambda>c. c \<noteq> CHR ''/'') ?t))"
    by (auto simp: path_parent_def Let_def split: if_splits)
  from t trim_back_rev_head[of "rev p"] have "hd ?t \<noteq> CHR ''/''" by auto
  with t(1) have "length (dropWhile (\<lambda>c. c \<noteq> CHR ''/'') ?t) < length ?t"
    by (cases ?t) (auto simp: le_imp_less_Suc length_dropWhile_le)
  with trim_back_rev_length[of "dropWhile (\<lambda>c. c \<noteq> CHR ''/'') ?t"] trim_back_rev_length[of "rev p"]
  show ?thesis by (simp add: q)
qed

fun ancestors_within :: "nat \<Rightarrow> string \<Rightarrow> string list" where
  "ancestors_within 0 p = []"
| "ancestors_within (Suc n) p =
     p # (case path_parent p of Some q \<Rightarrow> ancestors_within n q | None \<Rightarrow> [])"

text \<open>A parent is shorter than its path, so as many steps as the path has bytes are enough.\<close>

definition path_ancestors :: "string \<Rightarrow> string list" where
  "path_ancestors p = ancestors_within (Suc (length p)) p"

lemma ancestors_enough:
  "length p < n \<Longrightarrow> length p < m \<Longrightarrow> ancestors_within n p = ancestors_within m p"
proof (induction n arbitrary: p m)
  case 0
  then show ?case by simp
next
  case (Suc n)
  then obtain m' where m: "m = Suc m'" by (cases m) auto
  show ?case
  proof (cases "path_parent p")
    case None
    then show ?thesis by (simp add: m)
  next
    case (Some q)
    from path_parent_shorter[OF Some] Suc.prems m have "length q < n" "length q < m'" by auto
    then have "ancestors_within n q = ancestors_within m' q" by (rule Suc.IH)
    with Some show ?thesis by (simp add: m)
  qed
qed

definition first_unsearchable_directory :: "host \<Rightarrow> string \<Rightarrow> string option" where
  "first_unsearchable_directory H path =
     Option.bind
       (List.find (\<lambda>candidate. case ho_metadata H candidate of
            Inl e \<Rightarrow> ie_kind e = KindPermissionDenied | Inr _ \<Rightarrow> False) (rev (path_ancestors path)))
       path_parent"

fun io_kind_debug :: "io_kind \<Rightarrow> string" where
  "io_kind_debug KindNotFound = ''NotFound''"
| "io_kind_debug KindPermissionDenied = ''PermissionDenied''"
| "io_kind_debug (KindOther d) = d"

definition em_dash :: string where
  "em_dash = [CHR 0xE2, CHR 0x80, CHR 0x94]"

definition classify_io_error :: "host \<Rightarrow> string \<Rightarrow> io_error \<Rightarrow> bool \<Rightarrow> script_error" where
  "classify_io_error H script_path e at_spawn =
     (let identity = process_identity H in
      case ie_kind e of
        KindNotFound \<Rightarrow> ScriptError ScriptNotFound
          (diagnostic script_path ''No such file or directory (ENOENT)''
            ''The path does not exist. Deploy the script there, or correct the hook's script_path.'')
      | KindPermissionDenied \<Rightarrow>
          let remedy = (case first_unsearchable_directory H script_path of
                Some dir \<Rightarrow> ''Running as '' @ identity @ '', which cannot search the directory ''
                  @ single_quoted dir
                  @ ''. Grant traverse permission on it and every parent (chmod +x), or adjust ownership.''
              | None \<Rightarrow>
                  if at_spawn then ''Running as '' @ identity
                    @ ''. The file is reachable but exec was refused '' @ em_dash
                    @ '' check the execution bit (chmod +x '' @ single_quoted script_path @ ''), that ''
                    @ identity @ '' owns it or matches its group, and that its filesystem is not mounted ''
                    @ single_quoted ''noexec'' @ ''.''
                  else ''Running as '' @ identity @ ''. Check the execution bit (chmod +x ''
                    @ single_quoted script_path
                    @ '') and the user/group ownership of the script and its parent directories.'')
          in ScriptError ScriptPermissionDenied
               (diagnostic script_path ''Permission denied (EACCES)'' remedy)
      | KindOther d \<Rightarrow> ScriptError Unusable
          (diagnostic script_path (ie_text e @ '' (os error kind: '' @ d @ '')'')
            (''Running as '' @ identity @ ''. Inspect the path with '' @ single_quoted ''ls -l''
             @ '' and '' @ single_quoted ''stat'' @ ''.'')))"

section \<open>Checks before a hook runs\<close>

fun octal_text :: "nat \<Rightarrow> string" where
  "octal_text n =
     (if n < 8 then [char_of (48 + n)] else octal_text (n div 8) @ [char_of (48 + n mod 8)])"

declare octal_text.simps [simp del]

definition pad_left :: "nat \<Rightarrow> string \<Rightarrow> string" where
  "pad_left w s = replicate (w - length s) (CHR ''0'') @ s"

definition has_execute_bit :: "nat \<Rightarrow> bool" where
  "has_execute_bit mode \<longleftrightarrow> (word_of_nat mode AND (73 :: 32 word)) \<noteq> 0 \<comment> \<open>octal 111\<close>"

definition ensure_executable :: "host \<Rightarrow> string \<Rightarrow> string list \<Rightarrow> script_error + unit" where
  "ensure_executable H script_path allowed_roots =
     (case ho_canonicalize H script_path of
        Inl e \<Rightarrow> Inl (classify_io_error H script_path e False)
      | Inr canonical \<Rightarrow>
          if \<not> is_within_roots (path_components canonical) allowed_roots
          then Inl (ScriptError OutsideAllowedRoots (diagnostic script_path
            (''it resolves to '' @ single_quoted canonical @ '', which is outside the allowed script roots'')
            (''Allowed roots are: '' @ describe_roots allowed_roots
             @ ''. Move the script inside one of them, or extend ALLOWED_SCRIPT_ROOTS. (A symlink pointing outside the roots is rejected here even when its own path looks contained.)'')))
          else case ho_metadata H canonical of
            Inl e \<Rightarrow> Inl (classify_io_error H script_path e False)
          | Inr (is_file, mode) \<Rightarrow>
              if \<not> is_file
              then Inl (ScriptError NotARegularFile (diagnostic script_path
                ''not a regular file (it is a directory, socket, or device node)''
                ''Point script_path at an executable file.''))
              else if \<not> has_execute_bit mode
              then Inl (ScriptError NotExecutable (diagnostic script_path
                (''the file exists but has no execute bit set (mode ''
                 @ pad_left 4 (octal_text (mode mod 4096)) @ '')'')
                (''Run '' @ single_quoted (''chmod +x '' @ script_path) @ '' and ensure ''
                 @ process_identity H @ '' owns it or matches its group.'')))
              else Inr ())"

definition sudo_error :: "string \<Rightarrow> string \<Rightarrow> string \<Rightarrow> script_error" where
  "sudo_error run_as_user cause remedy =
     ScriptError SudoUnavailable (''[ERROR] Cannot run this hook as '' @ single_quoted run_as_user
       @ '': '' @ cause @ ''. '' @ remedy)"

definition ensure_sudo_available :: "host \<Rightarrow> string \<Rightarrow> script_error + unit" where
  "ensure_sudo_available H run_as_user =
     (case ho_metadata H SUDO_BINARY of
        Inl e \<Rightarrow>
          (if ie_kind e = KindNotFound
           then Inl (sudo_error run_as_user (single_quoted SUDO_BINARY @ '' does not exist'')
             ''Install sudo, or clear the hook's run_as_user to run it as the daemon user.'')
           else Inl (sudo_error run_as_user
             (single_quoted SUDO_BINARY @ '' is not accessible ('' @ ie_text e @ '')'')
             ''Check that the daemon user can reach it.''))
      | Inr (is_file, mode) \<Rightarrow>
          if \<not> has_execute_bit mode
          then Inl (sudo_error run_as_user (single_quoted SUDO_BINARY @ '' is not executable'')
            ''Restore its permissions (normally 4755).'')
          else Inr ())"

definition ensure_runnable :: "host \<Rightarrow> hook \<Rightarrow> runtime_config \<Rightarrow> script_error + unit" where
  "ensure_runnable H h cfg =
     check (case effective_run_as_user (hk_run_as_user h) of
              Some user \<Rightarrow> check (validate_run_as_user user) (\<lambda>_. ensure_sudo_available H user)
            | None \<Rightarrow> Inr ()) (\<lambda>_.
     ensure_executable H (hk_script_path h) (cf_allowed_script_roots cfg))"

section \<open>The concurrency limiter\<close>

text \<open>
  \<open>KeyBudget\<close> holds a reference to its semaphore; semaphores are numbered, and \<open>lm_free\<close> is each
  one's available permits.  A permit is the number of the semaphore it was taken from.
\<close>

record key_budget =
  kb_permits :: nat
  kb_semaphore :: nat

record limiter =
  lm_budgets :: "uuid \<Rightarrow> key_budget option"
  lm_free :: "nat \<Rightarrow> nat"
  lm_next :: nat

definition limiter_new :: limiter where
  "limiter_new = \<lparr>lm_budgets = (\<lambda>_. None), lm_free = (\<lambda>_. 0), lm_next = 0\<rparr>"

definition key_permits :: "api_key \<Rightarrow> nat" where
  "key_permits key = nat (max (ak_max_concurrent_jobs key) 1)"

definition new_budget :: "uuid \<Rightarrow> nat \<Rightarrow> limiter \<Rightarrow> limiter" where
  "new_budget i permits L =
     L\<lparr>lm_budgets := (lm_budgets L)(i \<mapsto> \<lparr>kb_permits = permits, kb_semaphore = lm_next L\<rparr>),
       lm_free := (lm_free L)(lm_next L := permits), lm_next := Suc (lm_next L)\<rparr>"

definition budget_for :: "uuid \<Rightarrow> nat \<Rightarrow> limiter \<Rightarrow> limiter" where
  "budget_for i permits L =
     (case lm_budgets L i of
        None \<Rightarrow> new_budget i permits L
      | Some entry \<Rightarrow> if kb_permits entry \<noteq> permits then new_budget i permits L else L)"

definition try_acquire :: "api_key \<Rightarrow> limiter \<Rightarrow> nat result \<times> limiter" where
  "try_acquire key L =
     (let permits = key_permits key;
          L = budget_for (ak_id key) permits L;
          semaphore = (case lm_budgets L (ak_id key) of Some entry \<Rightarrow> kb_semaphore entry | None \<Rightarrow> 0)
      in if lm_free L semaphore > 0
         then (Inr semaphore, L\<lparr>lm_free := (lm_free L)(semaphore := lm_free L semaphore - 1)\<rparr>)
         else (Inl (TooManyRequests (''Concurrency limit reached for this API key ('' @ nat_text permits
                 @ '' simultaneous job(s) allowed)'')), L))"

text \<open>Dropping the permit.\<close>

definition release :: "nat \<Rightarrow> limiter \<Rightarrow> limiter" where
  "release semaphore L = L\<lparr>lm_free := (lm_free L)(semaphore := Suc (lm_free L semaphore))\<rparr>"

section \<open>Capturing output\<close>

record captured_stream =
  cs_bytes :: bytes
  cs_truncated :: bool

fun pump :: "read_event list \<Rightarrow> nat \<Rightarrow> captured_stream \<Rightarrow> captured_stream" where
  "pump [] limit sink = sink"
| "pump (ReadErr # r) limit sink = sink"
| "pump (ReadOk buf # r) limit sink =
     (if buf = [] then sink
      else let remaining = limit - length (cs_bytes sink)
           in pump r limit
                (if remaining = 0 then sink\<lparr>cs_truncated := True\<rparr>
                 else if length buf > remaining
                 then sink\<lparr>cs_bytes := cs_bytes sink @ take remaining buf, cs_truncated := True\<rparr>
                 else sink\<lparr>cs_bytes := cs_bytes sink @ buf\<rparr>))"

definition truncation_notice :: string where
  "truncation_notice = newline # ''[output truncated: exceeded MAX_OUTPUT_BYTES]''"

definition finish_stream :: "captured_stream \<Rightarrow> string" where
  "finish_stream sink =
     utf8_lossy (cs_bytes sink) @ (if cs_truncated sink then truncation_notice else [])"

definition capture :: "read_event list \<Rightarrow> nat \<Rightarrow> string" where
  "capture events limit = finish_stream (pump events limit \<lparr>cs_bytes = [], cs_truncated = False\<rparr>)"

section \<open>Running a process\<close>

record execution_outcome =
  eo_status :: execution_status
  eo_exit_code :: "int option"
  eo_stdout :: string
  eo_stderr :: string
  eo_duration_ms :: int

fun exit_code_of :: "exit_status \<Rightarrow> int option" where
  "exit_code_of (ExitCode c) = Some c"
| "exit_code_of (ExitSignal s) = Some (128 + s)"

definition elapsed_ms :: "nat \<Rightarrow> int" where
  "elapsed_ms ms = (if int ms \<le> 2147483647 then int ms else 2147483647)"

definition wait_child :: "child \<Rightarrow> nat \<Rightarrow> execution_status \<times> int option" where
  "wait_child c timeout =
     (if (case ch_runs_for c of None \<Rightarrow> True | Some ms \<Rightarrow> ms > 1000 * timeout)
      then (Timeout, Option.bind (ch_after_kill c) exit_code_of)
      else case ch_exit c of
        Some exit \<Rightarrow> (if exit = ExitCode 0 then Success else Failed, exit_code_of exit)
      | None \<Rightarrow> (Failed, None))"

definition run_process :: "host \<Rightarrow> command_plan \<Rightarrow> nat \<Rightarrow> nat \<Rightarrow> execution_outcome" where
  "run_process H plan timeout max_output_bytes =
     (case ho_spawn H plan of
        Inl e \<Rightarrow>
          \<lparr>eo_status = Failed, eo_exit_code = None, eo_stdout = [],
           eo_stderr = se_detail (classify_io_error H (cp_program plan) e True),
           eo_duration_ms = elapsed_ms (ho_elapsed_ms H)\<rparr>
      | Inr c \<Rightarrow>
          let (status, exit_code) = wait_child c timeout
          in \<lparr>eo_status = status, eo_exit_code = exit_code,
              eo_stdout = capture (ch_stdout c) max_output_bytes,
              eo_stderr = capture (ch_stderr c) max_output_bytes,
              eo_duration_ms = elapsed_ms (ho_elapsed_ms H)\<rparr>)"

section \<open>Executing a hook\<close>

definition to_json_string :: "externals \<Rightarrow> resolved_parameters \<Rightarrow> string" where
  "to_json_string X resolved =
     x_json_text X (JObject
       (fold (\<lambda>(k, v). object_insert k (JString v)) (rp_values resolved) []))"

text \<open>
  What happens before the child runs: the permit is taken after the host checks, and dropped when the
  command plan fails.  \<open>None\<close> is the permit of a keyless run.
\<close>

definition begin_execution ::
  "env \<Rightarrow> host \<Rightarrow> hook \<Rightarrow> api_key option \<Rightarrow> resolved_parameters \<Rightarrow> limiter \<Rightarrow>
     (nat option \<times> command_plan) result \<times> limiter" where
  "begin_execution E H h key resolved L =
     attempt (script_error_to_app (ensure_runnable H h (ev_config E))) L (\<lambda>_.
     and_then (case key of
                 Some key \<Rightarrow> and_then (try_acquire key L) (\<lambda>p L. (Inr (Some p), L))
               | None \<Rightarrow> (Inr None, L)) (\<lambda>permit L.
     case script_error_to_app (build_command_plan (ho_env H) h resolved (ev_config E)) of
       Inl e \<Rightarrow> (Inl e, case permit of Some p \<Rightarrow> release p L | None \<Rightarrow> L)
     | Inr plan \<Rightarrow> (Inr (permit, plan), L)))"

definition execution_record ::
  "env \<Rightarrow> hook \<Rightarrow> api_key option \<Rightarrow> resolved_parameters \<Rightarrow> execution_outcome \<Rightarrow> execution" where
  "execution_record E h key resolved outcome =
     \<lparr>ex_id = ev_uuid E 0, ex_hook_id = hk_id h, ex_api_key_id = map_option ak_id key,
      ex_status = eo_status outcome, ex_exit_code = eo_exit_code outcome,
      ex_stdout = eo_stdout outcome, ex_stderr = eo_stderr outcome,
      ex_parameters_json = to_json_string (ev_ext E) resolved,
      ex_duration_ms = eo_duration_ms outcome, ex_timestamp = ev_now E 0\<rparr>"

definition execute_hook ::
  "env \<Rightarrow> host \<Rightarrow> hook \<Rightarrow> api_key option \<Rightarrow> resolved_parameters \<Rightarrow> limiter \<times> database \<Rightarrow>
     execution result \<times> (limiter \<times> database)" where
  "execute_hook E H h key resolved s =
     (case begin_execution E H h key resolved (fst s) of
        (Inl e, L) \<Rightarrow> (Inl e, (L, snd s))
      | (Inr (permit, plan), L) \<Rightarrow>
          let outcome = run_process H plan
                (timeout_for (ev_config E) (hk_default_timeout_seconds h))
                (cf_max_output_bytes (ev_config E));
              record = execution_record E h key resolved outcome;
              (answer, db) = (case insert_exec record (snd s) of
                   Inl e \<Rightarrow> (Inl (DbError e), snd s)
                 | Inr db \<Rightarrow> (Inr record, db))
          in (answer, (case permit of Some p \<Rightarrow> release p L | None \<Rightarrow> L, db)))"

section \<open>The captured output\<close>

text \<open>What the pipe delivers until it closes or fails.\<close>

fun delivered :: "read_event list \<Rightarrow> bytes" where
  "delivered [] = []"
| "delivered (ReadErr # r) = []"
| "delivered (ReadOk buf # r) = (if buf = [] then [] else buf @ delivered r)"

lemma pump_spec:
  "length (cs_bytes sink) \<le> limit \<Longrightarrow>
     cs_bytes (pump events limit sink) = take limit (cs_bytes sink @ delivered events)
     \<and> (cs_truncated (pump events limit sink) \<longleftrightarrow>
          cs_truncated sink \<or> limit < length (cs_bytes sink) + length (delivered events))"
proof (induction events limit sink rule: pump.induct)
  case (3 buf r limit sink)
  show ?case
  proof (cases "buf = []")
    case True
    with "3.prems" show ?thesis by simp
  next
    case False
    let ?rem = "limit - length (cs_bytes sink)"
    let ?sink = "if ?rem = 0 then sink\<lparr>cs_truncated := True\<rparr>
      else if length buf > ?rem
      then sink\<lparr>cs_bytes := cs_bytes sink @ take ?rem buf, cs_truncated := True\<rparr>
      else sink\<lparr>cs_bytes := cs_bytes sink @ buf\<rparr>"
    have le: "length (cs_bytes ?sink) \<le> limit" using "3.prems" by auto
    from "3.IH"[OF False refl le] False "3.prems" show ?thesis
      by (cases "?rem = 0"; cases "length buf > ?rem") auto
  qed
qed auto

section \<open>Permits\<close>

text \<open>
  The life of the limiter: jobs take permits and drop them.  \<open>held\<close> is the list of permits taken and
  not yet dropped.
\<close>

inductive limiter_step :: "limiter \<times> nat list \<Rightarrow> limiter \<times> nat list \<Rightarrow> bool" where
  acquire: "try_acquire key L = (Inr p, L') \<Longrightarrow> limiter_step (L, held) (L', p # held)"
| refused: "try_acquire key L = (Inl e, L') \<Longrightarrow> limiter_step (L, held) (L', held)"
| dropped: "p \<in> set held \<Longrightarrow> limiter_step (L, held) (release p L, remove1 p held)"

definition limiter_ok :: "limiter \<times> nat list \<Rightarrow> bool" where
  "limiter_ok s \<longleftrightarrow> (\<forall>p\<in>set (snd s). p < lm_next (fst s))
     \<and> (\<forall>i b. lm_budgets (fst s) i = Some b \<longrightarrow> kb_semaphore b < lm_next (fst s)
          \<and> lm_free (fst s) (kb_semaphore b) + count_list (snd s) (kb_semaphore b) = kb_permits b)"

lemma new_budget_ok:
  assumes "limiter_ok (L, held)"
  shows "limiter_ok (new_budget i n L, held)"
proof -
  have "count_list held (lm_next L) = 0"
    using assms by (auto simp: limiter_ok_def count_list_0_iff)
  with assms show ?thesis by (fastforce simp: limiter_ok_def new_budget_def less_Suc_eq)
qed

lemma budget_for_ok:
  assumes "limiter_ok (L, held)"
  shows "limiter_ok (budget_for i n L, held)
    \<and> (\<exists>b. lm_budgets (budget_for i n L) i = Some b \<and> kb_permits b = n)"
  using assms new_budget_ok[OF assms, of i n]
  by (auto simp: budget_for_def new_budget_def split: option.splits)

lemma try_acquire_cases:
  assumes "limiter_ok (L, held)"
  shows "\<exists>b. lm_budgets (snd (try_acquire key L)) (ak_id key) = Some b \<and> kb_permits b = key_permits key
    \<and> limiter_ok (budget_for (ak_id key) (key_permits key) L, held)
    \<and> (case try_acquire key L of
         (Inr p, L') \<Rightarrow> p = kb_semaphore b \<and> count_list held p < key_permits key
           \<and> L' = (budget_for (ak_id key) (key_permits key) L)\<lparr>lm_free :=
               (lm_free (budget_for (ak_id key) (key_permits key) L))
                 (p := lm_free (budget_for (ak_id key) (key_permits key) L) p - 1)\<rparr>
           \<and> 0 < lm_free (budget_for (ak_id key) (key_permits key) L) p
       | (Inl e, L') \<Rightarrow> count_list held (kb_semaphore b) = key_permits key
           \<and> L' = budget_for (ak_id key) (key_permits key) L)"
proof -
  let ?L = "budget_for (ak_id key) (key_permits key) L"
  from budget_for_ok[OF assms] obtain b where ok: "limiter_ok (?L, held)"
    and b: "lm_budgets ?L (ak_id key) = Some b" "kb_permits b = key_permits key" by blast
  from ok b have "lm_free ?L (kb_semaphore b) + count_list held (kb_semaphore b) = key_permits key"
    by (auto simp: limiter_ok_def)
  with ok b show ?thesis by (auto simp: try_acquire_def Let_def)
qed

lemma limiter_step_ok:
  assumes "limiter_step s t" and "limiter_ok s"
  shows "limiter_ok t"
  using assms
proof (induction rule: limiter_step.induct)
  case (acquire key L p L' held)
  from try_acquire_cases[OF acquire(2), of key] acquire(1) obtain b where
    b: "lm_budgets L' (ak_id key) = Some b" "p = kb_semaphore b"
    and L': "L' = (budget_for (ak_id key) (key_permits key) L)\<lparr>lm_free :=
      (lm_free (budget_for (ak_id key) (key_permits key) L))
        (p := lm_free (budget_for (ak_id key) (key_permits key) L) p - 1)\<rparr>"
    and pos: "0 < lm_free (budget_for (ak_id key) (key_permits key) L) p"
    and ok: "limiter_ok (budget_for (ak_id key) (key_permits key) L, held)" by auto
  from b L' have "lm_budgets (budget_for (ak_id key) (key_permits key) L) (ak_id key) = Some b" by simp
  with ok pos b(2) show ?case
    by (auto simp: L' limiter_ok_def) (metis Suc_pred add_gr_0)
next
  case (refused key L e L' held)
  with try_acquire_cases[OF refused(2), of key] show ?case by auto
next
  case (dropped p held L)
  have cnt: "count_list (remove1 p held) q = count_list held q - (if q = p then 1 else 0)" for q
    by (induction held) auto
  have pos: "0 < count_list held p" using dropped(1) by (metis count_list_0_iff gr0I)
  show ?case unfolding limiter_ok_def
  proof (intro conjI ballI allI impI)
    fix q assume "q \<in> set (snd (release p L, remove1 p held))"
    then have "q \<in> set held" using set_remove1_subset[of p held] by auto
    with dropped(2) show "q < lm_next (fst (release p L, remove1 p held))"
      by (simp add: limiter_ok_def release_def)
  next
    fix i b assume "lm_budgets (fst (release p L, remove1 p held)) i = Some b"
    then have b: "lm_budgets L i = Some b" by (simp add: release_def)
    with dropped(2) show "kb_semaphore b < lm_next (fst (release p L, remove1 p held))"
      by (auto simp: limiter_ok_def release_def)
    from b dropped(2) have "lm_free L (kb_semaphore b) + count_list held (kb_semaphore b) = kb_permits b"
      by (auto simp: limiter_ok_def)
    with pos show "lm_free (fst (release p L, remove1 p held)) (kb_semaphore b)
        + count_list (snd (release p L, remove1 p held)) (kb_semaphore b) = kb_permits b"
      by (auto simp: release_def cnt)
  qed
qed

lemma limiter_reachable_ok:
  "limiter_step\<^sup>*\<^sup>* (limiter_new, []) s \<Longrightarrow> limiter_ok s"
proof (induction rule: rtranclp_induct)
  case base
  show ?case by (simp add: limiter_ok_def limiter_new_def)
next
  case (step s t)
  then show ?case using limiter_step_ok by blast
qed

lemma ensure_runnable_ok [early_return]:
  "ensure_runnable H h cfg = Inr u \<longleftrightarrow>
     (\<forall>user. effective_run_as_user (hk_run_as_user h) = Some user \<longrightarrow>
        validate_run_as_user user = Inr () \<and> ensure_sudo_available H user = Inr ())
     \<and> (\<exists>canonical mode. ho_canonicalize H (hk_script_path h) = Inr canonical
        \<and> is_within_roots (path_components canonical) (cf_allowed_script_roots cfg)
        \<and> ho_metadata H canonical = Inr (True, mode) \<and> has_execute_bit mode)"
  by (auto simp: ensure_runnable_def ensure_executable_def early_return split: option.splits sum.splits
      if_splits)

section \<open>Properties\<close>

text \<open>
  What is stored of a stream is the text of its first \<open>MAX\_OUTPUT\_BYTES\<close> bytes, whatever the sizes
  of the reads, with the notice exactly when the child wrote more.
\<close>

theorem capture_spec:
  "capture events limit =
     utf8_lossy (take limit (delivered events))
     @ (if limit < length (delivered events) then truncation_notice else [])"
  by (simp add: capture_def finish_stream_def pump_spec)

text \<open>
  In every history of jobs taking and dropping permits, a key that asks for one is measured
  against its current \<open>max\_concurrent\_jobs\<close> (at least 1): it gets a permit of its current budget only
  while fewer than that many permits of this budget are held, and is refused only when all are.
\<close>

theorem concurrency_bounded:
  assumes "limiter_step\<^sup>*\<^sup>* (limiter_new, []) (L, held)"
    and "try_acquire key L = (r, L')"
  shows "\<exists>b. lm_budgets L' (ak_id key) = Some b \<and> kb_permits b = key_permits key
   \<and> (case r of
        Inr p \<Rightarrow> p = kb_semaphore b \<and> count_list held p < key_permits key
      | Inl e \<Rightarrow> count_list held (kb_semaphore b) = key_permits key)"
  using try_acquire_cases[OF limiter_reachable_ok[OF assms(1)], of key] assms(2)
  by (cases r) auto

theorem concurrency_bounded_witness:
  "\<exists>L' b. try_acquire ci_key limiter_new = (Inr 0, L') \<and> lm_budgets L' 3 = Some b \<and> kb_permits b = 2"
proof -
  have two: "key_permits ci_key = 2" by (simp add: key_permits_def)
  obtain L' where t: "try_acquire ci_key limiter_new = (Inr 0, L')"
    by (simp add: try_acquire_def budget_for_def new_budget_def limiter_new_def two)
  from concurrency_bounded[OF rtranclp.rtrancl_refl t] two t show ?thesis by auto
qed

section \<open>One execution\<close>

text \<open>What is shown of the bytes a stream delivered, and of the status a child ended with.\<close>

definition printed :: "bytes \<Rightarrow> nat \<Rightarrow> string" where
  "printed out limit =
     utf8_lossy (take limit out)
     @ (if limit < length out then newline # ''[output truncated: exceeded MAX_OUTPUT_BYTES]'' else [])"

definition reported_code :: "exit_status option \<Rightarrow> int option" where
  "reported_code s = (case s of None \<Rightarrow> None | Some (ExitCode c) \<Rightarrow> Some c | Some (ExitSignal n) \<Rightarrow> Some (128 + n))"

lemma capture_printed: "capture events limit = printed (delivered events) limit"
  by (simp add: capture_def finish_stream_def pump_spec printed_def truncation_notice_def)

lemma exit_code_reported: "Option.bind s exit_code_of = reported_code s"
  by (auto simp: reported_code_def split: option.splits exit_status.splits)

lemma wait_child_timeout:
  "ch_runs_for c = None \<or> (\<exists>ms. ch_runs_for c = Some ms \<and> 1000 * t < ms) \<Longrightarrow>
     wait_child c t = (Timeout, reported_code (ch_after_kill c))"
  by (auto simp: wait_child_def exit_code_reported)

lemma wait_child_ends:
  "\<not> (ch_runs_for c = None \<or> (\<exists>ms. ch_runs_for c = Some ms \<and> 1000 * t < ms)) \<Longrightarrow>
     wait_child c t = (if ch_exit c = Some (ExitCode 0) then Success else Failed, reported_code (ch_exit c))"
  by (auto simp: wait_child_def reported_code_def split: option.splits exit_status.splits)

lemma object_insert_keys: "set (map fst (object_insert k v env)) = insert k (set (map fst env))"
  by (induction k v env rule: object_insert.induct) auto

lemma object_insert_distinct: "distinct (map fst env) \<Longrightarrow> distinct (map fst (object_insert k v env))"
  by (induction k v env rule: object_insert.induct) (use object_insert_keys in \<open>auto simp: image_iff\<close>)

lemma object_insert_map: "map_of (object_insert k v env) = (map_of env)(k \<mapsto> v)"
  by (rule ext) (simp add: object_insert_same object_insert_other)

lemma fold_object_insert:
  "distinct (map fst env) \<Longrightarrow>
     distinct (map fst (fold (\<lambda>(k, v). object_insert k (JString v)) kvs env))
   \<and> map_of (fold (\<lambda>(k, v). object_insert k (JString v)) kvs env)
       = (\<lambda>k. case map_of (rev kvs) k of Some v \<Rightarrow> Some (JString v) | None \<Rightarrow> map_of env k)"
  by (induction kvs arbitrary: env)
    (auto simp: object_insert_distinct object_insert_map map_add_def fun_eq_iff split: option.splits)

lemma parameters_stored:
  "\<exists>fields. to_json_string X resolved = x_json_text X (JObject fields) \<and> distinct (map fst fields)
     \<and> map_of fields = (\<lambda>k. map_option JString (map_of (rev (rp_values resolved)) k))"
  unfolding to_json_string_def
  by (rule exI, rule conjI, rule refl)
    (use fold_object_insert[of "[]" "rp_values resolved"] in \<open>auto simp: fun_eq_iff split: option.splits\<close>)

lemma execute_hook_shape:
  assumes "execute_hook E H h key resolved (L, db) = (r, (L', db'))"
  shows "(case r of
       Inl e \<Rightarrow> db' = db
     | Inr record \<Rightarrow> ensure_runnable H h (ev_config E) = Inr ()
         \<and> (\<exists>plan. build_command_plan (ho_env H) h resolved (ev_config E) = Inr plan
            \<and> record = execution_record E h key resolved
                (run_process H plan (timeout_for (ev_config E) (hk_default_timeout_seconds h))
                   (cf_max_output_bytes (ev_config E))))
         \<and> db' = db\<lparr>db_execs := db_execs db @ [record]\<rparr>)
   \<and> (L' = L \<or> (\<exists>k. key = Some k \<and> L' = budget_for (ak_id k) (key_permits k) L))"
proof -
  have taken: "release p L1 = budget_for (ak_id k) (key_permits k) L"
    if "try_acquire k L = (Inr p, L1)" for k p L1
    using that by (auto simp: try_acquire_def release_def Let_def split: if_splits)
  have refused: "L1 = budget_for (ak_id k) (key_permits k) L"
    if "try_acquire k L = (Inl e, L1)" for k e L1
    using that by (auto simp: try_acquire_def Let_def split: if_splits)
  show ?thesis
  proof (cases "ensure_runnable H h (ev_config E)")
    case (Inl e)
    with assms show ?thesis
      by (auto simp: execute_hook_def begin_execution_def script_error_to_app_def)
  next
    case (Inr u)
    then have run: "script_error_to_app (ensure_runnable H h (ev_config E)) = Inr ()"
      by (simp add: script_error_to_app_def)
    show ?thesis
    proof (cases key)
      case None
      with assms Inr run show ?thesis
        by (auto simp: execute_hook_def begin_execution_def script_error_to_app_def insert_exec_def Let_def
            split: sum.splits if_splits)
    next
      case (Some k)
      show ?thesis
      proof (cases "try_acquire k L")
        case (Pair a L1)
        with assms Some Inr run taken[of k] refused[of k] show ?thesis
          by (cases a)
            (auto simp: execute_hook_def begin_execution_def script_error_to_app_def insert_exec_def Let_def
              split: sum.splits if_splits)
      qed
    qed
  qed
qed

lemma list_ex_key: "list_ex (\<lambda>e. f e = x) l \<longleftrightarrow> x \<in> f ` set l"
  by (force simp: list_ex_iff)

lemma execute_hook_error:
  assumes "execute_hook E H h key resolved (L, db) = (Inl e, s)"
  shows "(\<exists>d. ensure_runnable H h (ev_config E) = Inl d \<and> e = InvalidInput (se_detail d))
   \<or> (\<exists>k. key = Some k \<and> fst (try_acquire k L) = Inl e)
   \<or> (\<exists>d. build_command_plan (ho_env H) h resolved (ev_config E) = Inl d \<and> e = InvalidInput (se_detail d))
   \<or> (\<exists>d. e = DbError d \<and> (ev_uuid E 0 \<in> ex_id ` set (db_execs db) \<or> hk_id h \<notin> hk_id ` set (db_hooks db)
        \<or> (\<exists>k. key = Some k \<and> ak_id k \<notin> ak_id ` set (db_keys db))))"
proof (cases "fst (begin_execution E H h key resolved L)")
  case (Inl e')
  with assms have "fst (begin_execution E H h key resolved L) = Inl e"
    by (auto simp: execute_hook_def split: prod.splits)
  then show ?thesis
    by (auto simp: begin_execution_def attempt_def and_then_def script_error_to_app_def
        split: sum.splits option.splits prod.splits)
next
  case (Inr x)
  with assms obtain out d where "insert_exec (execution_record E h key resolved out) db = Inl d" "e = DbError d"
    by (auto simp: execute_hook_def Let_def split: prod.splits sum.splits)
  moreover from this(1) have "ex_id (execution_record E h key resolved out) \<in> ex_id ` set (db_execs db)
      \<or> hk_id h \<notin> hk_id ` set (db_hooks db) \<or> \<not> nullable_fk_ok (map_option ak_id key) db"
    by (simp only: insert_exec_def list_ex_key split: if_splits) (simp_all add: execution_record_def)
  moreover have "ex_id (execution_record E h key resolved out) = ev_uuid E 0"
    by (simp add: execution_record_def)
  moreover have "nullable_fk_ok (map_option ak_id key) db \<longleftrightarrow>
      \<not> (\<exists>k. key = Some k \<and> ak_id k \<notin> ak_id ` set (db_keys db))"
    by (simp only: nullable_fk_ok_def list_ex_key split: option.split) auto
  ultimately show ?thesis by auto
qed

text \<open>
  C26. Executing a hook.  An error stores nothing, and comes from the host checks, from the limiter, from
  the command plan, or from a record that the execution table cannot take.  A success appends one record
  of this hook and this key, stamped with the start time, with the resolved parameters as the fields of a
  JSON object: a spawn that fails is stored as failed with its diagnosis; otherwise each stream is the
  text of the first \<open>MAX\_OUTPUT\_BYTES\<close> bytes it delivered, with a notice exactly when there were more,
  the status is a timeout exactly when the child outlived the timeout of the hook (30 seconds when that is
  not positive), a success exactly when it then ended with code zero, and the exit code is the one waited
  for, 128 more than the signal for a killed child.  The permit is returned on every path: the
  limiter is as before but for a budget of the key's current size.
\<close>

theorem execute_hook_spec:
  assumes "execute_hook E H h key resolved (L, db) = (r, (L', db'))"
  shows "(case r of
       Inl e \<Rightarrow> db' = db
         \<and> ((\<exists>d. ensure_runnable H h (ev_config E) = Inl d \<and> e = InvalidInput (se_detail d))
          \<or> (\<exists>k. key = Some k \<and> fst (try_acquire k L) = Inl e)
          \<or> (\<exists>d. build_command_plan (ho_env H) h resolved (ev_config E) = Inl d \<and> e = InvalidInput (se_detail d))
          \<or> (\<exists>d. e = DbError d
               \<and> (ev_uuid E 0 \<in> ex_id ` set (db_execs db) \<or> hk_id h \<notin> hk_id ` set (db_hooks db)
                 \<or> (\<exists>k. key = Some k \<and> ak_id k \<notin> ak_id ` set (db_keys db)))))
     | Inr record \<Rightarrow> ensure_runnable H h (ev_config E) = Inr ()
         \<and> db' = db\<lparr>db_execs := db_execs db @ [record]\<rparr>
         \<and> ex_id record = ev_uuid E 0 \<and> ex_hook_id record = hk_id h
         \<and> ex_api_key_id record = map_option ak_id key \<and> ex_timestamp record = ev_now E 0
         \<and> ex_duration_ms record = min (int (ho_elapsed_ms H)) 2147483647
         \<and> (\<exists>fields. ex_parameters_json record = x_json_text (ev_ext E) (JObject fields)
              \<and> distinct (map fst fields)
              \<and> map_of fields = (\<lambda>k. map_option JString (map_of (rev (rp_values resolved)) k)))
         \<and> (\<exists>plan. build_command_plan (ho_env H) h resolved (ev_config E) = Inr plan
              \<and> (case ho_spawn H plan of
                   Inl d \<Rightarrow> ex_status record = Failed \<and> ex_exit_code record = None \<and> ex_stdout record = []
                     \<and> ex_stderr record = se_detail (classify_io_error H (cp_program plan) d True)
                 | Inr c \<Rightarrow>
                     ex_stdout record = printed (delivered (ch_stdout c)) (cf_max_output_bytes (ev_config E))
                   \<and> ex_stderr record = printed (delivered (ch_stderr c)) (cf_max_output_bytes (ev_config E))
                   \<and> (if ch_runs_for c = None \<or> (\<exists>ms. ch_runs_for c = Some ms
                           \<and> 1000 * (if hk_default_timeout_seconds h > 0
                                     then nat (hk_default_timeout_seconds h) else 30) < ms)
                      then ex_status record = Timeout \<and> ex_exit_code record = reported_code (ch_after_kill c)
                      else ex_status record = (if ch_exit c = Some (ExitCode 0) then Success else Failed)
                        \<and> ex_exit_code record = reported_code (ch_exit c)))))
   \<and> (L' = L \<or> (\<exists>k. key = Some k \<and> L' = budget_for (ak_id k) (key_permits k) L))"
proof (cases r)
  case (Inl e)
  with execute_hook_shape[OF assms] execute_hook_error[of E H h key resolved L db e] assms show ?thesis by simp
next
  case (Inr stored)
  let ?t = "timeout_for (ev_config E) (hk_default_timeout_seconds h)"
  have t: "?t = (if hk_default_timeout_seconds h > 0 then nat (hk_default_timeout_seconds h) else 30)"
    by (simp add: timeout_for_def FALLBACK_TIMEOUT_SECONDS_def)
  from execute_hook_shape[OF assms] Inr obtain plan where
    plan: "build_command_plan (ho_env H) h resolved (ev_config E) = Inr plan"
    and rec: "stored = execution_record E h key resolved
      (run_process H plan ?t (cf_max_output_bytes (ev_config E)))" by auto
  have fields: "ex_id stored = ev_uuid E 0 \<and> ex_hook_id stored = hk_id h
      \<and> ex_api_key_id stored = map_option ak_id key \<and> ex_timestamp stored = ev_now E 0
      \<and> ex_parameters_json stored = to_json_string (ev_ext E) resolved"
    by (simp add: rec execution_record_def)
  have duration: "ex_duration_ms stored = min (int (ho_elapsed_ms H)) 2147483647"
    by (auto simp: rec execution_record_def run_process_def elapsed_ms_def Let_def
        split: sum.splits prod.splits)
  have ends: "if ch_runs_for c = None \<or> (\<exists>ms. ch_runs_for c = Some ms \<and> 1000 * ?t < ms)
      then ex_status stored = Timeout \<and> ex_exit_code stored = reported_code (ch_after_kill c)
      else ex_status stored = (if ch_exit c = Some (ExitCode 0) then Success else Failed)
        \<and> ex_exit_code stored = reported_code (ch_exit c)"
    if "ho_spawn H plan = Inr c" for c
  proof -
    have "(ex_status stored, ex_exit_code stored) = wait_child c ?t"
      using that by (auto simp: rec execution_record_def run_process_def Let_def split: prod.splits)
    then show ?thesis
      by (cases "ch_runs_for c = None \<or> (\<exists>ms. ch_runs_for c = Some ms \<and> 1000 * ?t < ms)")
        (simp_all only: wait_child_timeout wait_child_ends prod.inject if_True if_False simp_thms)
  qed
  have outcome: "case ho_spawn H plan of
      Inl d \<Rightarrow> ex_status stored = Failed \<and> ex_exit_code stored = None \<and> ex_stdout stored = []
        \<and> ex_stderr stored = se_detail (classify_io_error H (cp_program plan) d True)
    | Inr c \<Rightarrow> ex_stdout stored = printed (delivered (ch_stdout c)) (cf_max_output_bytes (ev_config E))
        \<and> ex_stderr stored = printed (delivered (ch_stderr c)) (cf_max_output_bytes (ev_config E))
        \<and> (if ch_runs_for c = None \<or> (\<exists>ms. ch_runs_for c = Some ms
                           \<and> 1000 * (if hk_default_timeout_seconds h > 0
                                     then nat (hk_default_timeout_seconds h) else 30) < ms)
           then ex_status stored = Timeout \<and> ex_exit_code stored = reported_code (ch_after_kill c)
           else ex_status stored = (if ch_exit c = Some (ExitCode 0) then Success else Failed)
             \<and> ex_exit_code stored = reported_code (ch_exit c))"
  proof (cases "ho_spawn H plan")
    case (Inl d)
    then show ?thesis by (simp add: rec execution_record_def run_process_def)
  next
    case (Inr c)
    then have "ex_stdout stored = printed (delivered (ch_stdout c)) (cf_max_output_bytes (ev_config E))
        \<and> ex_stderr stored = printed (delivered (ch_stderr c)) (cf_max_output_bytes (ev_config E))"
      by (simp add: rec execution_record_def run_process_def capture_printed Let_def split: prod.splits)
    with ends[OF Inr] Inr show ?thesis unfolding t by simp
  qed
  have "ensure_runnable H h (ev_config E) = Inr ()" "db' = db\<lparr>db_execs := db_execs db @ [stored]\<rparr>"
    "L' = L \<or> (\<exists>k. key = Some k \<and> L' = budget_for (ak_id k) (key_permits k) L)"
    using execute_hook_shape[OF assms] Inr by auto
  then show ?thesis
    unfolding Inr sum.case using plan fields duration outcome parameters_stored[of "ev_ext E" resolved]
    by (intro conjI) (simp only: | blast)+
qed

text \<open>A host where every path is an executable file and every child answers at once.\<close>

definition demo_host :: host where
  "demo_host =
     \<lparr>ho_env = (\<lambda>_. None), ho_uid = 1000, ho_gid = 1000, ho_canonicalize = Inr,
      ho_metadata = (\<lambda>_. Inr (True, 493)),
      ho_spawn = (\<lambda>_. Inr \<lparr>ch_stdout = [ReadOk ''ok''], ch_stderr = [], ch_runs_for = Some 5,
         ch_exit = Some (ExitCode 0), ch_after_kill = None\<rparr>),
      ho_elapsed_ms = 5\<rparr>"

definition demo_plan :: command_plan where
  "demo_plan = \<lparr>cp_program = ''/opt/ban.sh'', cp_args = [], cp_env = [], cp_run_as_user = None\<rparr>"

lemma demo_runs_as_daemon: "effective_run_as_user (hk_run_as_user deploy_hook) = None"
  by (simp add: deploy_hook_def effective_run_as_user_def)

lemma demo_runnable: "ensure_runnable demo_host deploy_hook (ev_config demo_env) = Inr ()"
  by (simp add: early_return demo_runs_as_daemon demo_host_def demo_env_def default_config_def is_within_roots_def
      has_execute_bit_def)

lemma demo_plan_built:
  "build_command_plan (ho_env demo_host) deploy_hook \<lparr>rp_values = [], rp_missing_required = []\<rparr> (ev_config demo_env)
     = Inr demo_plan"
  by (simp add: build_command_plan_def demo_runs_as_daemon)
    (simp add: deploy_hook_def ban_hook_def host_environment_def param_environment_def demo_host_def
      List.map_filter_def demo_plan_def)

theorem execute_hook_spec_witness:
  "\<exists>stored L' db'.
     execute_hook demo_env demo_host deploy_hook (Some ci_key)
       \<lparr>rp_values = [], rp_missing_required = []\<rparr> (limiter_new, demo_db) = (Inr stored, (L', db'))
     \<and> db_execs db' = [stored] \<and> ex_status stored = Success \<and> ex_exit_code stored = Some 0
     \<and> ex_stdout stored = ''ok'' \<and> ex_stderr stored = [] \<and> ex_api_key_id stored = Some (ak_id ci_key)"
proof -
  let ?r = "\<lparr>rp_values = [], rp_missing_required = []\<rparr>"
  let ?x = "execute_hook demo_env demo_host deploy_hook (Some ci_key) ?r (limiter_new, demo_db)"
  have runs: "ensure_runnable demo_host deploy_hook (ev_config demo_env) = Inr ()"
    and plan: "build_command_plan (ho_env demo_host) deploy_hook ?r (ev_config demo_env) = Inr demo_plan"
    by (rule demo_runnable demo_plan_built)+
  have two: "key_permits ci_key = 2" by (simp add: key_permits_def)
  obtain L1 where t: "try_acquire ci_key limiter_new = (Inr 0, L1)"
    by (simp add: try_acquire_def budget_for_def new_budget_def limiter_new_def two)
  have begun: "begin_execution demo_env demo_host deploy_hook (Some ci_key) ?r limiter_new
      = (Inr (Some 0, demo_plan), L1)"
    by (simp add: begin_execution_def script_error_to_app_def runs[simplified] plan[simplified] t)
  have ins: "\<exists>db'. insert_exec (execution_record demo_env deploy_hook (Some ci_key) ?r out1) demo_db = Inr db'"
    for out1
    by (simp add: insert_exec_def execution_record_def nullable_fk_ok_def) (simp add: demo_db_def)
  obtain stored L' db' where x: "?x = (Inr stored, (L', db'))"
    using ins[of "run_process demo_host demo_plan
        (timeout_for (ev_config demo_env) (hk_default_timeout_seconds deploy_hook))
        (cf_max_output_bytes (ev_config demo_env))"]
    by (auto simp only: execute_hook_def begun Let_def fst_conv snd_conv prod.case sum.case)
  have spawn: "ho_spawn demo_host demo_plan = Inr \<lparr>ch_stdout = [ReadOk ''ok''], ch_stderr = [],
      ch_runs_for = Some 5, ch_exit = Some (ExitCode 0), ch_after_kill = None\<rparr>"
    and timeout: "hk_default_timeout_seconds deploy_hook = 30"
    and cap: "cf_max_output_bytes default_config = 1024 * 1024"
    by (simp_all add: demo_host_def deploy_hook_def ban_hook_def demo_env_def default_config_def)
  have lossy: "utf8_lossy ''ok'' = ''ok''" "utf8_lossy [] = []" by code_simp+
  from execute_hook_spec[OF x] plan have "db' = demo_db\<lparr>db_execs := db_execs demo_db @ [stored]\<rparr>
      \<and> ex_status stored = Success \<and> ex_exit_code stored = Some 0 \<and> ex_stdout stored = ''ok''
      \<and> ex_stderr stored = [] \<and> ex_api_key_id stored = Some (ak_id ci_key)"
    by (simp add: spawn timeout cap printed_def lossy reported_code_def)
  with x show ?thesis by (auto simp: demo_db_def)
qed

end
