(* ===== verification/Retention.thy ===== *)
theory Retention
  imports Support
begin

text \<open>
  The retention sweeps (\<open>src/retention.rs\<close>).  \<open>None\<close> stands for a panic: chrono refuses an age in
  days that leaves its range.
\<close>

definition DEFAULT_DELETED_HOOK_RETENTION_DAYS :: int where
  "DEFAULT_DELETED_HOOK_RETENTION_DAYS = 92"

definition purge_expired_executions ::
  "externals \<Rightarrow> time \<Rightarrow> int \<Rightarrow> database \<Rightarrow> (nat \<times> database) option" where
  "purge_expired_executions X now retention_days db =
     (if retention_days \<le> 0 then Some (0, db)
      else map_option (\<lambda>threshold. delete_execs (\<lambda>e. ex_timestamp e < threshold) db)
             (x_days_before X now retention_days))"

definition purge_expired_deleted_hooks ::
  "externals \<Rightarrow> time \<Rightarrow> int \<Rightarrow> database \<Rightarrow> (nat \<times> database) option" where
  "purge_expired_deleted_hooks X now retention_days db =
     (if retention_days \<le> 0 then Some (0, db)
      else map_option (\<lambda>threshold.
               delete_hooks (\<lambda>h. hk_is_deleted h
                 \<and> (case hk_deleted_at h of Some t \<Rightarrow> t < threshold | None \<Rightarrow> False)) db)
             (x_days_before X now retention_days))"

text \<open>One tick of \<open>run\_retention\_worker\<close>'s loop; the two sweeps read the clock separately.\<close>

definition retention_tick ::
  "externals \<Rightarrow> runtime_config \<Rightarrow> time \<Rightarrow> time \<Rightarrow> database \<Rightarrow> database option" where
  "retention_tick X cfg now now' db =
     Option.bind (purge_expired_executions X now (cf_log_retention_days cfg) db) (\<lambda>(n, db).
     map_option snd
       (purge_expired_deleted_hooks X now' (cf_deleted_hook_retention_days cfg) db))"

text \<open>
  \<open>run\_retention\_worker\<close> waits for whichever comes first, a tick of its clock or the sender of the shutdown
  channel being dropped; a sweep under way is not interrupted.  \<open>Swept\<close> is a tick with the two times read,
  \<open>Changed\<close> what the requests made of the database in between; a panic of a sweep ends the task.
\<close>

datatype worker = Listening | Stopped | Panicked

datatype worker_event = Swept time time | Changed database | Shutdown

fun worker_step :: "externals \<Rightarrow> runtime_config \<Rightarrow> worker_event \<Rightarrow> worker \<times> database \<Rightarrow> worker \<times> database" where
  "worker_step X cfg (Swept now now') (w, db) =
     (if w \<noteq> Listening then (w, db)
      else case purge_expired_executions X now (cf_log_retention_days cfg) db of
             None \<Rightarrow> (Panicked, db)
           | Some (n, db) \<Rightarrow>
               (case purge_expired_deleted_hooks X now' (cf_deleted_hook_retention_days cfg) db of
                  None \<Rightarrow> (Panicked, db) | Some (n, db) \<Rightarrow> (Listening, db)))"
| "worker_step X cfg (Changed db') (w, db) = (w, db')"
| "worker_step X cfg Shutdown (w, db) = (if w = Listening then Stopped else w, db)"

definition run_retention_worker ::
  "externals \<Rightarrow> runtime_config \<Rightarrow> worker_event list \<Rightarrow> database \<Rightarrow> worker \<times> database" where
  "run_retention_worker X cfg events db = fold (worker_step X cfg) events (Listening, db)"

lemma worker_step_tick:
  "retention_tick X cfg now now' db = Some db' \<longleftrightarrow> worker_step X cfg (Swept now now') (Listening, db) = (Listening, db')"
  by (auto simp: retention_tick_def split: option.splits)

text \<open>Once it has stopped the worker writes nothing: only the requests still change the database.\<close>

lemma stopped_worker_is_silent:
  "w \<noteq> Listening \<Longrightarrow> fold (worker_step X cfg) events (w, db)
     = (w, fold (\<lambda>ev db. case ev of Changed db' \<Rightarrow> db' | _ \<Rightarrow> db) events db)"
proof (induction events arbitrary: db)
  case (Cons ev events)
  then show ?case by (cases ev) auto
qed simp

lemma worker_after_shutdown:
  "\<exists>w d. w \<noteq> Listening \<and> run_retention_worker X cfg (before @ Shutdown # after) db
     = (w, fold (\<lambda>ev db. case ev of Changed db' \<Rightarrow> db' | _ \<Rightarrow> db) after d)"
proof -
  obtain w d where "fold (worker_step X cfg) before (Listening, db) = (w, d)" by fastforce
  then show ?thesis
    using stopped_worker_is_silent[of Stopped X cfg after d] stopped_worker_is_silent[of w X cfg after d]
    by (cases "w = Listening") (auto simp: run_retention_worker_def)
qed

lemma purge_executions_wf:
  "wf_db db \<Longrightarrow> purge_expired_executions X now d db = Some (n, db') \<Longrightarrow> wf_db db'"
  by (auto simp: purge_expired_executions_def split: if_splits dest: delete_execs_wf) (metis delete_execs_wf snd_conv)

lemma purge_hooks_wf:
  "wf_db db \<Longrightarrow> purge_expired_deleted_hooks X now d db = Some (n, db') \<Longrightarrow> wf_db db'"
  by (auto simp: purge_expired_deleted_hooks_def split: if_splits) (metis delete_hooks_wf snd_conv)

section \<open>Properties\<close>

definition older_than :: "externals \<Rightarrow> time \<Rightarrow> int \<Rightarrow> time \<Rightarrow> bool" where
  "older_than X now days t \<longleftrightarrow>
     days > 0 \<and> (case x_days_before X now days of Some limit \<Rightarrow> t < limit | None \<Rightarrow> False)"

definition trash_expired :: "externals \<Rightarrow> time \<Rightarrow> int \<Rightarrow> hook \<Rightarrow> bool" where
  "trash_expired X now days h \<longleftrightarrow>
     hk_is_deleted h \<and> (\<exists>t. hk_deleted_at h = Some t \<and> older_than X now days t)"

lemma purge_executions_rows:
  "purge_expired_executions X now d db = Some (n, db') \<Longrightarrow>
     db' = db\<lparr>db_execs := filter (\<lambda>e. \<not> older_than X now d (ex_timestamp e)) (db_execs db)\<rparr>"
  by (auto simp: purge_expired_executions_def delete_execs_def older_than_def split: if_splits)

lemma purge_hooks_rows:
  assumes "purge_expired_deleted_hooks X now d db = Some (n, db')"
  shows "db' = snd (delete_hooks (trash_expired X now d) db)"
proof (cases "d \<le> 0")
  case True
  then have "trash_expired X now d = (\<lambda>_. False)" by (simp add: trash_expired_def older_than_def fun_eq_iff)
  with True assms show ?thesis by (simp add: purge_expired_deleted_hooks_def delete_hooks_def)
next
  case False
  with assms obtain limit where l: "x_days_before X now d = Some limit"
    by (auto simp: purge_expired_deleted_hooks_def)
  with False have "trash_expired X now d = (\<lambda>h. hk_is_deleted h
      \<and> (case hk_deleted_at h of Some t \<Rightarrow> t < limit | None \<Rightarrow> False))"
    by (auto simp: trash_expired_def older_than_def fun_eq_iff split: option.splits)
  with False l assms show ?thesis by (simp add: purge_expired_deleted_hooks_def)
qed

text \<open>
  A retention tick removes exactly the executions older than the configured age and the hooks
  trashed before the configured age, with the parameters, permissions and executions that cascade
  from them; every other row of every table stays as it is.
\<close>

theorem retention_tick_spec:
  assumes "retention_tick X cfg now now' db = Some db'"
    and "gone = hk_id ` {h \<in> set (db_hooks db). trash_expired X now' (cf_deleted_hook_retention_days cfg) h}"
  shows "db' = db\<lparr>
     db_hooks := filter (\<lambda>h. \<not> trash_expired X now' (cf_deleted_hook_retention_days cfg) h) (db_hooks db),
     db_params := filter (\<lambda>p. hp_hook_id p \<notin> gone) (db_params db),
     db_perms := filter (\<lambda>p. pm_hook_id p \<notin> gone) (db_perms db),
     db_execs := filter (\<lambda>e. \<not> older_than X now (cf_log_retention_days cfg) (ex_timestamp e)
       \<and> ex_hook_id e \<notin> gone) (db_execs db)\<rparr>"
proof -
  from assms(1) obtain n db1 m where
    p1: "purge_expired_executions X now (cf_log_retention_days cfg) db = Some (n, db1)"
    and p2: "purge_expired_deleted_hooks X now' (cf_deleted_hook_retention_days cfg) db1 = Some (m, db')"
    by (auto simp: retention_tick_def bind_eq_Some_conv)
  show ?thesis
    unfolding purge_hooks_rows[OF p2] purge_executions_rows[OF p1] assms(2)
    by (simp add: delete_hooks_def Let_def conj_commute)
qed

theorem retention_tick_spec_witness:
  "\<exists>db'. retention_tick demo_externals default_config 0 0
     \<lparr>db_keys = [], db_hooks = [ban_hook\<lparr>hk_is_deleted := True, hk_deleted_at := Some (-8000000000000000)\<rparr>],
      db_params = [], db_perms = [], db_execs = [], db_audit = []\<rparr> = Some db'
   \<and> db_hooks db' = []"
proof -
  let ?h = "ban_hook\<lparr>hk_is_deleted := True, hk_deleted_at := Some (-8000000000000000)\<rparr>"
  let ?db = "\<lparr>db_keys = [], db_hooks = [?h], db_params = [], db_perms = [], db_execs = [], db_audit = []\<rparr>"
  obtain db' where t: "retention_tick demo_externals default_config 0 0 ?db = Some db'"
    by (simp add: retention_tick_def purge_expired_executions_def purge_expired_deleted_hooks_def
        default_config_def demo_externals_def delete_execs_def)
  have "trash_expired demo_externals 0 (cf_deleted_hook_retention_days default_config) ?h"
    by (simp add: trash_expired_def older_than_def default_config_def demo_externals_def)
  with retention_tick_spec[OF t refl] t show ?thesis by simp
qed

end
