(* ===== verification/Executions.thy ===== *)
theory Executions
  imports Executor_Run Retention
begin

text \<open>
  The execution handlers (\<open>src/api/executions.rs\<close>): running a hook for a request, the dry run, and
  listing, reading, deleting and purging the stored records.
\<close>

section \<open>The view of a record\<close>

record execution_view =
  ev_id :: uuid
  ev_hook_id :: uuid
  ev_hook_name :: string
  ev_api_key_id :: "uuid option"
  ev_api_key_name :: "string option"
  ev_status :: execution_status
  ev_exit_code :: "int option"
  ev_stdout :: string
  ev_stderr :: string
  ev_parameters :: json
  ev_duration_ms :: int
  ev_timestamp :: time

definition execution_view_new ::
  "externals \<Rightarrow> execution \<Rightarrow> string \<Rightarrow> string option \<Rightarrow> execution_view" where
  "execution_view_new X model hook_name api_key_name =
     \<lparr>ev_id = ex_id model, ev_hook_id = ex_hook_id model, ev_hook_name = hook_name,
      ev_api_key_id = ex_api_key_id model, ev_api_key_name = api_key_name,
      ev_status = ex_status model, ev_exit_code = ex_exit_code model, ev_stdout = ex_stdout model,
      ev_stderr = ex_stderr model,
      ev_parameters = (case x_json_parse X (ex_parameters_json model) of
          Inr j \<Rightarrow> j | Inl _ \<Rightarrow> JString (ex_parameters_json model)),
      ev_duration_ms = ex_duration_ms model, ev_timestamp = ex_timestamp model\<rparr>"

section \<open>Running a hook\<close>

definition missing_required_message :: "string list \<Rightarrow> string" where
  "missing_required_message missing = ''Missing required parameter(s): '' @ join '', '' missing"

definition run_hook_request ::
  "env \<Rightarrow> host \<Rightarrow> api_key option \<Rightarrow> string \<Rightarrow> bytes \<Rightarrow> limiter \<times> database \<Rightarrow>
     execution_view result \<times> (limiter \<times> database)" where
  "run_hook_request E H key identifier body s =
     attempt (resolve_hook (ev_ext E) (snd s) identifier) s (\<lambda>hook_model.
     attempt (case key of Some key \<Rightarrow> guard_execute (snd s) key (hk_id hook_model) | None \<Rightarrow> Inr ()) s (\<lambda>_.
     attempt (extract_parameter_map (ev_ext E) body) s (\<lambda>supplied.
     attempt (resolve_parameters (load_parameters (snd s) (hk_id hook_model)) supplied) s (\<lambda>resolved.
     attempt (require (rp_missing_required resolved = [])
       (InvalidInput (missing_required_message (rp_missing_required resolved)))) s (\<lambda>_.
     and_then (execute_hook E H hook_model key resolved s) (\<lambda>stored s.
     (Inr (execution_view_new (ev_ext E) stored (hk_name hook_model) (map_option ak_name key)), s)))))))"

text \<open>Both routes.\<close>

definition execute_hook_endpoint ::
  "env \<Rightarrow> host \<Rightarrow> api_key option \<Rightarrow> string \<Rightarrow> bytes \<Rightarrow> limiter \<times> database \<Rightarrow>
     execution_view result \<times> (limiter \<times> database)" where
  "execute_hook_endpoint E H key identifier body s = run_hook_request E H key identifier body s"

definition webhook_execute ::
  "env \<Rightarrow> host \<Rightarrow> api_key option \<Rightarrow> string \<Rightarrow> bytes \<Rightarrow> limiter \<times> database \<Rightarrow>
     execution_view result \<times> (limiter \<times> database)" where
  "webhook_execute E H key identifier body s = run_hook_request E H key identifier body s"

record test_hook_response =
  thr_hook_id :: uuid
  thr_hook_name :: string
  thr_would_execute :: bool
  thr_blocking_reason :: "string option"
  thr_resolved_parameters :: json
  thr_missing_required :: "string list"
  thr_command :: "command_plan option"
  thr_timeout_seconds :: nat

definition test_hook ::
  "env \<Rightarrow> host \<Rightarrow> api_key option \<Rightarrow> string \<Rightarrow> bytes \<Rightarrow> database \<Rightarrow> test_hook_response result" where
  "test_hook E H key identifier body db =
     check (resolve_hook (ev_ext E) db identifier) (\<lambda>hook_model.
     check (case key of Some key \<Rightarrow> guard_execute db key (hk_id hook_model) | None \<Rightarrow> Inr ()) (\<lambda>_.
     check (extract_parameter_map (ev_ext E) body) (\<lambda>supplied.
     check (resolve_parameters (load_parameters db (hk_id hook_model)) supplied) (\<lambda>resolved.
     let (plan, template_error) =
           (case build_command_plan (ho_env H) hook_model resolved (ev_config E) of
              Inr plan \<Rightarrow> (Some plan, None)
            | Inl e \<Rightarrow> (None, Some (se_detail e)));
         blocking_reason =
           (if rp_missing_required resolved \<noteq> []
            then Some (missing_required_message (rp_missing_required resolved))
            else case template_error of
              Some msg \<Rightarrow> Some msg
            | None \<Rightarrow> (case ensure_runnable H hook_model (ev_config E) of
                Inl diagnosis \<Rightarrow> Some (se_detail diagnosis) | Inr _ \<Rightarrow> None))
     in Inr \<lparr>thr_hook_id = hk_id hook_model, thr_hook_name = hk_name hook_model,
          thr_would_execute = (blocking_reason = None), thr_blocking_reason = blocking_reason,
          thr_resolved_parameters =
            (case x_json_parse (ev_ext E) (to_json_string (ev_ext E) resolved) of
               Inr j \<Rightarrow> j | Inl _ \<Rightarrow> JObject []),
          thr_missing_required = rp_missing_required resolved, thr_command = plan,
          thr_timeout_seconds = timeout_for (ev_config E) (hk_default_timeout_seconds hook_model)\<rparr>))))"

section \<open>Listing\<close>

record execution_query =
  eq_hook :: "string option"
  eq_status :: "string option"
  eq_api_key :: "string option"
  eq_since :: "string option"
  eq_until :: "string option"
  eq_limit :: "nat option"
  eq_offset :: "nat option"

definition DEFAULT_PAGE_LIMIT :: nat where
  "DEFAULT_PAGE_LIMIT = 50"

text \<open>
  \<open>str::to\_uppercase\<close>.  Outside ASCII, the characters whose upper case is ASCII: sharp s, long s, dotless
  i and the seven f and s ligatures; every other one stays outside ASCII and can match no status.
\<close>

fun to_uppercase :: "string \<Rightarrow> string" where
  "to_uppercase [] = []"
| "to_uppercase (c # r) =
     (if prefix [CHR 0xC3, CHR 0x9F] (c # r) then ''SS'' @ to_uppercase (drop 1 r)
      else if prefix [CHR 0xC5, CHR 0xBF] (c # r) then ''S'' @ to_uppercase (drop 1 r)
      else if prefix [CHR 0xC4, CHR 0xB1] (c # r) then ''I'' @ to_uppercase (drop 1 r)
      else if prefix [CHR 0xEF, CHR 0xAC, CHR 0x80] (c # r) then ''FF'' @ to_uppercase (drop 2 r)
      else if prefix [CHR 0xEF, CHR 0xAC, CHR 0x81] (c # r) then ''FI'' @ to_uppercase (drop 2 r)
      else if prefix [CHR 0xEF, CHR 0xAC, CHR 0x82] (c # r) then ''FL'' @ to_uppercase (drop 2 r)
      else if prefix [CHR 0xEF, CHR 0xAC, CHR 0x83] (c # r) then ''FFI'' @ to_uppercase (drop 2 r)
      else if prefix [CHR 0xEF, CHR 0xAC, CHR 0x84] (c # r) then ''FFL'' @ to_uppercase (drop 2 r)
      else if prefix [CHR 0xEF, CHR 0xAC, CHR 0x85] (c # r) then ''ST'' @ to_uppercase (drop 2 r)
      else if prefix [CHR 0xEF, CHR 0xAC, CHR 0x86] (c # r) then ''ST'' @ to_uppercase (drop 2 r)
      else ascii_upper c # to_uppercase r)"

definition parse_status :: "string \<Rightarrow> execution_status result" where
  "parse_status raw =
     (let u = to_uppercase raw
      in if u = ''SUCCESS'' then Inr Success
         else if u = ''FAILED'' then Inr Failed
         else if u = ''TIMEOUT'' then Inr Timeout
         else Inl (InvalidInput (''Invalid status filter '' @ single_quoted u
           @ '': expected SUCCESS, FAILED, or TIMEOUT'')))"

definition resolve_api_key_filter :: "externals \<Rightarrow> database \<Rightarrow> string \<Rightarrow> uuid list" where
  "resolve_api_key_filter X db raw =
     (case x_uuid_parse X raw of
        Some i \<Rightarrow> [i]
      | None \<Rightarrow> map ak_id (filter (\<lambda>k. x_sql_like X (''%'' @ raw @ ''%'') (ak_name k)) (db_keys db)))"

definition filled :: "string option \<Rightarrow> string option" where
  "filled x = filter_opt (\<lambda>s. s \<noteq> []) x"

definition execution_visible :: "database \<Rightarrow> api_key \<Rightarrow> execution \<Rightarrow> bool" where
  "execution_visible db key e \<longleftrightarrow> ak_is_master key \<or> ex_api_key_id e = Some (ak_id key)
     \<or> ex_hook_id e \<in> set (execution_visible_hook_ids db key)"

definition deleted_hook_name :: string where
  "deleted_hook_name = ''(deleted)''"

definition hook_name_of :: "database \<Rightarrow> uuid \<Rightarrow> string" where
  "hook_name_of db i = (case find_hook db i of Some h \<Rightarrow> hk_name h | None \<Rightarrow> deleted_hook_name)"

definition key_name_of :: "database \<Rightarrow> uuid option \<Rightarrow> string option" where
  "key_name_of db r = Option.bind r (\<lambda>i. map_option ak_name (find_key db i))"

definition list_executions ::
  "externals \<Rightarrow> api_key \<Rightarrow> execution_query \<Rightarrow> database \<Rightarrow> execution_view list result" where
  "list_executions X key query db =
     check (case filled (eq_hook query) of
        Some identifier \<Rightarrow>
          check (resolve_hook X db identifier) (\<lambda>hook_model.
          check (guard_visibility db key hook_model) (\<lambda>_. Inr (\<lambda>e. ex_hook_id e = hk_id hook_model)))
      | None \<Rightarrow> Inr (\<lambda>_. True)) (\<lambda>by_hook.
     check (case filled (eq_status query) of
        Some status \<Rightarrow> check (parse_status status) (\<lambda>s. Inr (\<lambda>e. ex_status e = s))
      | None \<Rightarrow> Inr (\<lambda>_. True)) (\<lambda>by_status.
     let by_key = (case filled (eq_api_key query) of
        Some raw \<Rightarrow> (\<lambda>e. case ex_api_key_id e of
            Some i \<Rightarrow> i \<in> set (resolve_api_key_filter X db raw) | None \<Rightarrow> False)
      | None \<Rightarrow> (\<lambda>_. True)) in
     check (case filled (eq_since query) of
        Some since \<Rightarrow> check (parse_instant X ''since'' since) (\<lambda>t. Inr (\<lambda>e. t \<le> ex_timestamp e))
      | None \<Rightarrow> Inr (\<lambda>_. True)) (\<lambda>by_since.
     check (case filled (eq_until query) of
        Some until \<Rightarrow> check (parse_instant X ''until'' until) (\<lambda>t. Inr (\<lambda>e. ex_timestamp e < t))
      | None \<Rightarrow> Inr (\<lambda>_. True)) (\<lambda>by_until.
     let rows = take (unwrap_or (eq_limit query) DEFAULT_PAGE_LIMIT)
           (drop (unwrap_or (eq_offset query) 0)
             (sort_key (\<lambda>e. - ex_timestamp e)
               (filter (\<lambda>e. execution_visible db key e \<and> by_hook e \<and> by_status e \<and> by_key e
                  \<and> by_since e \<and> by_until e) (db_execs db))))
     in Inr (map (\<lambda>model. execution_view_new X model (hook_name_of db (ex_hook_id model))
               (key_name_of db (ex_api_key_id model))) rows)))))"

section \<open>Reading, deleting and purging\<close>

definition get_execution :: "externals \<Rightarrow> api_key \<Rightarrow> uuid \<Rightarrow> database \<Rightarrow> execution_view result" where
  "get_execution X key i db =
     check (ok_or (find_exec db i) NotFound) (\<lambda>model.
     check (require (may_read_execution db key model) NotFound) (\<lambda>_.
     Inr (execution_view_new X model (hook_name_of db (ex_hook_id model))
       (key_name_of db (ex_api_key_id model)))))"

definition delete_execution ::
  "env \<Rightarrow> api_key \<Rightarrow> ip \<Rightarrow> uuid \<Rightarrow> database \<Rightarrow> unit result \<times> database" where
  "delete_execution E key client_ip i db =
     attempt (ok_or (find_exec db i) NotFound) db (\<lambda>model.
     attempt (ok_or (find_hook db (ex_hook_id model)) NotFound) db (\<lambda>hook_model.
     attempt (guard_manage db key hook_model) db (\<lambda>_.
     let (_, db) = delete_execs (\<lambda>e. ex_id e = i) db in
     create_audit_log E 1 key client_ip ''EXECUTION_DELETE'' (Some (hk_name hook_model))
       (Some (''Deleted execution record '' @ x_uuid_text (ev_ext E) i @ '' of hook ''
         @ format_reference (ev_ext E) (hk_name hook_model) (hk_id hook_model))) db)))"

definition purge_executions ::
  "env \<Rightarrow> api_key \<Rightarrow> ip \<Rightarrow> int option \<Rightarrow> database \<Rightarrow> ((nat \<times> int) result \<times> database) option" where
  "purge_executions E key client_ip older_than_days db =
     (if \<not> ak_is_master key
      then Some (Inl (Forbidden ''Only master keys can purge execution history''), db)
      else let days = unwrap_or older_than_days (cf_log_retention_days (ev_config E))
           in if days < 0 then Some (Inl (InvalidInput ''older_than_days must not be negative''), db)
           else map_option (\<lambda>(purged, db).
             and_then (create_audit_log E 1 key client_ip ''EXECUTION_PURGE'' None
               (Some (''Purged '' @ nat_text purged @ '' execution(s) older than '' @ int_text days
                 @ '' day(s)'')) db) (\<lambda>_ db. (Inr (purged, days), db)))
             (purge_expired_executions (ev_ext E) (ev_now E 0) days db))"

end
