(* ===== verification/Hooks.thy ===== *)
theory Hooks
  imports Guards Retention
begin

text \<open>
  The hook handlers (\<open>src/api/hooks.rs\<close>): the view of a hook, the checks on the secret, the sample
  payload and the arguments template, and creation, listing, reading, update, deletion to the trash
  or for good, restoring, purging, and the parameters of a hook.
\<close>

section \<open>Payloads and views\<close>

record parameter_input =
  pi_param_key :: string
  pi_description :: "string option"
  pi_default_value :: "string option"
  pi_is_required :: "bool option"

record create_hook_payload =
  chp_name :: string
  chp_description :: "string option"
  chp_script_path :: string
  chp_default_timeout_seconds :: "int option"
  chp_run_as_user :: "string option"
  chp_parameters :: "parameter_input list option"
  chp_auth_mode :: "auth_mode option"
  chp_hmac_secret :: "string option"
  chp_signature_header :: "string option"
  chp_signature_prefix :: "string option"
  chp_canonical_template :: "string option"
  chp_sample_payload_json :: "string option"
  chp_args_template :: "string option"

record update_hook_payload =
  uhp_name :: "string option"
  uhp_description :: "string option"
  uhp_script_path :: "string option"
  uhp_default_timeout_seconds :: "int option"
  uhp_run_as_user :: "string option"
  uhp_owner_key_id :: "uuid option"
  uhp_auth_mode :: "auth_mode option"
  uhp_hmac_secret :: "string option"
  uhp_signature_header :: "string option"
  uhp_signature_prefix :: "string option"
  uhp_canonical_template :: "string option"
  uhp_sample_payload_json :: "string option"
  uhp_args_template :: "string option"

record hook_detail =
  hd_id :: uuid
  hd_name :: string
  hd_description :: "string option"
  hd_script_path :: string
  hd_default_timeout_seconds :: int
  hd_run_as_user :: "string option"
  hd_owner_key_id :: "uuid option"
  hd_is_owner :: bool
  hd_is_deleted :: bool
  hd_deleted_at :: "time option"
  hd_deleted_by :: "string option"
  hd_parameters :: "hook_parameter list"
  hd_can_execute :: bool
  hd_can_manage :: bool
  hd_created_at :: time
  hd_updated_at :: time
  hd_auth_mode :: auth_mode
  hd_hmac_secret_configured :: bool
  hd_signature_header :: "string option"
  hd_signature_prefix :: "string option"
  hd_canonical_template :: "string option"
  hd_sample_payload_json :: "string option"
  hd_args_template :: "string option"

definition build_hook_detail :: "database \<Rightarrow> api_key \<Rightarrow> hook \<Rightarrow> hook_detail" where
  "build_hook_detail db key model =
     (let (can_execute, can_manage) =
            (if ak_is_master key then (True, True)
             else unwrap_or (map_option (\<lambda>p. (pm_can_execute p, pm_can_manage p))
                    (hook_permission db (ak_id key) (hk_id model))) (False, False))
      in \<lparr>hd_id = hk_id model, hd_name = hk_name model, hd_description = hk_description model,
          hd_script_path = hk_script_path model,
          hd_default_timeout_seconds = hk_default_timeout_seconds model,
          hd_run_as_user = hk_run_as_user model, hd_owner_key_id = hk_owner_key_id model,
          hd_is_owner = (ak_is_master key \<or> hk_owner_key_id model = Some (ak_id key)),
          hd_is_deleted = hk_is_deleted model, hd_deleted_at = hk_deleted_at model,
          hd_deleted_by = hk_deleted_by model, hd_parameters = load_parameters db (hk_id model),
          hd_can_execute = can_execute, hd_can_manage = can_manage,
          hd_created_at = hk_created_at model, hd_updated_at = hk_updated_at model,
          hd_auth_mode = hk_auth_mode model,
          hd_hmac_secret_configured = (hk_hmac_secret model \<noteq> None),
          hd_signature_header = hk_signature_header model,
          hd_signature_prefix = hk_signature_prefix model,
          hd_canonical_template = hk_canonical_template model,
          hd_sample_payload_json = hk_sample_payload_json model,
          hd_args_template = hk_args_template model\<rparr>)"

section \<open>Validation\<close>

definition non_empty :: "string option \<Rightarrow> string option" where
  "non_empty x = filter_opt (\<lambda>s. s \<noteq> []) x"

definition seal_hook_secret :: "env \<Rightarrow> nat \<Rightarrow> string \<Rightarrow> (string option) result" where
  "seal_hook_secret E n raw =
     (case seal (ev_ext E) (ev_cipher E) (ev_rand E n) raw of
        Inl e \<Rightarrow> Inl Internal
      | Inr sealed \<Rightarrow> Inr (Some sealed))"

definition validate_and_seal_hmac_secret ::
  "env \<Rightarrow> nat \<Rightarrow> auth_mode \<Rightarrow> string option \<Rightarrow> string option \<Rightarrow> (string option) result" where
  "validate_and_seal_hmac_secret E n effective_mode payload_secret existing_sealed =
     (case payload_secret of
        Some raw \<Rightarrow>
          if raw = [] then
            (if effective_mode = HmacOnly
             then Inl (InvalidInput ''hmac_secret cannot be cleared while auth_mode is HMAC_ONLY'')
             else Inr None)
          else seal_hook_secret E n raw
      | None \<Rightarrow>
          if effective_mode = HmacOnly \<and> existing_sealed = None
          then Inl (InvalidInput ''hmac_secret is required when auth_mode is HMAC_ONLY'')
          else Inr existing_sealed)"

definition validate_sample_payload_matches_parameters ::
  "externals \<Rightarrow> string option \<Rightarrow> string list \<Rightarrow> unit result" where
  "validate_sample_payload_matches_parameters X sample_payload_json param_keys =
     (case non_empty sample_payload_json of
        None \<Rightarrow> Inr ()
      | Some raw \<Rightarrow>
          (case x_json_parse X raw of
             Inl e \<Rightarrow> Inl (InvalidInput (''sample_payload_json is not valid JSON: '' @ e))
           | Inr (JObject object) \<Rightarrow>
               let missing = filter (\<lambda>key. map_of object key = None) param_keys
               in if missing \<noteq> []
                  then Inl (InvalidInput (''sample_payload_json is missing the declared parameter(s): ''
                         @ join '', '' missing))
                  else Inr ()
           | Inr _ \<Rightarrow> Inl (InvalidInput ''sample_payload_json must be a JSON object at the top level'')))"

definition validate_args_template_matches_parameters ::
  "string option \<Rightarrow> string list \<Rightarrow> unit result" where
  "validate_args_template_matches_parameters args_template param_keys =
     (case non_empty args_template of
        None \<Rightarrow> Inr ()
      | Some template \<Rightarrow>
          let undeclared =
                filter (\<lambda>name. name \<notin> set param_keys) (extract_template_variable_names template)
          in if undeclared \<noteq> []
             then Inl (InvalidInput (''args_template references undeclared parameter(s): ''
                    @ join '', '' (remdups_adj (sort undeclared))))
             else Inr ())"

definition invalid_param_key :: "string \<Rightarrow> app_error" where
  "invalid_param_key key = InvalidInput (''Invalid param_key '' @ single_quoted key
     @ '': must match [A-Za-z_][A-Za-z0-9_]*'')"

text \<open>The upsert's \<open>update\_columns\<close>: execute and manage only.\<close>

definition take_execute_and_manage :: "permission \<Rightarrow> permission \<Rightarrow> permission" where
  "take_execute_and_manage old new =
     old\<lparr>pm_can_execute := pm_can_execute new, pm_can_manage := pm_can_manage new\<rparr>"

definition grant_full_hook_permission ::
  "env \<Rightarrow> nat \<Rightarrow> uuid \<Rightarrow> uuid \<Rightarrow> database \<Rightarrow> unit result \<times> database" where
  "grant_full_hook_permission E n key_id hook_id db =
     commit (upsert_perm take_execute_and_manage
       \<lparr>pm_id = ev_uuid E n, pm_api_key_id = key_id, pm_hook_id = hook_id, pm_can_execute = True,
        pm_can_manage = True, pm_can_view_execution = True, pm_created_at = ev_now E n\<rparr>) db
     (\<lambda>db. (Inr (), db))"

section \<open>Creating a hook\<close>

definition hook_name_taken :: "database \<Rightarrow> string \<Rightarrow> app_error" where
  "hook_name_taken db name =
     Conflict (case List.find (\<lambda>h. hk_name h = name \<and> hk_is_deleted h) (db_hooks db) of
       Some _ \<Rightarrow> ''A deleted hook named '' @ single_quoted name
         @ '' still holds that name. Restore it, or purge it with DELETE /api/hooks/'' @ name
         @ ''?hard=true, before reusing the name.''
     | None \<Rightarrow> ''A hook named '' @ single_quoted name @ '' already exists'')"

fun insert_declared ::
  "env \<Rightarrow> nat \<Rightarrow> uuid \<Rightarrow> parameter_input list \<Rightarrow> database \<Rightarrow> unit result \<times> database" where
  "insert_declared E n hook_id [] db = (Inr (), db)"
| "insert_declared E n hook_id (param # r) db =
     (case insert_param
             \<lparr>hp_id = ev_uuid E n, hp_hook_id = hook_id, hp_param_key = pi_param_key param,
              hp_description = pi_description param, hp_default_value = pi_default_value param,
              hp_is_required = unwrap_or (pi_is_required param) True, hp_created_at = ev_now E n\<rparr> db of
        Inl UniqueConstraintViolation \<Rightarrow>
          (Inl (Conflict (''Duplicate parameter '' @ single_quoted (pi_param_key param)
             @ '' for this hook'')), db)
      | Inl err \<Rightarrow> (Inl (DbError err), db)
      | Inr db \<Rightarrow> insert_declared E (Suc n) hook_id r db)"

definition new_hook ::
  "env \<Rightarrow> api_key \<Rightarrow> create_hook_payload \<Rightarrow> string \<Rightarrow> string option \<Rightarrow> int \<Rightarrow> auth_mode \<Rightarrow>
     string option \<Rightarrow> hook" where
  "new_hook E key payload name run_as_user timeout mode sealed =
     \<lparr>hk_id = ev_uuid E 0, hk_name = name, hk_description = chp_description payload,
      hk_script_path = chp_script_path payload, hk_default_timeout_seconds = timeout,
      hk_run_as_user = run_as_user, hk_owner_key_id = Some (ak_id key), hk_is_deleted = False,
      hk_deleted_at = None, hk_deleted_by = None, hk_created_at = ev_now E 0,
      hk_updated_at = ev_now E 0, hk_auth_mode = mode, hk_hmac_secret = sealed,
      hk_signature_header = non_empty (chp_signature_header payload),
      hk_signature_prefix = non_empty (chp_signature_prefix payload),
      hk_canonical_template = non_empty (chp_canonical_template payload),
      hk_sample_payload_json = non_empty (chp_sample_payload_json payload),
      hk_args_template = non_empty (chp_args_template payload)\<rparr>"

definition create_hook ::
  "env \<Rightarrow> api_key \<Rightarrow> ip \<Rightarrow> create_hook_payload \<Rightarrow> database \<Rightarrow> hook_detail result \<times> database" where
  "create_hook E key client_ip payload db =
     attempt (require (ak_is_master key \<or> ak_can_manage_hooks key)
       (Forbidden ''Permission denied'')) db (\<lambda>_.
     attempt (normalize_run_as_user key (chp_run_as_user payload)) db (\<lambda>run_as_user.
     let name = trim (chp_name payload) in
     attempt (require (name \<noteq> []) (InvalidInput ''name is required'')) db (\<lambda>_.
     attempt (script_error_to_app (validate_script_path (chp_script_path payload)
       (cf_allowed_script_roots (ev_config E)))) db (\<lambda>_.
     let timeout = unwrap_or (chp_default_timeout_seconds payload) 30 in
     attempt (validate_timeout timeout) db (\<lambda>_.
     let declared = unwrap_or (chp_parameters payload) [] in
     attempt (case List.find (\<lambda>param. \<not> is_valid_param_key (pi_param_key param)) declared of
                Some param \<Rightarrow> Inl (invalid_param_key (pi_param_key param)) | None \<Rightarrow> Inr ()) db (\<lambda>_.
     let mode = unwrap_or (chp_auth_mode payload) CanonicalV1 in
     attempt (validate_and_seal_hmac_secret E 0 mode (chp_hmac_secret payload) None) db (\<lambda>sealed.
     let declared_keys = map pi_param_key declared in
     attempt (validate_sample_payload_matches_parameters (ev_ext E)
       (non_empty (chp_sample_payload_json payload)) declared_keys) db (\<lambda>_.
     attempt (validate_args_template_matches_parameters (non_empty (chp_args_template payload))
       declared_keys) db (\<lambda>_.
     let model = new_hook E key payload name run_as_user timeout mode sealed in
     case insert_hook model db of
       Inl UniqueConstraintViolation \<Rightarrow> (Inl (hook_name_taken db name), db)
     | Inl err \<Rightarrow> (Inl (DbError err), db)
     | Inr db \<Rightarrow>
         and_then (insert_declared E 3 (hk_id model) declared db) (\<lambda>_ db.
         and_then (grant_full_hook_permission E 2 (ak_id key) (hk_id model) db) (\<lambda>_ db.
         and_then (create_audit_log E 1 key client_ip ''HOOK_CREATE'' (Some name)
           (Some (''Created hook '' @ format_reference (ev_ext E) name (hk_id model) @ '' -> ''
              @ chp_script_path payload @ '' ('' @ describe_privilege run_as_user @ '')'')) db) (\<lambda>_ db.
         attempt (ok_or (find_hook db (hk_id model)) Internal) db (\<lambda>created.
         (Inr (build_hook_detail db key created), db)))))))))))))) "

section \<open>Reading hooks\<close>

definition list_hooks :: "api_key \<Rightarrow> bool option \<Rightarrow> database \<Rightarrow> hook_detail list result" where
  "list_hooks key include_deleted_param db =
     (let include_deleted = unwrap_or include_deleted_param False in
      check (guard_master_for_deleted_view key include_deleted) (\<lambda>_.
      let query = sort_key hk_name (filter (\<lambda>h. include_deleted \<or> \<not> hk_is_deleted h) (db_hooks db)) in
      case visible_hook_ids db key of
        Some ids \<Rightarrow>
          if ids = [] then Inr []
          else Inr (map (build_hook_detail db key) (filter (\<lambda>h. hk_id h \<in> set ids) query))
      | None \<Rightarrow> Inr (map (build_hook_detail db key) query)))"

definition get_hook ::
  "externals \<Rightarrow> api_key \<Rightarrow> string \<Rightarrow> bool option \<Rightarrow> database \<Rightarrow> hook_detail result" where
  "get_hook X key identifier include_deleted_param db =
     (let include_deleted = unwrap_or include_deleted_param False in
      check (guard_master_for_deleted_view key include_deleted) (\<lambda>_.
      check (if include_deleted then resolve_hook_including_deleted X db identifier
             else resolve_hook X db identifier) (\<lambda>model.
      check (guard_visibility db key model) (\<lambda>_.
      Inr (build_hook_detail db key model)))))"

end
