(* ===== verification/Hook_Lifecycle.thy ===== *)
theory Hook_Lifecycle
  imports Hooks
begin

text \<open>
  The handlers of \<open>src/api/hooks.rs\<close> that change an existing hook: update, deletion to the trash and
  for good, restoring, purging the trash, and the parameter endpoints.
\<close>

section \<open>Updating a hook\<close>

fun debug_auth_mode :: "auth_mode \<Rightarrow> string" where
  "debug_auth_mode CanonicalV1 = ''CanonicalV1''"
| "debug_auth_mode ApiKeyOnly = ''ApiKeyOnly''"
| "debug_auth_mode HmacOnly = ''HmacOnly''"
| "debug_auth_mode NoAuth = ''NoAuth''"

text \<open>\<open>match &payload.f { Some(raw) if raw.is\_empty() => None, Some(raw) => Some(raw), None => current }\<close>\<close>

definition cleared_or_kept :: "string option \<Rightarrow> string option \<Rightarrow> string option" where
  "cleared_or_kept requested current =
     (case requested of Some raw \<Rightarrow> if raw = [] then None else Some raw | None \<Rightarrow> current)"

definition requested_owner :: "database \<Rightarrow> api_key \<Rightarrow> uuid option \<Rightarrow> (uuid option) result" where
  "requested_owner db key owner_key_id =
     (case owner_key_id of
        Some owner \<Rightarrow>
          if \<not> ak_is_master key
          then Inl (Forbidden (''Only master API keys can reassign a hook'' @ [CHR 0x27] @ ''s owner''))
          else if find_key db owner = None
          then Inl (InvalidInput ''owner_key_id does not name an existing API key'')
          else Inr (Some owner)
      | None \<Rightarrow> Inr None)"

definition change_text :: "'a option \<Rightarrow> ('a \<Rightarrow> string) \<Rightarrow> string list" where
  "change_text x f = (case x of Some v \<Rightarrow> [f v] | None \<Rightarrow> [])"

definition update_changes ::
  "externals \<Rightarrow> update_hook_payload \<Rightarrow> string option \<Rightarrow> uuid option \<Rightarrow> string option option \<Rightarrow> string list" where
  "update_changes X payload name owner run_as_user =
     change_text name (\<lambda>n. ''name='' @ n)
     @ change_text owner (\<lambda>o1. ''owner_key_id='' @ x_uuid_text X o1)
     @ change_text (uhp_description payload) (\<lambda>_. ''description'')
     @ change_text (uhp_script_path payload) (\<lambda>p. ''script_path='' @ p)
     @ change_text (uhp_default_timeout_seconds payload) (\<lambda>t. ''default_timeout_seconds='' @ int_text t)
     @ change_text run_as_user describe_privilege
     @ change_text (uhp_auth_mode payload) (\<lambda>m. ''auth_mode='' @ debug_auth_mode m)
     @ change_text (uhp_hmac_secret payload) (\<lambda>_. ''hmac_secret'')
     @ change_text (uhp_signature_header payload) (\<lambda>h. ''signature_header='' @ h)
     @ change_text (uhp_signature_prefix payload) (\<lambda>p. ''signature_prefix='' @ p)
     @ change_text (uhp_canonical_template payload) (\<lambda>_. ''canonical_template'')
     @ change_text (uhp_sample_payload_json payload) (\<lambda>_. ''sample_payload_json'')
     @ change_text (uhp_args_template payload) (\<lambda>_. ''args_template'')"

definition apply_hook_update ::
  "update_hook_payload \<Rightarrow> string option \<Rightarrow> uuid option \<Rightarrow> string option option \<Rightarrow> string option \<Rightarrow>
     time \<Rightarrow> hook \<Rightarrow> hook" where
  "apply_hook_update payload name owner run_as_user sealed now model =
     model\<lparr>
       hk_name := unwrap_or name (hk_name model),
       hk_owner_key_id := (case owner of Some o1 \<Rightarrow> Some o1 | None \<Rightarrow> hk_owner_key_id model),
       hk_description := (case uhp_description payload of Some d \<Rightarrow> Some d | None \<Rightarrow> hk_description model),
       hk_script_path := unwrap_or (uhp_script_path payload) (hk_script_path model),
       hk_default_timeout_seconds :=
         unwrap_or (uhp_default_timeout_seconds payload) (hk_default_timeout_seconds model),
       hk_run_as_user := unwrap_or run_as_user (hk_run_as_user model),
       hk_auth_mode := unwrap_or (uhp_auth_mode payload) (hk_auth_mode model),
       hk_hmac_secret := sealed,
       hk_signature_header := cleared_or_kept (uhp_signature_header payload) (hk_signature_header model),
       hk_signature_prefix := cleared_or_kept (uhp_signature_prefix payload) (hk_signature_prefix model),
       hk_canonical_template :=
         cleared_or_kept (uhp_canonical_template payload) (hk_canonical_template model),
       hk_sample_payload_json :=
         cleared_or_kept (uhp_sample_payload_json payload) (hk_sample_payload_json model),
       hk_args_template := cleared_or_kept (uhp_args_template payload) (hk_args_template model),
       hk_updated_at := now\<rparr>"

definition update_hook ::
  "env \<Rightarrow> api_key \<Rightarrow> ip \<Rightarrow> string \<Rightarrow> update_hook_payload \<Rightarrow> database \<Rightarrow> hook_detail result \<times> database" where
  "update_hook E key client_ip identifier payload db =
     attempt (resolve_hook (ev_ext E) db identifier) db (\<lambda>model.
     attempt (guard_manage db key model) db (\<lambda>_.
     attempt (if uhp_script_path payload \<noteq> None \<or> uhp_run_as_user payload \<noteq> None
                 \<or> uhp_args_template payload \<noteq> None
              then guard_dispatch_configuration db key model else Inr ()) db (\<lambda>_.
     attempt (guard_master_for_privileged_hook key model ''modify'') db (\<lambda>_.
     attempt (case uhp_run_as_user payload of
                Some raw \<Rightarrow> check (normalize_run_as_user key (Some raw)) (\<lambda>u. Inr (Some u))
              | None \<Rightarrow> Inr None) db (\<lambda>requested_run_as_user.
     attempt (if uhp_name payload \<noteq> None
              then guard_lifecycle_authority key model ''rename'' else Inr ()) db (\<lambda>_.
     attempt (requested_owner db key (uhp_owner_key_id payload)) db (\<lambda>owner.
     attempt (case uhp_script_path payload of
                Some script_path \<Rightarrow> script_error_to_app
                  (validate_script_path script_path (cf_allowed_script_roots (ev_config E)))
              | None \<Rightarrow> Inr ()) db (\<lambda>_.
     attempt (case uhp_default_timeout_seconds payload of
                Some timeout \<Rightarrow> validate_timeout timeout | None \<Rightarrow> Inr ()) db (\<lambda>_.
     attempt (validate_and_seal_hmac_secret E 0 (unwrap_or (uhp_auth_mode payload) (hk_auth_mode model))
                (uhp_hmac_secret payload) (hk_hmac_secret model)) db (\<lambda>sealed.
     let declared_keys = map hp_param_key (load_parameters db (hk_id model)) in
     attempt (validate_sample_payload_matches_parameters (ev_ext E)
       (cleared_or_kept (uhp_sample_payload_json payload) (hk_sample_payload_json model))
       declared_keys) db (\<lambda>_.
     attempt (validate_args_template_matches_parameters
       (cleared_or_kept (uhp_args_template payload) (hk_args_template model)) declared_keys) db (\<lambda>_.
     let name = map_option trim (uhp_name payload) in
     attempt (require (name \<noteq> Some []) (InvalidInput ''name must not be empty'')) db (\<lambda>_.
     let updated = apply_hook_update payload name owner requested_run_as_user sealed (ev_now E 0) model in
     case update_hook_row updated db of
       Inl UniqueConstraintViolation \<Rightarrow> (Inl (Conflict ''Another hook already uses that name''), db)
     | Inl err \<Rightarrow> (Inl (DbError err), db)
     | Inr db \<Rightarrow>
         and_then (create_audit_log E 1 key client_ip ''HOOK_UPDATE'' (Some (hk_name updated))
           (Some (''Updated hook '' @ format_reference (ev_ext E) (hk_name updated) (hk_id model) @ '' [''
             @ join '', '' (update_changes (ev_ext E) payload name owner requested_run_as_user)
             @ '']'')) db) (\<lambda>_ db.
         (Inr (build_hook_detail db key updated), db)))))))))))))))"

section \<open>Deleting, restoring and purging\<close>

definition soft_delete :: "uuid \<Rightarrow> time \<Rightarrow> string \<Rightarrow> database \<Rightarrow> nat \<times> database" where
  "soft_delete i now deleted_by db =
     (length (filter (\<lambda>h. hk_id h = i \<and> \<not> hk_is_deleted h) (db_hooks db)),
      db\<lparr>db_hooks := map (\<lambda>h. if hk_id h = i \<and> \<not> hk_is_deleted h
           then h\<lparr>hk_is_deleted := True, hk_deleted_at := Some now, hk_deleted_by := Some deleted_by,
                  hk_updated_at := now\<rparr>
           else h) (db_hooks db)\<rparr>)"

definition delete_hook ::
  "env \<Rightarrow> api_key \<Rightarrow> ip \<Rightarrow> string \<Rightarrow> bool option \<Rightarrow> database \<Rightarrow> unit result \<times> database" where
  "delete_hook E key client_ip identifier hard_param db =
     (let hard = unwrap_or hard_param False in
     attempt (if hard then resolve_hook_including_deleted (ev_ext E) db identifier
              else resolve_hook (ev_ext E) db identifier) db (\<lambda>model.
     attempt (guard_manage db key model) db (\<lambda>_.
     attempt (guard_lifecycle_authority key model ''delete'') db (\<lambda>_.
     attempt (guard_master_for_privileged_hook key model ''delete'') db (\<lambda>_.
     let reference = format_reference (ev_ext E) (hk_name model) (hk_id model) in
     if hard then
       attempt (require (ak_is_master key) (Forbidden ''Only master API keys can permanently delete a hook; omit ?hard=true to move it to the trash instead'')) db (\<lambda>_.
       let (rows_affected, db) = delete_hooks (\<lambda>h. hk_id h = hk_id model) db in
       attempt (require (rows_affected \<noteq> 0) NotFound) db (\<lambda>_.
       create_audit_log E 1 key client_ip ''HOOK_HARD_DELETE'' (Some (hk_name model))
         (Some (''Permanently deleted hook '' @ reference
           @ '', discarding its parameters, permissions, and execution history'')) db))
     else
       let (rows_affected, db) = soft_delete (hk_id model) (ev_now E 0)
             (x_uuid_text (ev_ext E) (ak_id key)) db in
       attempt (require (rows_affected \<noteq> 0) NotFound) db (\<lambda>_.
       create_audit_log E 1 key client_ip ''HOOK_DELETE'' (Some (hk_name model))
         (Some (''Moved hook '' @ reference @ '' to the trash; it is recoverable until purged after ''
           @ int_text (cf_deleted_hook_retention_days (ev_config E)) @ '' days'')) db))))))"

definition restore_hook ::
  "env \<Rightarrow> api_key \<Rightarrow> ip \<Rightarrow> string \<Rightarrow> database \<Rightarrow> hook_detail result \<times> database" where
  "restore_hook E key client_ip identifier db =
     attempt (require (ak_is_master key)
       (Forbidden ''Only master API keys can restore a deleted hook'')) db (\<lambda>_.
     attempt (resolve_hook_including_deleted (ev_ext E) db identifier) db (\<lambda>model.
     attempt (require (hk_is_deleted model)
       (InvalidInput (''Hook '' @ single_quoted (hk_name model) @ '' is not deleted''))) db (\<lambda>_.
     commit (update_hook_row (model\<lparr>hk_is_deleted := False, hk_deleted_at := None,
       hk_deleted_by := None, hk_updated_at := ev_now E 0\<rparr>)) db (\<lambda>db.
     and_then (create_audit_log E 1 key client_ip ''HOOK_RESTORE'' (Some (hk_name model))
       (Some (''Restored hook '' @ format_reference (ev_ext E) (hk_name model) (hk_id model)
         @ '' from the trash'')) db) (\<lambda>_ db.
     attempt (ok_or (find_hook db (hk_id model)) Internal) db (\<lambda>restored.
     (Inr (build_hook_detail db key restored), db)))))))"

text \<open>The answer is \<open>(purged, older\_than\_days)\<close>; \<open>None\<close> is the panic of an age out of range.\<close>

definition purge_deleted_hooks ::
  "env \<Rightarrow> api_key \<Rightarrow> ip \<Rightarrow> int option \<Rightarrow> database \<Rightarrow> ((nat \<times> int) result \<times> database) option" where
  "purge_deleted_hooks E key client_ip older_than_days db =
     (if \<not> ak_is_master key
      then Some (Inl (Forbidden ''Only master keys can purge deleted hooks''), db)
      else let days = unwrap_or older_than_days (cf_deleted_hook_retention_days (ev_config E))
           in if days < 0 then Some (Inl (InvalidInput ''older_than_days must not be negative''), db)
           else map_option (\<lambda>(purged, db).
             and_then (create_audit_log E 1 key client_ip ''HOOK_PURGE'' None
               (Some (''Purged '' @ nat_text purged @ '' deleted hook(s) trashed more than ''
                 @ int_text days @ '' day(s) ago'')) db) (\<lambda>_ db. (Inr (purged, days), db)))
             (purge_expired_deleted_hooks (ev_ext E) (ev_now E 0) days db))"

section \<open>Parameters\<close>

record update_parameter_payload =
  upp_description :: "string option"
  upp_default_value :: "string option"
  upp_is_required :: "bool option"

definition list_hook_parameters ::
  "externals \<Rightarrow> api_key \<Rightarrow> string \<Rightarrow> database \<Rightarrow> hook_parameter list result" where
  "list_hook_parameters X key identifier db =
     check (resolve_hook X db identifier) (\<lambda>model.
     check (guard_visibility db key model) (\<lambda>_.
     Inr (load_parameters db (hk_id model))))"

definition create_hook_parameter ::
  "env \<Rightarrow> api_key \<Rightarrow> ip \<Rightarrow> string \<Rightarrow> parameter_input \<Rightarrow> database \<Rightarrow> hook_parameter result \<times> database" where
  "create_hook_parameter E key client_ip identifier payload db =
     attempt (resolve_hook (ev_ext E) db identifier) db (\<lambda>model.
     attempt (guard_manage db key model) db (\<lambda>_.
     attempt (guard_master_for_privileged_hook key model ''declare parameters on'') db (\<lambda>_.
     attempt (require (is_valid_param_key (pi_param_key payload))
       (invalid_param_key (pi_param_key payload))) db (\<lambda>_.
     let param_id = ev_uuid E 0;
         param = \<lparr>hp_id = param_id, hp_hook_id = hk_id model, hp_param_key = pi_param_key payload,
           hp_description = pi_description payload, hp_default_value = pi_default_value payload,
           hp_is_required = unwrap_or (pi_is_required payload) True, hp_created_at = ev_now E 0\<rparr> in
     case insert_param param db of
       Inl UniqueConstraintViolation \<Rightarrow>
         (Inl (Conflict (''Parameter '' @ single_quoted (pi_param_key payload)
            @ '' is already declared on this hook'')), db)
     | Inl err \<Rightarrow> (Inl (DbError err), db)
     | Inr db \<Rightarrow>
         and_then (create_audit_log E 1 key client_ip ''HOOK_PARAM_CREATE'' (Some (hk_name model))
           (Some (''Declared parameter '' @ single_quoted (pi_param_key payload) @ '' on hook ''
             @ format_reference (ev_ext E) (hk_name model) (hk_id model))) db) (\<lambda>_ db.
         attempt (ok_or (find_param db param_id) Internal) db (\<lambda>created. (Inr created, db)))))))"

definition apply_param_update :: "update_parameter_payload \<Rightarrow> hook_parameter \<Rightarrow> hook_parameter" where
  "apply_param_update payload param =
     param\<lparr>
       hp_description := (case upp_description payload of Some d \<Rightarrow> Some d | None \<Rightarrow> hp_description param),
       hp_default_value :=
         (case upp_default_value payload of Some d \<Rightarrow> Some d | None \<Rightarrow> hp_default_value param),
       hp_is_required := unwrap_or (upp_is_required payload) (hp_is_required param)\<rparr>"

definition update_hook_parameter ::
  "env \<Rightarrow> api_key \<Rightarrow> ip \<Rightarrow> string \<Rightarrow> uuid \<Rightarrow> update_parameter_payload \<Rightarrow> database \<Rightarrow>
     hook_parameter result \<times> database" where
  "update_hook_parameter E key client_ip identifier param_id payload db =
     attempt (resolve_hook (ev_ext E) db identifier) db (\<lambda>model.
     attempt (guard_manage db key model) db (\<lambda>_.
     attempt (guard_master_for_privileged_hook key model ''modify parameters on'') db (\<lambda>_.
     attempt (ok_or (filter_opt (\<lambda>p. hp_hook_id p = hk_id model) (find_param db param_id)) NotFound) db
       (\<lambda>param.
     let updated = apply_param_update payload param in
     commit (update_param updated) db (\<lambda>db.
     and_then (create_audit_log E 1 key client_ip ''HOOK_PARAM_UPDATE'' (Some (hk_name model))
       (Some (''Updated parameter '' @ single_quoted (hp_param_key param) @ '' on hook ''
         @ format_reference (ev_ext E) (hk_name model) (hk_id model))) db) (\<lambda>_ db.
     (Inr updated, db)))))))"

definition delete_hook_parameter ::
  "env \<Rightarrow> api_key \<Rightarrow> ip \<Rightarrow> string \<Rightarrow> uuid \<Rightarrow> database \<Rightarrow> unit result \<times> database" where
  "delete_hook_parameter E key client_ip identifier param_id db =
     attempt (resolve_hook (ev_ext E) db identifier) db (\<lambda>model.
     attempt (guard_manage db key model) db (\<lambda>_.
     attempt (guard_master_for_privileged_hook key model ''remove parameters from'') db (\<lambda>_.
     attempt (ok_or (filter_opt (\<lambda>p. hp_hook_id p = hk_id model) (find_param db param_id)) NotFound) db
       (\<lambda>param.
     create_audit_log E 1 key client_ip ''HOOK_PARAM_DELETE'' (Some (hk_name model))
       (Some (''Removed parameter '' @ single_quoted (hp_param_key param) @ '' from hook ''
         @ format_reference (ev_ext E) (hk_name model) (hk_id model))) (delete_param param_id db)))))"

end
