(* ===== verification/Keys.thy ===== *)
theory Keys
  imports Guards
begin

text \<open>
  The API-key handlers (\<open>src/api/keys.rs\<close>): key visibility over the parent tree, the views, and
  create, list, update, delete, rotate, regenerate, and the permission endpoints.  A handler takes
  the environment, the caller's key as the authentication layer loaded it, the caller's address, its
  input, and the database; it returns its answer and the database it leaves.
\<close>

section \<open>Key visibility\<close>

datatype key_view_level = Full | Minimal

text \<open>
  \<open>descendant\_key\_ids\<close>: breadth first over \<open>parent\_key\_id\<close>.  The result is a set in the code; here it
  lists the ids in the order they are found.
\<close>

fun insert_new :: "uuid \<Rightarrow> uuid list \<Rightarrow> uuid list \<Rightarrow> uuid list \<times> uuid list" where
  "insert_new root seen [] = (seen, [])"
| "insert_new root seen (i # r) =
     (if i \<noteq> root \<and> i \<notin> set seen
      then let (seen', fresh) = insert_new root (seen @ [i]) r in (seen', i # fresh)
      else insert_new root seen r)"

definition children_of :: "database \<Rightarrow> uuid list \<Rightarrow> uuid list" where
  "children_of db frontier =
     map ak_id (filter (\<lambda>k. case ak_parent_key_id k of Some p \<Rightarrow> p \<in> set frontier | None \<Rightarrow> False)
       (db_keys db))"

lemma insert_new_spec:
  "insert_new root seen is = (seen', fresh) \<Longrightarrow>
     set seen' = set seen \<union> set fresh \<and> set fresh = set is - set seen - {root}"
proof (induction "is" arbitrary: seen seen' fresh)
  case Nil
  then show ?case by simp
next
  case (Cons i r)
  show ?case
  proof (cases "i \<noteq> root \<and> i \<notin> set seen")
    case True
    obtain s f where sf: "insert_new root (seen @ [i]) r = (s, f)" by (cases "insert_new root (seen @ [i]) r")
    from Cons.IH[OF sf] have "set s = set seen \<union> {i} \<union> set f" "set f = set r - (set seen \<union> {i}) - {root}"
      by auto
    moreover from True sf Cons.prems have "seen' = s" "fresh = i # f" by auto
    ultimately show ?thesis using True by auto
  next
    case False
    with Cons.prems have "insert_new root seen r = (seen', fresh)" by auto
    from Cons.IH[OF this] False show ?thesis by auto
  qed
qed

lemma children_of_ids: "set (children_of db f) \<subseteq> ak_id ` set (db_keys db)"
  by (auto simp: children_of_def)

function descend :: "database \<Rightarrow> uuid \<Rightarrow> uuid list \<Rightarrow> uuid list \<Rightarrow> uuid list" where
  "descend db root seen frontier =
     (if frontier = [] then seen
      else let (seen', fresh) = insert_new root seen (children_of db frontier)
           in descend db root seen' fresh)"
  by pat_completeness auto
termination
proof (relation "(\<lambda>(db, root, seen, frontier). card (ak_id ` set (db_keys db) - set seen))
    <*mlex*> measure (\<lambda>(db, root, seen, frontier). length frontier)", goal_cases)
  case 1
  show ?case by (rule wf_mlex) simp
next
  case (2 db root seen frontier p seen' fresh)
  then have p: "insert_new root seen (children_of db frontier) = (seen', fresh)" by simp
  let ?ids = "ak_id ` set (db_keys db)"
  from insert_new_spec[OF p] children_of_ids[of db frontier]
  have seen': "set seen' = set seen \<union> set fresh" and fresh: "set fresh \<subseteq> ?ids - set seen" by auto
  show ?case
  proof (cases fresh)
    case Nil
    with seen' 2(1) show ?thesis by (simp add: mlex_prod_def)
  next
    case (Cons x xs)
    with seen' fresh have "?ids - set seen' \<subset> ?ids - set seen" by auto
    then have "card (?ids - set seen') < card (?ids - set seen)" by (intro psubset_card_mono) auto
    then show ?thesis by (simp add: mlex_prod_def)
  qed
qed

declare descend.simps [simp del]

definition descendant_key_ids :: "database \<Rightarrow> uuid \<Rightarrow> uuid list" where
  "descendant_key_ids db root = descend db root [] [root]"

definition managed_hook_ids :: "database \<Rightarrow> uuid \<Rightarrow> uuid list" where
  "managed_hook_ids db key_id =
     map pm_hook_id (filter (\<lambda>p. pm_api_key_id p = key_id \<and> pm_can_manage p) (db_perms db))"

definition key_visibility :: "database \<Rightarrow> api_key \<Rightarrow> api_key \<Rightarrow> key_view_level option" where
  "key_visibility db caller target =
     (if ak_is_master caller \<or> ak_id caller = ak_id target then Some Full
      else if ak_id target \<in> set (descendant_key_ids db (ak_id caller)) then Some Full
      else let managed = managed_hook_ids db (ak_id caller)
           in if managed \<noteq> []
                 \<and> List.find (\<lambda>p. pm_api_key_id p = ak_id target \<and> pm_hook_id p \<in> set managed)
                     (db_perms db) \<noteq> None
              then Some Minimal else None)"

definition load_administrable_key :: "database \<Rightarrow> api_key \<Rightarrow> uuid \<Rightarrow> api_key result" where
  "load_administrable_key db caller i =
     check (ok_or (find_key db i) NotFound) (\<lambda>target.
     case key_visibility db caller target of
       Some Full \<Rightarrow> Inr target
     | _ \<Rightarrow> Inl NotFound)"

section \<open>The parent tree\<close>

definition parent_rel :: "database \<Rightarrow> (uuid \<times> uuid) set" where
  "parent_rel db = {(p, ak_id k) | p k. k \<in> set (db_keys db) \<and> ak_parent_key_id k = Some p}"

lemma set_children_of: "set (children_of db f) = parent_rel db `` set f"
  by (force simp: children_of_def parent_rel_def split: option.splits)

lemma descend_spec:
  assumes "set seen \<subseteq> (parent_rel db)\<^sup>+ `` {root} - {root}"
    and "set frontier \<subseteq> insert root (set seen)"
    and "parent_rel db `` (insert root (set seen) - set frontier) \<subseteq> insert root (set seen)"
  shows "set (descend db root seen frontier) = (parent_rel db)\<^sup>+ `` {root} - {root}"
  using assms
proof (induction db root seen frontier rule: descend.induct)
  case (1 db root seen frontier)
  let ?R = "parent_rel db"
  show ?case
  proof (cases "frontier = []")
    case True
    with "1.prems"(3) have "?R `` insert root (set seen) \<subseteq> insert root (set seen)" by simp
    then have "?R\<^sup>* `` insert root (set seen) = insert root (set seen)" by (rule Image_closed_trancl)
    then have "?R\<^sup>+ `` {root} \<subseteq> insert root (set seen)" by (auto dest: trancl_into_rtrancl)
    with True "1.prems"(1) show ?thesis by (subst descend.simps) auto
  next
    case False
    obtain seen' fresh where p: "insert_new root seen (children_of db frontier) = (seen', fresh)"
      by (cases "insert_new root seen (children_of db frontier)")
    from insert_new_spec[OF p] have seen': "set seen' = set seen \<union> set fresh"
      and fresh: "set fresh = ?R `` set frontier - set seen - {root}" by (auto simp: set_children_of)
    have "?R `` set frontier \<subseteq> ?R\<^sup>+ `` {root}"
    proof
      fix y assume "y \<in> ?R `` set frontier"
      then obtain x where "(x, y) \<in> ?R" and "x \<in> insert root (set seen)" using "1.prems"(2) by auto
      with "1.prems"(1) show "y \<in> ?R\<^sup>+ `` {root}" by (auto intro: trancl_into_trancl)
    qed
    then have a: "set seen' \<subseteq> ?R\<^sup>+ `` {root} - {root}" using "1.prems"(1) seen' fresh by auto
    have b: "set fresh \<subseteq> insert root (set seen')" using seen' by auto
    have c: "?R `` (insert root (set seen') - set fresh) \<subseteq> insert root (set seen')"
    proof
      fix y assume "y \<in> ?R `` (insert root (set seen') - set fresh)"
      then obtain x where xy: "(x, y) \<in> ?R" and "x \<in> insert root (set seen)"
        using seen' by auto
      then consider "x \<in> set frontier" | "x \<in> insert root (set seen) - set frontier" by auto
      then show "y \<in> insert root (set seen')"
      proof cases
        case 1
        with xy fresh seen' show ?thesis by auto
      next
        case 2
        with xy "1.prems"(3) seen' show ?thesis by auto
      qed
    qed
    from "1.IH"[OF False p[symmetric] refl a b c]
    show ?thesis using False p by (subst descend.simps) simp
  qed
qed

lemma set_descendant_key_ids:
  "set (descendant_key_ids db root) = (parent_rel db)\<^sup>+ `` {root} - {root}"
  unfolding descendant_key_ids_def by (rule descend_spec) auto

lemma parent_rel_key: "(p, i) \<in> parent_rel db \<Longrightarrow> key_exists i db"
  by (auto simp: parent_rel_def key_exists_def)

lemma descendant_exists: "i \<in> set (descendant_key_ids db root) \<Longrightarrow> key_exists i db"
  unfolding set_descendant_key_ids by (auto dest: tranclD2 parent_rel_key)

definition administers :: "database \<Rightarrow> api_key \<Rightarrow> uuid \<Rightarrow> bool" where
  "administers db caller i \<longleftrightarrow> ak_is_master caller \<or> (ak_id caller, i) \<in> (parent_rel db)\<^sup>*"

lemma full_visibility_iff:
  "key_visibility db caller target = Some Full \<longleftrightarrow> administers db caller (ak_id target)"
  by (auto simp: key_visibility_def administers_def Let_def set_descendant_key_ids rtrancl_eq_or_trancl)

lemma load_administrable_ok [early_return]:
  "load_administrable_key db caller i = Inr target \<longleftrightarrow>
     find_key db i = Some target \<and> administers db caller i"
proof (cases "find_key db i")
  case None
  then show ?thesis by (simp add: load_administrable_key_def)
next
  case (Some k)
  then have "ak_id k = i" by (auto dest: find_keyD)
  with Some full_visibility_iff[of db caller k] show ?thesis
    by (cases "key_visibility db caller k")
      (auto simp: load_administrable_key_def split: key_view_level.splits)
qed

lemma visibility_some_iff:
  "key_visibility db caller target \<noteq> None \<longleftrightarrow> administers db caller (ak_id target)
     \<or> (\<exists>h p. h \<in> set (managed_hook_ids db (ak_id caller)) \<and> p \<in> set (db_perms db)
          \<and> pm_api_key_id p = ak_id target \<and> pm_hook_id p = h)"
proof (cases "administers db caller (ak_id target)")
  case True
  then show ?thesis by (simp flip: full_visibility_iff)
next
  case False
  then have "key_visibility db caller target \<noteq> Some Full" by (simp add: full_visibility_iff)
  then show ?thesis using False
    by (auto simp: key_visibility_def Let_def find_None_iff split: if_splits)
qed

section \<open>Views\<close>

record hook_permission_view =
  hpv_hook_id :: uuid
  hpv_hook_name :: string
  hpv_can_execute :: bool
  hpv_can_manage :: bool
  hpv_can_view_execution :: bool

record me_response =
  me_id :: uuid
  me_name :: string
  me_prefix :: string
  me_key_id :: "string option"
  me_hmac_mode :: hmac_mode
  me_canonical_template :: "string option"
  me_bound_ips :: "string option"
  me_max_concurrent_jobs :: int
  me_is_master :: bool
  me_can_manage_keys :: bool
  me_can_manage_hooks :: bool
  me_hook_permissions :: "hook_permission_view list"
  me_keyless_hooks_allowed :: bool

record api_key_summary =
  aks_id :: uuid
  aks_name :: string
  aks_prefix :: string
  aks_key_id :: "string option"
  aks_has_signing_secret :: bool
  aks_hmac_mode :: hmac_mode
  aks_canonical_template :: "string option"
  aks_bound_ips :: "string option"
  aks_max_concurrent_jobs :: int
  aks_is_master :: bool
  aks_can_manage_keys :: bool
  aks_can_manage_hooks :: bool
  aks_parent_key_id :: "uuid option"
  aks_created_at :: time
  aks_hook_permissions :: "hook_permission_view list"

record minimal_api_key_view =
  mkv_id :: uuid
  mkv_name :: string
  mkv_hook_permissions :: "hook_permission_view list"
  mkv_partial :: bool

datatype api_key_view = FullView api_key_summary | MinimalView minimal_api_key_view

text \<open>\<open>find\_also\_related(Hook)\<close>: each permission row with its hook, if that exists.\<close>

definition permission_view :: "database \<Rightarrow> permission \<Rightarrow> hook_permission_view option" where
  "permission_view db perm =
     map_option (\<lambda>h. \<lparr>hpv_hook_id = pm_hook_id perm, hpv_hook_name = hk_name h,
         hpv_can_execute = pm_can_execute perm, hpv_can_manage = pm_can_manage perm,
         hpv_can_view_execution = pm_can_view_execution perm\<rparr>)
       (find_hook db (pm_hook_id perm))"

definition load_hook_permissions :: "database \<Rightarrow> uuid \<Rightarrow> hook_permission_view list" where
  "load_hook_permissions db key_id =
     List.map_filter (permission_view db) (filter (\<lambda>p. pm_api_key_id p = key_id) (db_perms db))"

definition get_me :: "env \<Rightarrow> api_key \<Rightarrow> database \<Rightarrow> me_response" where
  "get_me E key db =
     \<lparr>me_id = ak_id key, me_name = ak_name key, me_prefix = ak_prefix key, me_key_id = ak_key_id key,
      me_hmac_mode = ak_hmac_mode key, me_canonical_template = ak_canonical_template key,
      me_bound_ips = ak_bound_ips key, me_max_concurrent_jobs = ak_max_concurrent_jobs key,
      me_is_master = ak_is_master key, me_can_manage_keys = ak_can_manage_keys key,
      me_can_manage_hooks = ak_can_manage_hooks key,
      me_hook_permissions = load_hook_permissions db (ak_id key),
      me_keyless_hooks_allowed = (\<not> cf_require_signed_requests (ev_config E))\<rparr>"

definition build_minimal_api_key_view ::
  "database \<Rightarrow> api_key \<Rightarrow> uuid list \<Rightarrow> minimal_api_key_view" where
  "build_minimal_api_key_view db model shared_hook_ids =
     \<lparr>mkv_id = ak_id model, mkv_name = ak_name model,
      mkv_hook_permissions = List.map_filter (permission_view db)
        (filter (\<lambda>p. pm_api_key_id p = ak_id model \<and> pm_hook_id p \<in> set shared_hook_ids) (db_perms db)),
      mkv_partial = True\<rparr>"

definition build_api_key_summary :: "database \<Rightarrow> api_key \<Rightarrow> api_key_summary" where
  "build_api_key_summary db model =
     \<lparr>aks_id = ak_id model, aks_name = ak_name model, aks_prefix = ak_prefix model,
      aks_key_id = ak_key_id model, aks_has_signing_secret = (ak_signing_secret model \<noteq> None),
      aks_hmac_mode = ak_hmac_mode model, aks_canonical_template = ak_canonical_template model,
      aks_bound_ips = ak_bound_ips model, aks_max_concurrent_jobs = ak_max_concurrent_jobs model,
      aks_is_master = ak_is_master model, aks_can_manage_keys = ak_can_manage_keys model,
      aks_can_manage_hooks = ak_can_manage_hooks model, aks_parent_key_id = ak_parent_key_id model,
      aks_created_at = ak_created_at model,
      aks_hook_permissions = load_hook_permissions db (ak_id model)\<rparr>"

section \<open>Creating and listing keys\<close>

record create_api_key_payload =
  ckp_name :: string
  ckp_bound_ips :: "string option"
  ckp_max_concurrent_jobs :: "int option"
  ckp_hmac_mode :: "hmac_mode option"
  ckp_canonical_template :: "string option"
  ckp_can_manage_keys :: "bool option"
  ckp_can_manage_hooks :: "bool option"
  ckp_generate_signing_secret :: "bool option"

record create_api_key_response =
  ckr_id :: uuid
  ckr_plaintext_key :: string
  ckr_key_id :: "string option"
  ckr_signing_secret :: "string option"
  ckr_name :: string
  ckr_bound_ips :: "string option"

definition permission_denied :: app_error where
  "permission_denied = Forbidden ''Permission denied''"

definition create_api_key ::
  "env \<Rightarrow> api_key \<Rightarrow> ip \<Rightarrow> create_api_key_payload \<Rightarrow> database \<Rightarrow>
     create_api_key_response result \<times> database" where
  "create_api_key E key client_ip payload db =
     attempt (require (ak_is_master key \<or> ak_can_manage_keys key) permission_denied) db (\<lambda>_.
     attempt (guard_master_to_grant_scopes key (ckp_can_manage_keys payload)
                (ckp_can_manage_hooks payload)) db (\<lambda>_.
     let wants_signing_pair = unwrap_or (ckp_generate_signing_secret payload) True in
     attempt (require (\<not> (unwrap_or (ckp_can_manage_keys payload) False \<and> \<not> wants_signing_pair))
                (InvalidInput ''can_manage_keys requires a signing secret: generate_signing_secret cannot be false for a key that manages other keys, since such a key must always sign.'')) db (\<lambda>_.
     let mode = unwrap_or (ckp_hmac_mode payload) HmacCanonicalV1;
         canonical_template = filter_opt (\<lambda>s. s \<noteq> []) (ckp_canonical_template payload) in
     attempt (guard_canonical_v1_for_key_management (unwrap_or (ckp_can_manage_keys payload) False)
                mode canonical_template) db (\<lambda>_.
     attempt (case ckp_bound_ips payload of
                Some bound_ips \<Rightarrow> validate_bound_ips (ev_ext E) bound_ips | None \<Rightarrow> Inr ()) db (\<lambda>_.
     let max_concurrent_jobs = unwrap_or (ckp_max_concurrent_jobs payload) 10 in
     attempt (validate_concurrency max_concurrent_jobs) db (\<lambda>_.
     let plaintext_key = generate_random_key E 0;
         key_hash = hash_key (ev_ext E) plaintext_key;
         key_prefix = take 8 plaintext_key in
     attempt (if wants_signing_pair
              then check (mint_signing_pair E 1) (\<lambda>(a, b, c). Inr (Some a, Some b, Some c))
              else Inr (None, None, None)) db (\<lambda>(key_id, signing_secret, sealed_secret).
     let i = ev_uuid E 0; now = ev_now E 0;
         model = \<lparr>ak_id = i, ak_name = ckp_name payload, ak_key_hash = key_hash, ak_prefix = key_prefix,
           ak_key_id = key_id, ak_signing_secret = sealed_secret, ak_hmac_mode = mode,
           ak_bound_ips = ckp_bound_ips payload, ak_max_concurrent_jobs = max_concurrent_jobs,
           ak_is_master = False, ak_can_manage_keys = unwrap_or (ckp_can_manage_keys payload) False,
           ak_can_manage_hooks = unwrap_or (ckp_can_manage_hooks payload) False,
           ak_parent_key_id = Some (ak_id key), ak_created_at = now, ak_updated_at = now,
           ak_canonical_template = canonical_template\<rparr> in
     commit (insert_key model) db (\<lambda>db.
     and_then (create_audit_log E 1 key client_ip ''KEY_CREATE'' (Some (ckp_name payload))
        (Some (''Created key '' @ format_reference (ev_ext E) (ckp_name payload) i @ '' (''
          @ (if wants_signing_pair then describe_hmac_mode mode
             else ''bearer-only, no signing secret'') @ '')'')) db) (\<lambda>_ db.
     (Inr \<lparr>ckr_id = i, ckr_plaintext_key = plaintext_key, ckr_key_id = key_id,
        ckr_signing_secret = signing_secret, ckr_name = ckp_name payload,
        ckr_bound_ips = ckp_bound_ips payload\<rparr>, db))))))))))"

definition list_api_keys :: "api_key \<Rightarrow> database \<Rightarrow> api_key_view list result" where
  "list_api_keys key db =
     check (require (ak_is_master key \<or> ak_can_manage_keys key) permission_denied) (\<lambda>_.
     let keys = sort_key ak_created_at (db_keys db);
         subtree = (if ak_is_master key then [] else descendant_key_ids db (ak_id key));
         managed = (if ak_is_master key then [] else managed_hook_ids db (ak_id key));
         shared_holders = (if managed = [] then []
           else map pm_api_key_id (filter (\<lambda>p. pm_hook_id p \<in> set managed) (db_perms db)))
     in Inr (List.map_filter (\<lambda>model.
          if ak_is_master key \<or> ak_id model = ak_id key \<or> ak_id model \<in> set subtree
          then Some (FullView (build_api_key_summary db model))
          else if ak_id model \<in> set shared_holders
          then Some (MinimalView (build_minimal_api_key_view db model managed))
          else None) keys))"

section \<open>Updating a key\<close>

definition apply_key_update :: "update_api_key_payload \<Rightarrow> time \<Rightarrow> api_key \<Rightarrow> api_key" where
  "apply_key_update payload now target =
     target\<lparr>
       ak_name := unwrap_or (ukp_name payload) (ak_name target),
       ak_bound_ips :=
         (case ukp_bound_ips payload of Some b \<Rightarrow> Some b | None \<Rightarrow> ak_bound_ips target),
       ak_max_concurrent_jobs :=
         unwrap_or (ukp_max_concurrent_jobs payload) (ak_max_concurrent_jobs target),
       ak_canonical_template :=
         (case ukp_canonical_template payload of
            Some template \<Rightarrow> if template = [] then None else Some template
          | None \<Rightarrow> ak_canonical_template target),
       ak_can_manage_keys := unwrap_or (ukp_can_manage_keys payload) (ak_can_manage_keys target),
       ak_can_manage_hooks := unwrap_or (ukp_can_manage_hooks payload) (ak_can_manage_hooks target),
       ak_updated_at := now\<rparr>"

definition update_api_key ::
  "env \<Rightarrow> api_key \<Rightarrow> ip \<Rightarrow> uuid \<Rightarrow> update_api_key_payload \<Rightarrow> database \<Rightarrow>
     api_key_summary result \<times> database" where
  "update_api_key E key client_ip i payload db =
     attempt (require (ak_is_master key \<or> ak_can_manage_keys key) permission_denied) db (\<lambda>_.
     attempt (load_administrable_key db key i) db (\<lambda>target.
     attempt (guard_master_to_administer key target ''update'') db (\<lambda>_.
     attempt (guard_master_self_edit_is_bound_ips_only key target payload) db (\<lambda>_.
     attempt (guard_master_to_grant_scopes key (ukp_can_manage_keys payload)
                (ukp_can_manage_hooks payload)) db (\<lambda>_.
     let effective_can_manage_keys =
           unwrap_or (ukp_can_manage_keys payload) (ak_can_manage_keys target);
         effective_canonical_template =
           (case ukp_canonical_template payload of
              Some t \<Rightarrow> if t \<noteq> [] then Some t else None
            | None \<Rightarrow> ak_canonical_template target) in
     attempt (guard_canonical_v1_for_key_management effective_can_manage_keys (ak_hmac_mode target)
                effective_canonical_template) db (\<lambda>_.
     attempt (case ukp_bound_ips payload of
                Some bound_ips \<Rightarrow> validate_bound_ips (ev_ext E) bound_ips | None \<Rightarrow> Inr ()) db (\<lambda>_.
     attempt (case ukp_max_concurrent_jobs payload of
                Some jobs \<Rightarrow> validate_concurrency jobs | None \<Rightarrow> Inr ()) db (\<lambda>_.
     let updated = apply_key_update payload (ev_now E 0) target in
     commit (update_key updated) db (\<lambda>db.
     and_then (create_audit_log E 1 key client_ip ''KEY_UPDATE'' (Some (ak_name updated))
        (Some (''Updated key '' @ format_reference (ev_ext E) (ak_name updated) i)) db) (\<lambda>_ db.
     (Inr (build_api_key_summary db updated), db)))))))))))"

end
