(* ===== verification/Key_Lifecycle.thy ===== *)
theory Key_Lifecycle
  imports Keys
begin

text \<open>
  The handlers of \<open>src/api/keys.rs\<close> that end or replace a credential: deletion of a key with its
  subtree and the resolution of what the subtree owns, rotation, and the two partial regenerations.
\<close>

section \<open>Deleting a key\<close>

datatype entity_resolution = Delete | Reassign uuid

record owned_entity =
  oe_entity_type :: string
  oe_id :: uuid
  oe_name :: string
  oe_current_owner :: uuid

record doomed_key =
  dk_id :: uuid
  dk_name :: string

text \<open>The payload's \<open>HashMap\<close>, as the list of its entries in iteration order (the keys are distinct).\<close>

type_synonym resolutions = "(uuid \<times> entity_resolution) list"

definition collect_subtree_inventory ::
  "database \<Rightarrow> uuid \<Rightarrow> uuid list \<times> doomed_key list \<times> owned_entity list" where
  "collect_subtree_inventory db root =
     (let subtree = root # descendant_key_ids db root;
          doomed = map (\<lambda>k. \<lparr>dk_id = ak_id k, dk_name = ak_name k\<rparr>)
            (sort_key ak_created_at (filter (\<lambda>k. ak_id k \<in> set subtree) (db_keys db)));
          inventory = List.map_filter
            (\<lambda>h. map_option (\<lambda>owner. \<lparr>oe_entity_type = ''hook'', oe_id = hk_id h, oe_name = hk_name h,
                                      oe_current_owner = owner\<rparr>) (hk_owner_key_id h))
            (sort_key hk_name (filter (\<lambda>h. case hk_owner_key_id h of
                Some owner \<Rightarrow> owner \<in> set subtree | None \<Rightarrow> False) (db_hooks db)))
      in (subtree, doomed, inventory))"

definition doomed_json :: "externals \<Rightarrow> doomed_key \<Rightarrow> json" where
  "doomed_json X k =
     JObject [(''id'', JString (x_uuid_text X (dk_id k))), (''name'', JString (dk_name k))]"

definition owned_json :: "externals \<Rightarrow> owned_entity \<Rightarrow> json" where
  "owned_json X e =
     JObject [(''type'', JString (oe_entity_type e)), (''id'', JString (x_uuid_text X (oe_id e))),
       (''name'', JString (oe_name e)), (''current_owner'', JString (x_uuid_text X (oe_current_owner e)))]"

definition inventory_refusal :: "externals \<Rightarrow> doomed_key list \<Rightarrow> owned_entity list \<Rightarrow> json" where
  "inventory_refusal X doomed inventory =
     JObject [(''subtree'', JArray (map (doomed_json X) doomed)),
       (''inventory'', JArray (map (owned_json X) inventory))]"

definition deletion_refused_message :: "nat \<Rightarrow> string" where
  "deletion_refused_message n =
     ''Deletion refused: this key subtree owns '' @ nat_text n @ '' entit''
     @ (if n = 1 then ''y'' else ''ies'')
     @ '' with no resolution. Resubmit with a '' @ single_quoted ''resolutions''
     @ '' map naming, for every id below, either {\"action\":\"delete\"} or {\"action\":\"reassign\",\"to\":\"<key-id>\"}.''"

fun check_reassignments ::
  "externals \<Rightarrow> database \<Rightarrow> uuid list \<Rightarrow> resolutions \<Rightarrow> unit result" where
  "check_reassignments X db subtree [] = Inr ()"
| "check_reassignments X db subtree ((entity_id, Delete) # r) = check_reassignments X db subtree r"
| "check_reassignments X db subtree ((entity_id, Reassign to) # r) =
     (if to \<in> set subtree
      then Inl (InvalidInput (''cannot reassign '' @ single_quoted (x_uuid_text X entity_id) @ '' to ''
             @ single_quoted (x_uuid_text X to)
             @ '': that key is inside the subtree being                      deleted''))
      else if find_key db to = None
      then Inl (InvalidInput (''cannot reassign '' @ single_quoted (x_uuid_text X entity_id) @ '' to ''
             @ single_quoted (x_uuid_text X to) @ '': no such API key''))
      else check_reassignments X db subtree r)"

fun resolve_entity :: "externals \<Rightarrow> api_key \<Rightarrow> time \<Rightarrow> entity_resolution \<Rightarrow> hook \<Rightarrow> hook" where
  "resolve_entity X key now Delete h =
     h\<lparr>hk_is_deleted := True, hk_deleted_at := Some now,
       hk_deleted_by := Some (x_uuid_text X (ak_id key)), hk_updated_at := now\<rparr>"
| "resolve_entity X key now (Reassign to) h = h\<lparr>hk_owner_key_id := Some to, hk_updated_at := now\<rparr>"

text \<open>The counters are (moved to the trash, reassigned).\<close>

fun apply_resolutions ::
  "externals \<Rightarrow> api_key \<Rightarrow> time \<Rightarrow> resolutions \<Rightarrow> nat \<times> nat \<Rightarrow> database \<Rightarrow>
     (nat \<times> nat) result \<times> database" where
  "apply_resolutions X key now [] counts db = (Inr counts, db)"
| "apply_resolutions X key now ((entity_id, resolution) # r) (deleted, reassigned) db =
     (case find_hook db entity_id of
        None \<Rightarrow> apply_resolutions X key now r (deleted, reassigned) db
      | Some model \<Rightarrow>
          commit (update_hook_row (resolve_entity X key now resolution model)) db (\<lambda>db.
          apply_resolutions X key now r
            (case resolution of Delete \<Rightarrow> (Suc deleted, reassigned) | Reassign _ \<Rightarrow> (deleted, Suc reassigned))
            db))"

definition delete_api_key ::
  "env \<Rightarrow> api_key \<Rightarrow> ip \<Rightarrow> uuid \<Rightarrow> resolutions \<Rightarrow> database \<Rightarrow> unit result \<times> database" where
  "delete_api_key E key client_ip i resolutions db =
     attempt (require (ak_is_master key \<or> ak_can_manage_keys key) permission_denied) db (\<lambda>_.
     attempt (require (i \<noteq> ak_id key) (Forbidden ''Cannot delete yourself'')) db (\<lambda>_.
     attempt (load_administrable_key db key i) db (\<lambda>target.
     attempt (guard_master_to_administer key target ''delete'') db (\<lambda>_.
     attempt (refuse_master_lifecycle_action target ''delete'') db (\<lambda>_.
     let X = ev_ext E;
         reference = format_reference X (ak_name target) i;
         (subtree, doomed, inventory) = collect_subtree_inventory db i;
         inventoried = map oe_id inventory in
     attempt (case List.find (\<lambda>k. k \<notin> set inventoried) (map fst resolutions) of
                Some stray \<Rightarrow> Inl (InvalidInput (''resolution supplied for ''
                  @ single_quoted (x_uuid_text X stray) @ '', which this key subtree does not own''))
              | None \<Rightarrow> Inr ()) db (\<lambda>_.
     let unresolved = filter (\<lambda>e. oe_id e \<notin> set (map fst resolutions)) inventory in
     attempt (require (unresolved = [])
       (ConflictWithDetails (deletion_refused_message (length unresolved))
          (inventory_refusal X doomed inventory))) db (\<lambda>_.
     attempt (check_reassignments X db subtree resolutions) db (\<lambda>_.
     and_then (apply_resolutions X key (ev_now E 0) resolutions (0, 0) db) (\<lambda>(deleted, reassigned) db.
     let (rows_affected, db) = delete_keys subtree db in
     attempt (require (rows_affected \<noteq> 0) NotFound) db (\<lambda>_.
     create_audit_log E 1 key client_ip ''KEY_DELETE'' (Some (ak_name target))
       (Some (''Deleted key '' @ reference @ '' and '' @ nat_text (length subtree - 1)
         @ '' descendant key(s); '' @ nat_text reassigned @ '' hook(s)              reassigned, ''
         @ nat_text deleted @ '' hook(s) moved to the trash'')) db))))))))))"

section \<open>Replacing credentials\<close>

record rotate_key_response =
  rkr_id :: uuid
  rkr_plaintext_key :: string
  rkr_key_id :: string
  rkr_signing_secret :: string

record regenerate_key_response =
  rgk_id :: uuid
  rgk_plaintext_key :: string

record regenerate_secret_response =
  rgs_id :: uuid
  rgs_key_id :: string
  rgs_signing_secret :: string

definition rotate_api_key ::
  "env \<Rightarrow> api_key \<Rightarrow> ip \<Rightarrow> uuid \<Rightarrow> database \<Rightarrow> rotate_key_response result \<times> database" where
  "rotate_api_key E key client_ip i db =
     attempt (require (ak_is_master key \<or> ak_can_manage_keys key) permission_denied) db (\<lambda>_.
     attempt (load_administrable_key db key i) db (\<lambda>target.
     attempt (guard_master_to_administer key target ''rotate'') db (\<lambda>_.
     attempt (refuse_master_lifecycle_action target ''rotate'') db (\<lambda>_.
     let plaintext_key = generate_random_key E 0 in
     attempt (mint_signing_pair E 1) db (\<lambda>(key_id, signing_secret, sealed_secret).
     commit (update_key (target\<lparr>ak_key_hash := hash_key (ev_ext E) plaintext_key,
         ak_prefix := take 8 plaintext_key, ak_key_id := Some key_id,
         ak_signing_secret := Some sealed_secret, ak_updated_at := ev_now E 0\<rparr>)) db (\<lambda>db.
     and_then (create_audit_log E 1 key client_ip ''KEY_ROTATE'' (Some (ak_name target))
        (Some (''Rotated secret for key '' @ format_reference (ev_ext E) (ak_name target) i)) db) (\<lambda>_ db.
     (Inr \<lparr>rkr_id = i, rkr_plaintext_key = plaintext_key, rkr_key_id = key_id,
        rkr_signing_secret = signing_secret\<rparr>, db))))))))"

definition regenerate_key ::
  "env \<Rightarrow> api_key \<Rightarrow> ip \<Rightarrow> uuid \<Rightarrow> database \<Rightarrow> regenerate_key_response result \<times> database" where
  "regenerate_key E key client_ip i db =
     attempt (require (ak_is_master key \<or> ak_can_manage_keys key) permission_denied) db (\<lambda>_.
     attempt (load_administrable_key db key i) db (\<lambda>target.
     attempt (guard_master_to_administer key target ''regenerate'') db (\<lambda>_.
     attempt (refuse_master_lifecycle_action target ''regenerate'') db (\<lambda>_.
     let plaintext_key = generate_random_key E 0 in
     commit (update_key (target\<lparr>ak_key_hash := hash_key (ev_ext E) plaintext_key,
         ak_prefix := take 8 plaintext_key, ak_updated_at := ev_now E 0\<rparr>)) db (\<lambda>db.
     and_then (create_audit_log E 1 key client_ip ''KEY_REGENERATE_KEY'' (Some (ak_name target))
        (Some (''Regenerated the bearer API key for '' @ format_reference (ev_ext E) (ak_name target) i
          @ ''; its signing secret is unchanged'')) db) (\<lambda>_ db.
     (Inr \<lparr>rgk_id = i, rgk_plaintext_key = plaintext_key\<rparr>, db)))))))"

definition regenerate_secret ::
  "env \<Rightarrow> api_key \<Rightarrow> ip \<Rightarrow> uuid \<Rightarrow> database \<Rightarrow> regenerate_secret_response result \<times> database" where
  "regenerate_secret E key client_ip i db =
     attempt (require (ak_is_master key \<or> ak_can_manage_keys key) permission_denied) db (\<lambda>_.
     attempt (load_administrable_key db key i) db (\<lambda>target.
     attempt (guard_master_to_administer key target ''regenerate'') db (\<lambda>_.
     attempt (refuse_master_lifecycle_action target ''regenerate'') db (\<lambda>_.
     attempt (mint_signing_pair E 0) db (\<lambda>(key_id, signing_secret, sealed_secret).
     commit (update_key (target\<lparr>ak_key_id := Some key_id, ak_signing_secret := Some sealed_secret,
         ak_updated_at := ev_now E 0\<rparr>)) db (\<lambda>db.
     and_then (create_audit_log E 1 key client_ip ''KEY_REGENERATE_SECRET'' (Some (ak_name target))
        (Some (''Regenerated the signing secret for '' @ format_reference (ev_ext E) (ak_name target) i
          @ ''; its bearer API key is unchanged'')) db) (\<lambda>_ db.
     (Inr \<lparr>rgs_id = i, rgs_key_id = key_id, rgs_signing_secret = signing_secret\<rparr>, db))))))))"

end
