(* ===== verification/Key_Permissions.thy ===== *)
theory Key_Permissions
  imports Keys
begin

text \<open>
  The permission endpoints of \<open>src/api/keys.rs\<close>: granting or reducing a key's verbs on a hook, and
  revoking its row.
\<close>

record hook_perm_input =
  hpi_hook_id :: "string option"
  hpi_hook_name :: "string option"
  hpi_can_execute :: bool
  hpi_can_manage :: bool
  hpi_can_view_execution :: bool

text \<open>\<open>update\_columns\<close> of the upsert: the three verbs.\<close>

definition take_verbs :: "permission \<Rightarrow> permission \<Rightarrow> permission" where
  "take_verbs old new = old\<lparr>pm_can_execute := pm_can_execute new, pm_can_manage := pm_can_manage new,
     pm_can_view_execution := pm_can_view_execution new\<rparr>"

definition hook_identifier :: "hook_perm_input \<Rightarrow> string result" where
  "hook_identifier payload =
     (case (hpi_hook_id payload, hpi_hook_name payload) of
        (Some _, Some _) \<Rightarrow> Inl (InvalidInput ''Provide either hook_id or hook_name, not both'')
      | (None, None) \<Rightarrow> Inl (InvalidInput ''Either hook_id or hook_name is required'')
      | (Some v, None) \<Rightarrow> Inr v
      | (None, Some v) \<Rightarrow> Inr v)"

definition update_key_hook_permissions ::
  "env \<Rightarrow> api_key \<Rightarrow> ip \<Rightarrow> uuid \<Rightarrow> hook_perm_input \<Rightarrow> database \<Rightarrow> unit result \<times> database" where
  "update_key_hook_permissions E key client_ip i payload db =
     attempt (require (has_permission_admin_standing db key) permission_denied) db (\<lambda>_.
     attempt (ok_or (find_key db i) NotFound) db (\<lambda>target_key.
     attempt (require (key_visibility db key target_key \<noteq> None) NotFound) db (\<lambda>_.
     attempt (require (\<not> ak_is_master target_key)
       (InvalidInput ''Cannot configure M:N permissions on a master key'')) db (\<lambda>_.
     attempt (hook_identifier payload) db (\<lambda>identifier.
     attempt (resolve_hook (ev_ext E) db identifier) db (\<lambda>hook_model.
     let existing = hook_permission db i (hk_id hook_model);
         reduction = is_permission_reduction existing (hpi_can_execute payload)
           (hpi_can_manage payload) (hpi_can_view_execution payload) in
     attempt
       (if ak_is_master key then Inr ()
        else if reduction
        then check (guard_hook_manage_conjunction db key (hk_id hook_model)) (\<lambda>_. Inr ())
        else if i = ak_id key
        then Inl (Forbidden ''Only master API keys can grant themselves hook permissions'')
        else guard_delegated_hook_grant db key hook_model (hpi_can_execute payload)
               (hpi_can_manage payload) (hpi_can_view_execution payload)) db (\<lambda>_.
     attempt (if \<not> ak_is_master key
              then guard_master_for_privileged_hook key hook_model ''grant permissions on''
              else Inr ()) db (\<lambda>_.
     let perm = \<lparr>pm_id = ev_uuid E 0, pm_api_key_id = i, pm_hook_id = hk_id hook_model,
           pm_can_execute = hpi_can_execute payload, pm_can_manage = hpi_can_manage payload,
           pm_can_view_execution = hpi_can_view_execution payload, pm_created_at = ev_now E 0\<rparr> in
     commit (upsert_perm take_verbs perm) db (\<lambda>db.
     create_audit_log E 1 key client_ip ''KEY_PERM_UPDATE'' (Some (hk_name hook_model))
       (Some (''Updated permissions for key ''
         @ format_reference (ev_ext E) (ak_name target_key) i)) db)))))))))"

definition revoke_key_hook_permission ::
  "env \<Rightarrow> api_key \<Rightarrow> ip \<Rightarrow> uuid \<Rightarrow> string \<Rightarrow> database \<Rightarrow> unit result \<times> database" where
  "revoke_key_hook_permission E key client_ip i identifier db =
     attempt (require (has_permission_admin_standing db key) permission_denied) db (\<lambda>_.
     attempt (resolve_hook (ev_ext E) db identifier) db (\<lambda>hook_model.
     attempt (if \<not> ak_is_master key
              then check (guard_hook_manage_conjunction db key (hk_id hook_model)) (\<lambda>_. Inr ())
              else Inr ()) db (\<lambda>_.
     let (rows_affected, db) = delete_perms i (hk_id hook_model) db in
     attempt (require (rows_affected \<noteq> 0) NotFound) db (\<lambda>_.
     attempt (ok_or (find_key db i) NotFound) db (\<lambda>target.
     create_audit_log E 1 key client_ip ''KEY_PERM_REVOKE'' (Some (hk_name hook_model))
       (Some (''Revoked permissions for key ''
         @ format_reference (ev_ext E) (ak_name target) i)) db)))))"

end
