(* ===== verification/Rbac.thy ===== *)
theory Rbac
  imports Guards Keys
begin

text \<open>
  The access model (\<open>RBAC\_MODEL.md\<close>) as an abstract specification: \<open>permitted c d0\<close> relates two databases
  when the key \<open>c\<close> may make that one write in a request that began on \<open>d0\<close>.  The handler theories show that whatever a handler leaves
  behind, on success or on error, was reached by permitted writes; here are the invariants that follow
  from the relation alone.
\<close>

section \<open>Permitted writes\<close>

text \<open>May configure the hook: the master, its owner, or a holder of the manage conjunction.\<close>

definition manages :: "database \<Rightarrow> api_key \<Rightarrow> hook \<Rightarrow> bool" where
  "manages db c h \<longleftrightarrow> ak_is_master c \<or> hk_owner_key_id h = Some (ak_id c) \<or> holds_conjunction db c (hk_id h)"

definition privileged :: "hook \<Rightarrow> bool" where
  "privileged h \<longleftrightarrow> effective_run_as_user (hk_run_as_user h) \<noteq> None"

text \<open>An ordinary key may only keep or lose the global scopes; \<open>c\<close> being master lifts this.\<close>

definition scopes_within :: "api_key \<Rightarrow> api_key \<Rightarrow> api_key \<Rightarrow> bool" where
  "scopes_within c old new \<longleftrightarrow> ak_is_master c
     \<or> ((ak_can_manage_keys new \<longrightarrow> ak_can_manage_keys old)
        \<and> (ak_can_manage_hooks new \<longrightarrow> ak_can_manage_hooks old))"

definition administrator :: "api_key \<Rightarrow> bool" where
  "administrator c \<longleftrightarrow> ak_is_master c \<or> ak_can_manage_keys c"

text \<open>A key is born under its creator, never as master, and with a global scope only from the master.\<close>

definition key_birth_allowed :: "database \<Rightarrow> api_key \<Rightarrow> api_key \<Rightarrow> bool" where
  "key_birth_allowed db c r \<longleftrightarrow> administrator c \<and> \<not> ak_is_master r
     \<and> ak_parent_key_id r = Some (ak_id c) \<and> key_exists (ak_id c) db
     \<and> (ak_can_manage_keys r \<or> ak_can_manage_hooks r \<longrightarrow> ak_is_master c)"

text \<open>An edit keeps the parent; the master row yields to itself only, and only its address binding.\<close>

definition key_edit_allowed :: "database \<Rightarrow> api_key \<Rightarrow> api_key \<Rightarrow> api_key \<Rightarrow> bool" where
  "key_edit_allowed db c old new \<longleftrightarrow> administrator c \<and> administers db c (ak_id old)
     \<and> ak_parent_key_id new = ak_parent_key_id old \<and> ak_is_master new = ak_is_master old
     \<and> (ak_is_master old \<longrightarrow> ak_is_master c \<and> ak_id c = ak_id old
          \<and> new = old\<lparr>ak_bound_ips := ak_bound_ips new, ak_updated_at := ak_updated_at new\<rparr>)
     \<and> scopes_within c old new"

text \<open>What the holder of the manage conjunction may hand on: nothing beyond its own verbs.\<close>

definition may_grant :: "database \<Rightarrow> api_key \<Rightarrow> permission \<Rightarrow> bool" where
  "may_grant db c r \<longleftrightarrow> ak_is_master c \<or> (ak_can_manage_keys c \<and> pm_api_key_id r \<noteq> ak_id c
     \<and> (\<exists>p. hook_permission db (ak_id c) (pm_hook_id r) = Some p \<and> pm_can_manage p
          \<and> verbs_within p (pm_can_execute r) (pm_can_manage r) (pm_can_view_execution r)))"

text \<open>Taking verbs away needs the conjunction only, and may be done to oneself.\<close>

definition may_reduce :: "database \<Rightarrow> api_key \<Rightarrow> permission \<Rightarrow> bool" where
  "may_reduce db c r \<longleftrightarrow> holds_conjunction db c (pm_hook_id r)
     \<and> (case hook_permission db (pm_api_key_id r) (pm_hook_id r) of
          Some p \<Rightarrow> verbs_within p (pm_can_execute r) (pm_can_manage r) (pm_can_view_execution r)
        | None \<Rightarrow> \<not> pm_can_execute r \<and> \<not> pm_can_manage r \<and> \<not> pm_can_view_execution r)"

text \<open>The changes an update may make to a hook.\<close>

definition hook_edit_allowed :: "database \<Rightarrow> api_key \<Rightarrow> hook \<Rightarrow> hook \<Rightarrow> bool" where
  "hook_edit_allowed db c old new \<longleftrightarrow> manages db c old
     \<and> (privileged old \<or> privileged new \<longrightarrow> ak_is_master c)
     \<and> (hk_script_path new \<noteq> hk_script_path old \<or> hk_args_template new \<noteq> hk_args_template old
          \<or> hk_run_as_user new \<noteq> hk_run_as_user old \<longrightarrow>
          ak_is_master c \<or> holds_conjunction db c (hk_id old))
     \<and> (hk_name new \<noteq> hk_name old \<longrightarrow> ak_is_master c \<or> hk_owner_key_id old = Some (ak_id c))
     \<and> (hk_owner_key_id new \<noteq> hk_owner_key_id old \<longrightarrow>
          ak_is_master c \<and> (\<exists>o1. hk_owner_key_id new = Some o1 \<and> key_exists o1 db))
     \<and> \<not> hk_is_deleted old \<and> hk_is_deleted new = hk_is_deleted old"

text \<open>
  The settlement of a hook that a doomed subtree owns: to the trash, or to another key.  Everything
  else of the row stays: \<open>custody\<close> is the row without its owner and its trash marks.
\<close>

definition custody :: "hook \<Rightarrow> hook" where
  "custody h = h\<lparr>hk_owner_key_id := None, hk_is_deleted := False, hk_deleted_at := None,
     hk_deleted_by := None, hk_updated_at := 0\<rparr>"

definition hook_settlement :: "database \<Rightarrow> api_key \<Rightarrow> hook \<Rightarrow> hook \<Rightarrow> bool" where
  "hook_settlement db c old new \<longleftrightarrow> administrator c
     \<and> (\<exists>owner. hk_owner_key_id old = Some owner \<and> administers db c owner)
     \<and> ((hk_is_deleted new \<and> hk_owner_key_id new = hk_owner_key_id old)
        \<or> (hk_is_deleted new = hk_is_deleted old
           \<and> (\<exists>to. hk_owner_key_id new = Some to \<and> key_exists to db)))
     \<and> custody new = custody old"

text \<open>An upsert whose columns are exactly the three verbs.\<close>

definition sets_verbs :: "(permission \<Rightarrow> permission \<Rightarrow> permission) \<Rightarrow> bool" where
  "sets_verbs upd \<longleftrightarrow> (\<forall>old new. pm_can_execute (upd old new) = pm_can_execute new
     \<and> pm_can_manage (upd old new) = pm_can_manage new
     \<and> pm_can_view_execution (upd old new) = pm_can_view_execution new)"

inductive permitted :: "api_key \<Rightarrow> database \<Rightarrow> database \<Rightarrow> database \<Rightarrow> bool"
  for c :: api_key and d0 :: database where
  audited: "insert_audit r db = Inr db' \<Longrightarrow> al_api_key_id r = Some (ak_id c) \<Longrightarrow> permitted c d0 db db'"
| key_created: "insert_key r db = Inr db' \<Longrightarrow> key_birth_allowed db c r \<Longrightarrow> permitted c d0 db db'"
| key_changed: "find_key db (ak_id r) = Some old \<Longrightarrow> update_key r db = Inr db'
     \<Longrightarrow> key_edit_allowed db c old r \<Longrightarrow> permitted c d0 db db'"
| keys_deleted: "find_key db i = Some target \<Longrightarrow> administrator c \<Longrightarrow> administers db c i
     \<Longrightarrow> i \<noteq> ak_id c \<Longrightarrow> \<not> ak_is_master target
     \<Longrightarrow> set gone = insert i (set (descendant_key_ids db i))
     \<Longrightarrow> (\<forall>h\<in>set (db_hooks db). \<forall>o1. hk_owner_key_id h = Some o1 \<and> o1 \<in> set gone \<longrightarrow> hk_is_deleted h)
     \<Longrightarrow> db' = snd (delete_keys gone db) \<Longrightarrow> permitted c d0 db db'"
| hook_created: "insert_hook r db = Inr db' \<Longrightarrow> ak_is_master c \<or> ak_can_manage_hooks c
     \<Longrightarrow> hk_owner_key_id r = Some (ak_id c) \<Longrightarrow> \<not> hk_is_deleted r
     \<Longrightarrow> (privileged r \<longrightarrow> ak_is_master c) \<Longrightarrow> permitted c d0 db db'"
| hook_edited: "find_hook db (hk_id r) = Some old \<Longrightarrow> update_hook_row r db = Inr db'
     \<Longrightarrow> hook_edit_allowed db c old r \<Longrightarrow> permitted c d0 db db'"
| hook_settled: "find_hook db (hk_id r) = Some old \<Longrightarrow> update_hook_row r db = Inr db'
     \<Longrightarrow> hook_settlement db c old r \<Longrightarrow> permitted c d0 db db'"
| hook_restored: "find_hook db (hk_id r) = Some old \<Longrightarrow> update_hook_row r db = Inr db'
     \<Longrightarrow> ak_is_master c
     \<Longrightarrow> r = old\<lparr>hk_is_deleted := False, hk_deleted_at := None, hk_deleted_by := None, hk_updated_at := now\<rparr>
     \<Longrightarrow> permitted c d0 db db'"
| hook_trashed: "find_hook db (hk_id r) = Some old \<Longrightarrow> update_hook_row r db = Inr db'
     \<Longrightarrow> ak_is_master c \<or> (hk_owner_key_id old = Some (ak_id c) \<and> \<not> privileged old)
     \<Longrightarrow> r = old\<lparr>hk_is_deleted := True, hk_deleted_at := t, hk_deleted_by := b, hk_updated_at := now\<rparr>
     \<Longrightarrow> permitted c d0 db db'"
| hooks_removed: "ak_is_master c \<Longrightarrow> db' = snd (delete_hooks Q db) \<Longrightarrow> permitted c d0 db db'"
| param_added: "find_hook db (hp_hook_id r) = Some h \<Longrightarrow> insert_param r db = Inr db' \<Longrightarrow> manages db c h
     \<Longrightarrow> (privileged h \<longrightarrow> ak_is_master c) \<Longrightarrow> permitted c d0 db db'"
| param_changed: "find_hook db (hp_hook_id r) = Some h \<Longrightarrow> update_param r db = Inr db' \<Longrightarrow> manages db c h
     \<Longrightarrow> (privileged h \<longrightarrow> ak_is_master c)
     \<Longrightarrow> find_param db (hp_id r) = Some old \<Longrightarrow> hp_hook_id old = hp_hook_id r \<Longrightarrow> permitted c d0 db db'"
| param_removed: "find_param db i = Some old \<Longrightarrow> find_hook db (hp_hook_id old) = Some h \<Longrightarrow> manages db c h
     \<Longrightarrow> (privileged h \<longrightarrow> ak_is_master c) \<Longrightarrow> db' = delete_param i db \<Longrightarrow> permitted c d0 db db'"
| own_hook_granted: "find_hook db (pm_hook_id r) = Some h \<Longrightarrow> hk_owner_key_id h = Some (ak_id c)
     \<Longrightarrow> pm_api_key_id r = ak_id c \<Longrightarrow> \<not> hook_exists (pm_hook_id r) d0
     \<Longrightarrow> ak_is_master c \<or> ak_can_manage_hooks c
     \<Longrightarrow> keeps_keys upd \<Longrightarrow> upsert_perm upd r db = Inr db' \<Longrightarrow> permitted c d0 db db'"
| verbs_set: "upsert_perm upd r db = Inr db' \<Longrightarrow> keeps_keys upd \<Longrightarrow> sets_verbs upd
     \<Longrightarrow> may_grant db c r \<or> may_reduce db c r
     \<Longrightarrow> find_hook db (pm_hook_id r) = Some h \<Longrightarrow> (privileged h \<longrightarrow> ak_is_master c)
     \<Longrightarrow> find_key db (pm_api_key_id r) = Some target \<Longrightarrow> \<not> ak_is_master target \<Longrightarrow> permitted c d0 db db'"
| verbs_revoked: "ak_is_master c \<or> holds_conjunction db c hook_id
     \<Longrightarrow> db' = snd (delete_perms key_id hook_id db) \<Longrightarrow> permitted c d0 db db'"
| execution_removed: "find_exec db i = Some e \<Longrightarrow> find_hook db (ex_hook_id e) = Some h \<Longrightarrow> manages db c h
     \<Longrightarrow> db' = snd (delete_execs (\<lambda>e. ex_id e = i) db) \<Longrightarrow> permitted c d0 db db'"
| executions_purged: "ak_is_master c \<Longrightarrow> db' = snd (delete_execs Q db) \<Longrightarrow> permitted c d0 db db'"
| execution_added: "insert_exec r db = Inr db' \<Longrightarrow> ex_api_key_id r = Some (ak_id c)
     \<Longrightarrow> guard_execute db c (ex_hook_id r) = Inr () \<Longrightarrow> find_hook db (ex_hook_id r) = Some h
     \<Longrightarrow> \<not> hk_is_deleted h \<Longrightarrow> permitted c d0 db db'"

abbreviation writes :: "api_key \<Rightarrow> database \<Rightarrow> database \<Rightarrow> database \<Rightarrow> bool" where
  "writes c d0 \<equiv> (permitted c d0)\<^sup>*\<^sup>*"

text \<open>A property that every permitted write keeps, every sequence of them keeps.\<close>

lemma writes_keep:
  assumes "writes c d0 db db'" and "P db" and "\<And>d d'. P d \<Longrightarrow> permitted c d0 d d' \<Longrightarrow> P d'"
  shows "P db'"
  using assms(1,2) by (induction rule: rtranclp_induct) (blast intro: assms(3))+

section \<open>What a write leaves\<close>

lemma insert_key_shape: "insert_key r d = Inr d' \<Longrightarrow> d' = d\<lparr>db_keys := db_keys d @ [r]\<rparr>"
  by (auto simp: insert_key_def split: if_splits)

lemma update_key_shape: "update_key r d = Inr d' \<Longrightarrow> d' = d\<lparr>db_keys := replace_row ak_id r (db_keys d)\<rparr>"
  by (auto simp: update_key_def split: if_splits)

lemma insert_hook_shape: "insert_hook r d = Inr d' \<Longrightarrow> d' = d\<lparr>db_hooks := db_hooks d @ [r]\<rparr>"
  by (auto simp: insert_hook_def split: if_splits)

lemma update_hook_shape:
  "update_hook_row r d = Inr d' \<Longrightarrow> d' = d\<lparr>db_hooks := replace_row hk_id r (db_hooks d)\<rparr>"
  by (auto simp: update_hook_row_def split: if_splits)

lemma insert_param_shape: "insert_param r d = Inr d' \<Longrightarrow> d' = d\<lparr>db_params := db_params d @ [r]\<rparr>"
  by (auto simp: insert_param_def split: if_splits)

lemma update_param_shape:
  "update_param r d = Inr d' \<Longrightarrow> d' = d\<lparr>db_params := replace_row hp_id r (db_params d)\<rparr>"
  by (auto simp: update_param_def split: if_splits)

lemma insert_exec_shape: "insert_exec r d = Inr d' \<Longrightarrow> d' = d\<lparr>db_execs := db_execs d @ [r]\<rparr>"
  by (auto simp: insert_exec_def split: if_splits)

lemma insert_audit_shape: "insert_audit r d = Inr d' \<Longrightarrow> d' = d\<lparr>db_audit := db_audit d @ [r]\<rparr>"
  by (auto simp: insert_audit_def split: if_splits)

lemma upsert_perm_shape:
  "upsert_perm upd r d = Inr d' \<Longrightarrow>
     d' = d\<lparr>db_perms := map (\<lambda>p. if pm_api_key_id p = pm_api_key_id r \<and> pm_hook_id p = pm_hook_id r
                              then upd p r else p) (db_perms d)\<rparr>
     \<or> d' = d\<lparr>db_perms := db_perms d @ [r]\<rparr>"
  by (auto simp: upsert_perm_def split: if_splits)

lemmas write_shapes = insert_key_shape update_key_shape insert_hook_shape update_hook_shape
  insert_param_shape update_param_shape insert_exec_shape insert_audit_shape
lemmas delete_shapes = delete_keys_def delete_hooks_def delete_param_def delete_execs_def delete_perms_def

text \<open>The tables a write does not touch.\<close>

lemma key_frames:
  "insert_hook h d = Inr d' \<Longrightarrow> db_keys d' = db_keys d"
  "update_hook_row h d = Inr d' \<Longrightarrow> db_keys d' = db_keys d"
  "insert_param p d = Inr d' \<Longrightarrow> db_keys d' = db_keys d"
  "update_param p d = Inr d' \<Longrightarrow> db_keys d' = db_keys d"
  "insert_exec e d = Inr d' \<Longrightarrow> db_keys d' = db_keys d"
  "insert_audit l d = Inr d' \<Longrightarrow> db_keys d' = db_keys d"
  "upsert_perm upd m d = Inr d' \<Longrightarrow> db_keys d' = db_keys d"
  by (auto dest!: write_shapes upsert_perm_shape)

lemma hook_frames:
  "insert_key k d = Inr d' \<Longrightarrow> db_hooks d' = db_hooks d"
  "update_key k d = Inr d' \<Longrightarrow> db_hooks d' = db_hooks d"
  "insert_param p d = Inr d' \<Longrightarrow> db_hooks d' = db_hooks d"
  "update_param p d = Inr d' \<Longrightarrow> db_hooks d' = db_hooks d"
  "insert_exec e d = Inr d' \<Longrightarrow> db_hooks d' = db_hooks d"
  "insert_audit l d = Inr d' \<Longrightarrow> db_hooks d' = db_hooks d"
  "upsert_perm upd m d = Inr d' \<Longrightarrow> db_hooks d' = db_hooks d"
  by (auto dest!: write_shapes upsert_perm_shape)

lemma perm_frames:
  "insert_key k d = Inr d' \<Longrightarrow> db_perms d' = db_perms d"
  "update_key k d = Inr d' \<Longrightarrow> db_perms d' = db_perms d"
  "insert_hook h d = Inr d' \<Longrightarrow> db_perms d' = db_perms d"
  "update_hook_row h d = Inr d' \<Longrightarrow> db_perms d' = db_perms d"
  "insert_param p d = Inr d' \<Longrightarrow> db_perms d' = db_perms d"
  "update_param p d = Inr d' \<Longrightarrow> db_perms d' = db_perms d"
  "insert_exec e d = Inr d' \<Longrightarrow> db_perms d' = db_perms d"
  "insert_audit l d = Inr d' \<Longrightarrow> db_perms d' = db_perms d"
  by (auto dest!: write_shapes)

lemma param_frames:
  "insert_key k d = Inr d' \<Longrightarrow> db_params d' = db_params d"
  "update_key k d = Inr d' \<Longrightarrow> db_params d' = db_params d"
  "insert_hook h d = Inr d' \<Longrightarrow> db_params d' = db_params d"
  "update_hook_row h d = Inr d' \<Longrightarrow> db_params d' = db_params d"
  "insert_exec e d = Inr d' \<Longrightarrow> db_params d' = db_params d"
  "insert_audit l d = Inr d' \<Longrightarrow> db_params d' = db_params d"
  "upsert_perm upd m d = Inr d' \<Longrightarrow> db_params d' = db_params d"
  by (auto dest!: write_shapes upsert_perm_shape)

lemma delete_frames [simp]:
  "db_keys (snd (delete_hooks P d)) = db_keys d" "db_keys (snd (delete_execs Q d)) = db_keys d"
  "db_keys (snd (delete_perms k h d)) = db_keys d" "db_keys (delete_param i d) = db_keys d"
  "db_hooks (snd (delete_keys gone d)) = db_hooks d" "db_hooks (snd (delete_execs Q d)) = db_hooks d"
  "db_hooks (snd (delete_perms k h d)) = db_hooks d" "db_hooks (delete_param i d) = db_hooks d"
  "db_perms (snd (delete_execs Q d)) = db_perms d" "db_perms (delete_param i d) = db_perms d"
  "db_params (snd (delete_keys gone d)) = db_params d" "db_params (snd (delete_execs Q d)) = db_params d"
  "db_params (snd (delete_perms k h d)) = db_params d"
  by (simp_all add: delete_shapes Let_def)

section \<open>Constraints are kept\<close>

lemma permitted_wf: "permitted c d0 db db' \<Longrightarrow> wf_db db \<Longrightarrow> wf_db db'"
  by (induction rule: permitted.induct) (blast intro: write_wf delete_wf)+

lemma writes_wf: "writes c d0 db db' \<Longrightarrow> wf_db db \<Longrightarrow> wf_db db'"
  by (erule writes_keep) (auto intro: permitted_wf)

section \<open>The keys after a write\<close>

text \<open>How a row of the key table came to be there, and when it goes.\<close>

lemma permitted_keys:
  assumes "permitted c d0 db db'" and "k' \<in> set (db_keys db')"
  shows "k' \<in> set (db_keys db) \<or> (\<not> key_exists (ak_id k') db \<and> key_birth_allowed db c k')
   \<or> (\<exists>old\<in>set (db_keys db). ak_id old = ak_id k' \<and> key_edit_allowed db c old k')"
  using assms
proof (induction rule: permitted.induct)
  case (key_created r db db')
  then show ?case
    using insert_key_rows[OF key_created.hyps(1)] by (auto simp: key_exists_def)
next
  case (key_changed db r old db')
  from key_changed.prems update_key_rows[OF key_changed.hyps(2)]
  have "k' \<in> set (db_keys db) \<or> k' = r" by (auto simp: set_replace_row)
  then show ?case using key_changed.hyps(3) find_keyD[OF key_changed.hyps(1)] by blast
next
  case keys_deleted
  then show ?case by (simp add: delete_keys_def)
qed (auto dest!: key_frames)

text \<open>A key row goes only with a deleted subtree.\<close>

lemma permitted_keys_kept:
  assumes "permitted c d0 db db'" and "k \<in> set (db_keys db)"
  shows "key_exists (ak_id k) db'
   \<or> (\<exists>i target. find_key db i = Some target \<and> administrator c \<and> administers db c i \<and> i \<noteq> ak_id c
        \<and> \<not> ak_is_master target \<and> ak_id k \<in> insert i (set (descendant_key_ids db i)))"
  using assms
proof (induction rule: permitted.induct)
  case (key_created r db db')
  then show ?case using insert_key_rows[OF key_created.hyps(1)] by (auto simp: key_exists_def)
next
  case (key_changed db r old db')
  then have "map ak_id (db_keys db') = map ak_id (db_keys db)"
    using update_key_rows[OF key_changed.hyps(2)] by simp
  then have "ak_id ` set (db_keys db') = ak_id ` set (db_keys db)" by (metis set_map)
  with key_changed.prems show ?case by (simp add: key_exists_def)
next
  case (keys_deleted db i target gone db')
  then have "ak_id k \<in> set gone \<or> key_exists (ak_id k) db'"
    by (auto simp: delete_keys_def key_exists_def)
  with keys_deleted show ?case by blast
qed (auto dest!: key_frames simp: key_exists_def)

section \<open>The key tree\<close>

definition forest :: "database \<Rightarrow> bool" where
  "forest db \<longleftrightarrow> acyclic (parent_rel db)
     \<and> (\<forall>k\<in>set (db_keys db). \<forall>p. ak_parent_key_id k = Some p \<longrightarrow> key_exists p db)
     \<and> (\<forall>k\<in>set (db_keys db). ak_is_master k \<longrightarrow> ak_parent_key_id k = None)"

lemma parent_rel_iff:
  "(p, i) \<in> parent_rel db \<longleftrightarrow> (\<exists>k\<in>set (db_keys db). ak_parent_key_id k = Some p \<and> ak_id k = i)"
  unfolding parent_rel_def by blast

lemma forest_frame: "forest db \<Longrightarrow> db_keys db' = db_keys db \<Longrightarrow> forest db'"
  by (simp add: forest_def key_exists_def parent_rel_def)

lemma parent_rel_exists: "forest db \<Longrightarrow> (p, i) \<in> parent_rel db \<Longrightarrow> key_exists p db \<and> key_exists i db"
  by (auto simp: forest_def parent_rel_def key_exists_def)

lemma forest_insert:
  assumes "forest db" and "insert_key r db = Inr db'" and "\<not> ak_is_master r"
    and "ak_parent_key_id r = Some p" and "key_exists p db"
  shows "forest db'"
proof -
  from insert_key_rows[OF assms(2)] have rows: "db_keys db' = db_keys db @ [r]"
    and fresh: "\<not> key_exists (ak_id r) db" by (auto simp: key_exists_def)
  have rel: "parent_rel db' = insert (p, ak_id r) (parent_rel db)"
    using assms(4) by (auto simp: parent_rel_def rows)
  have "(ak_id r, p) \<notin> (parent_rel db)\<^sup>*"
  proof
    assume "(ak_id r, p) \<in> (parent_rel db)\<^sup>*"
    then show False
    proof (cases rule: converse_rtranclE)
      case base
      with fresh assms(5) show False by simp
    next
      case (step z)
      with fresh parent_rel_exists[OF assms(1) step(1)] show False by simp
    qed
  qed
  then have "acyclic (parent_rel db')" using assms(1) by (simp add: rel forest_def)
  moreover have "key_exists i db' \<longleftrightarrow> i = ak_id r \<or> key_exists i db" for i
    by (auto simp: key_exists_def rows)
  ultimately show ?thesis using assms by (auto simp: forest_def rows)
qed

lemma forest_update:
  assumes "wf_db db" and "forest db" and "find_key db (ak_id r) = Some old" and "update_key r db = Inr db'"
    and "ak_parent_key_id r = ak_parent_key_id old" and "ak_is_master r = ak_is_master old"
  shows "forest db'"
proof -
  have old: "old \<in> set (db_keys db)" "ak_id old = ak_id r" using find_keyD[OF assms(3)] by auto
  have rows: "db_keys db' = replace_row ak_id r (db_keys db)" using update_key_rows[OF assms(4)] by simp
  have only: "x = old" if "x \<in> set (db_keys db)" and "ak_id x = ak_id r" for x
    using keys.row_unique[OF assms(1) that(1) old(1)] that(2) old(2) by simp
  have mem: "x \<in> set (db_keys db') \<longleftrightarrow> (x \<in> set (db_keys db) \<and> x \<noteq> old) \<or> x = r" for x
  proof -
    have "x \<in> set (db_keys db') \<longleftrightarrow> (x \<in> set (db_keys db) \<and> ak_id x \<noteq> ak_id r) \<or> x = r"
      using old by (simp add: rows set_replace_row) (metis image_eqI)
    moreover have "x \<in> set (db_keys db) \<Longrightarrow> ak_id x \<noteq> ak_id r \<longleftrightarrow> x \<noteq> old" using only old(2) by blast
    ultimately show ?thesis by blast
  qed
  have "ak_id ` set (db_keys db') = ak_id ` set (db_keys db)"
    by (metis rows map_key_replace_row set_map)
  then have ids: "key_exists i db' = key_exists i db" for i by (simp add: key_exists_def)
  have "(p, i) \<in> parent_rel db' \<longleftrightarrow> (p, i) \<in> parent_rel db" for p i
  proof
    assume "(p, i) \<in> parent_rel db'"
    then obtain k where k: "k \<in> set (db_keys db')" "ak_parent_key_id k = Some p" "ak_id k = i"
      by (auto simp: parent_rel_iff)
    then have "k \<in> set (db_keys db) \<or> k = r" using mem by blast
    then show "(p, i) \<in> parent_rel db" unfolding parent_rel_iff
    proof
      assume "k = r"
      with k assms(5) old show "\<exists>k\<in>set (db_keys db). ak_parent_key_id k = Some p \<and> ak_id k = i"
        by (intro bexI[of _ old]) simp_all
    qed (use k in blast)
  next
    assume "(p, i) \<in> parent_rel db"
    then obtain k where k: "k \<in> set (db_keys db)" "ak_parent_key_id k = Some p" "ak_id k = i"
      by (auto simp: parent_rel_iff)
    show "(p, i) \<in> parent_rel db'" unfolding parent_rel_iff
    proof (cases "k = old")
      case True
      with k assms(5) old mem[of r] show "\<exists>k\<in>set (db_keys db'). ak_parent_key_id k = Some p \<and> ak_id k = i"
        by (intro bexI[of _ r]) simp_all
    next
      case False
      with k mem[of k] show "\<exists>k\<in>set (db_keys db'). ak_parent_key_id k = Some p \<and> ak_id k = i" by blast
    qed
  qed
  then have rel: "parent_rel db' = parent_rel db" by (intro set_eqI) (metis surj_pair)
  have "acyclic (parent_rel db')" using assms(2) by (simp add: rel forest_def)
  moreover have "\<forall>k\<in>set (db_keys db'). \<forall>p. ak_parent_key_id k = Some p \<longrightarrow> key_exists p db'"
    using assms(2,5) old(1) by (auto simp: forest_def ids mem)
  moreover have "\<forall>k\<in>set (db_keys db'). ak_is_master k \<longrightarrow> ak_parent_key_id k = None"
    using assms(2,5,6) old(1) by (auto simp: forest_def mem)
  ultimately show ?thesis by (simp add: forest_def)
qed

lemma forest_delete:
  assumes "forest db" and "set gone = insert i (set (descendant_key_ids db i))"
  shows "forest (snd (delete_keys gone db))" (is "forest ?d")
proof -
  have rows: "db_keys ?d = filter (\<lambda>k. ak_id k \<notin> set gone) (db_keys db)" by (simp add: delete_keys_def)
  have gone: "set gone = insert i ((parent_rel db)\<^sup>+ `` {i})"
    using assms(2) by (auto simp: set_descendant_key_ids)
  have sub: "parent_rel ?d \<subseteq> parent_rel db" by (auto simp: parent_rel_def rows)
  have "key_exists p ?d"
    if "k \<in> set (db_keys ?d)" and "ak_parent_key_id k = Some p" for k p
  proof -
    from that rows have k: "k \<in> set (db_keys db)" "ak_id k \<notin> set gone" by auto
    with that(2) have edge: "(p, ak_id k) \<in> parent_rel db" by (auto simp: parent_rel_def)
    then have "p \<notin> set gone" using k(2) gone by (auto intro: trancl_into_trancl)
    moreover from parent_rel_exists[OF assms(1) edge] have "key_exists p db" by simp
    ultimately show ?thesis by (auto simp: key_exists_def rows)
  qed
  with assms(1) show ?thesis
    unfolding forest_def by (auto intro: acyclic_subset[OF _ sub] simp: rows)
qed

lemma permitted_forest: "permitted c d0 db db' \<Longrightarrow> wf_db db \<Longrightarrow> forest db \<Longrightarrow> forest db'"
proof (induction rule: permitted.induct)
  case (key_created r db db')
  then show ?case by (auto simp: key_birth_allowed_def intro: forest_insert)
next
  case (key_changed db r old db')
  then show ?case by (auto simp: key_edit_allowed_def intro: forest_update)
next
  case keys_deleted
  then show ?case by (auto intro: forest_delete)
qed (rule forest_frame, assumption, (erule key_frames | simp))+

text \<open>In a forest the master is below nobody.\<close>

text \<open>No key is above the master; of the forest, this is what protects its row.\<close>

definition rooted :: "database \<Rightarrow> bool" where
  "rooted db \<longleftrightarrow> (\<forall>k\<in>set (db_keys db). ak_is_master k \<longrightarrow> ak_parent_key_id k = None)"

lemma forest_rooted: "forest db \<Longrightarrow> rooted db"
  by (simp add: forest_def rooted_def)

lemma master_not_below:
  assumes "rooted db" and "wf_db db" and "k \<in> set (db_keys db)" and "ak_is_master k"
  shows "(i, ak_id k) \<notin> (parent_rel db)\<^sup>+"
proof
  assume "(i, ak_id k) \<in> (parent_rel db)\<^sup>+"
  then obtain p where "(p, ak_id k) \<in> parent_rel db" by (meson tranclD2)
  then obtain k' where "k' \<in> set (db_keys db)" "ak_id k' = ak_id k" "ak_parent_key_id k' = Some p"
    by (auto simp: parent_rel_def)
  moreover from this have "k' = k" using keys.row_unique[OF assms(2)] assms(3) by blast
  ultimately show False using assms(1,3,4) by (auto simp: rooted_def)
qed

lemmas master_not_descendant = master_not_below[OF forest_rooted]

end
