(* ===== verification/Access_Invariants.thy ===== *)
theory Access_Invariants
  imports Rbac
begin

text \<open>
  What follows from the access model alone, for one permitted write and for every sequence of them:
  the master row is frozen, global scopes and verbs do not spread beyond what their giver holds, a
  privileged hook yields to the master only, and what a hook runs changes only under the manage
  conjunction.
\<close>

section \<open>The master row\<close>

definition masters :: "database \<Rightarrow> api_key list" where
  "masters db = filter ak_is_master (db_keys db)"

definition frozen :: "api_key \<Rightarrow> api_key" where
  "frozen k = k\<lparr>ak_bound_ips := None, ak_updated_at := 0\<rparr>"

lemma frozen_rebound: "frozen (k\<lparr>ak_bound_ips := b, ak_updated_at := t\<rparr>) = frozen k"
  by (simp add: frozen_def)

lemma masters_frame: "db_keys db' = db_keys db \<Longrightarrow> masters db' = masters db"
  by (simp add: masters_def)

lemma masters_insert: "insert_key r db = Inr db' \<Longrightarrow> \<not> ak_is_master r \<Longrightarrow> masters db' = masters db"
  using insert_key_rows[of r db db'] by (simp add: masters_def)

lemma masters_update:
  assumes "wf_db db" and "find_key db (ak_id r) = Some old" and "update_key r db = Inr db'"
    and edit: "key_edit_allowed db c old r"
  shows "map frozen (masters db') = map frozen (masters db)"
    and "\<not> ak_is_master c \<Longrightarrow> masters db' = masters db"
proof -
  have rows: "db_keys db' = replace_row ak_id r (db_keys db)" using update_key_rows[OF assms(3)] by simp
  have only: "x = old" if "x \<in> set (db_keys db)" and "ak_id x = ak_id r" for x
    using keys.row_unique[OF assms(1) that(1)] find_keyD[OF assms(2)] that(2) by simp
  have out: "masters db' = masters db" if "\<not> ak_is_master old"
    unfolding masters_def rows
    by (rule filter_replace_out) (use only that edit in \<open>auto simp: key_edit_allowed_def\<close>)
  have "frozen old = frozen r" if "ak_is_master old"
    using edit that by (metis key_edit_allowed_def frozen_rebound)
  then have "map frozen (masters db') = map frozen (masters db)" if "ak_is_master old"
    unfolding masters_def rows
    by (intro map_filter_replace_in) (use only that edit in \<open>auto simp: key_edit_allowed_def\<close>)
  with out show "map frozen (masters db') = map frozen (masters db)" by (cases "ak_is_master old") auto
  show "masters db' = masters db" if "\<not> ak_is_master c"
    using out that edit by (auto simp: key_edit_allowed_def)
qed

lemma masters_delete:
  assumes "wf_db db" and "rooted db" and "find_key db i = Some target" and "\<not> ak_is_master target"
    and gone: "set gone = insert i (set (descendant_key_ids db i))"
  shows "masters (snd (delete_keys gone db)) = masters db"
proof -
  have "ak_id k \<notin> set gone" if k: "k \<in> set (db_keys db)" "ak_is_master k" for k
  proof -
    have "ak_id k \<noteq> i"
      using keys.row_unique[OF assms(1) k(1)] find_keyD[OF assms(3)] k(2) assms(4) by auto
    then show ?thesis
      using master_not_below[OF assms(2,1) k] by (simp add: gone set_descendant_key_ids)
  qed
  then show ?thesis by (auto simp: masters_def delete_keys_def intro!: filter_cong)
qed

lemma permitted_masters:
  "permitted c d0 db db' \<Longrightarrow> wf_db db \<Longrightarrow> rooted db \<Longrightarrow>
     map frozen (masters db') = map frozen (masters db)
     \<and> (\<not> ak_is_master c \<longrightarrow> masters db' = masters db)"
proof (induction rule: permitted.induct)
  case (key_created r db db')
  then show ?case by (auto simp: key_birth_allowed_def dest: masters_insert)
next
  case (key_changed db r old db')
  then show ?case by (blast dest: masters_update)
next
  case keys_deleted
  then show ?case by (simp add: masters_delete)
qed (auto dest!: key_frames simp: masters_def)

lemma rooted_frozen: "map frozen (masters db') = map frozen (masters db) \<Longrightarrow> rooted db' \<longleftrightarrow> rooted db"
proof -
  have parents: "rooted d \<longleftrightarrow> (\<forall>k\<in>set (map frozen (masters d)). ak_parent_key_id k = None)" for d
    by (auto simp: rooted_def masters_def frozen_def)
  show "map frozen (masters db') = map frozen (masters db) \<Longrightarrow> ?thesis" by (simp only: parents)
qed

lemma writes_rooted:
  assumes "writes c d0 db db'" and "wf_db db" and "rooted db"
  shows "map frozen (masters db') = map frozen (masters db)
     \<and> (\<not> ak_is_master c \<longrightarrow> masters db' = masters db)"
proof -
  have "wf_db db' \<and> map frozen (masters db') = map frozen (masters db)
     \<and> (\<not> ak_is_master c \<longrightarrow> masters db' = masters db)"
    using assms(1)
  proof (rule writes_keep)
    fix d d' assume *: "wf_db d \<and> map frozen (masters d) = map frozen (masters db)
        \<and> (\<not> ak_is_master c \<longrightarrow> masters d = masters db)" and "permitted c d0 d d'"
    with permitted_masters[of c d0 d d'] permitted_wf[of c d0 d d'] rooted_frozen[of d db] assms(3)
    show "wf_db d' \<and> map frozen (masters d') = map frozen (masters db)
        \<and> (\<not> ak_is_master c \<longrightarrow> masters d' = masters db)" by simp
  qed (use assms in simp)
  then show ?thesis by blast
qed

lemmas writes_masters = writes_rooted[OF _ _ forest_rooted]

lemma writes_forest: "writes c d0 db db' \<Longrightarrow> wf_db db \<Longrightarrow> forest db \<Longrightarrow> wf_db db' \<and> forest db'"
  by (erule writes_keep[where P = "\<lambda>d. wf_db d \<and> forest d"]) (auto intro: permitted_wf permitted_forest)

section \<open>Global scopes\<close>

lemma permitted_scopes:
  assumes "permitted c d0 db db'" and "\<not> ak_is_master c" and "k' \<in> set (db_keys db')"
  shows "(ak_can_manage_keys k' \<longrightarrow> (\<exists>k\<in>set (db_keys db). ak_id k = ak_id k' \<and> ak_can_manage_keys k))
   \<and> (ak_can_manage_hooks k' \<longrightarrow> (\<exists>k\<in>set (db_keys db). ak_id k = ak_id k' \<and> ak_can_manage_hooks k))"
  using permitted_keys[OF assms(1,3)] assms(2)
  by (auto simp: key_birth_allowed_def key_edit_allowed_def scopes_within_def)

lemma writes_scopes:
  assumes "writes c d0 db db'" and "\<not> ak_is_master c" and "k' \<in> set (db_keys db')"
  shows "(ak_can_manage_keys k' \<longrightarrow> (\<exists>k\<in>set (db_keys db). ak_id k = ak_id k' \<and> ak_can_manage_keys k))
   \<and> (ak_can_manage_hooks k' \<longrightarrow> (\<exists>k\<in>set (db_keys db). ak_id k = ak_id k' \<and> ak_can_manage_hooks k))"
    (is "?P k'")
proof -
  have "\<forall>k'\<in>set (db_keys db'). ?P k'"
    using assms(1) by (rule writes_keep) (fastforce dest: permitted_scopes[OF _ assms(2)])+
  with assms(3) show ?thesis by blast
qed

section \<open>Verbs\<close>

definition holds :: "(permission \<Rightarrow> bool) \<Rightarrow> database \<Rightarrow> uuid \<Rightarrow> uuid \<Rightarrow> bool" where
  "holds verb db key_id hook_id \<longleftrightarrow>
     (\<exists>p\<in>set (db_perms db). pm_api_key_id p = key_id \<and> pm_hook_id p = hook_id \<and> verb p)"

definition verbs :: "(permission \<Rightarrow> bool) set" where
  "verbs = {pm_can_execute, pm_can_manage, pm_can_view_execution}"

lemma holds_frame: "db_perms db' = db_perms db \<Longrightarrow> holds verb db' k h = holds verb db k h"
  by (simp add: holds_def)

lemma hook_permission_holds:
  "hook_permission db k h = Some p \<Longrightarrow> verb p \<Longrightarrow> holds verb db k h"
  unfolding holds_def by (metis hook_permission_SomeD)

lemma conjunction_holds: "holds_conjunction db c h \<Longrightarrow> holds pm_can_manage db (ak_id c) h"
  by (auto simp: holds_conjunction_def intro: hook_permission_holds)

lemma upsert_holds:
  assumes "upsert_perm upd r db = Inr db'" and "keeps_keys upd" and "sets_verbs upd" and "verb \<in> verbs"
    and "holds verb db' k h"
  shows "holds verb db k h \<or> (k = pm_api_key_id r \<and> h = pm_hook_id r \<and> verb r)"
proof -
  have upd: "verb (upd p r) = verb r" for p
    using assms(3,4) by (auto simp: sets_verbs_def verbs_def)
  have ids: "pm_api_key_id (upd p r) = pm_api_key_id p" "pm_hook_id (upd p r) = pm_hook_id p" for p
    using assms(2) by (simp_all add: keeps_keys_def)
  from assms(5) obtain q where q: "q \<in> set (db_perms db')" "pm_api_key_id q = k" "pm_hook_id q = h" "verb q"
    by (auto simp: holds_def)
  from upsert_perm_shape[OF assms(1)] q(1)
  consider "q \<in> set (db_perms db)" | "q = r"
    | p where "pm_api_key_id p = pm_api_key_id r" "pm_hook_id p = pm_hook_id r" "q = upd p r"
    by (auto split: if_splits)
  then show ?thesis
  proof cases
    case 1
    with q show ?thesis by (auto simp: holds_def)
  next
    case 2
    with q show ?thesis by simp
  next
    case 3
    with q ids[of p] upd[of p] show ?thesis by simp
  qed
qed

lemma within_verb: "verbs_within p (pm_can_execute r) (pm_can_manage r) (pm_can_view_execution r)
    \<Longrightarrow> verb \<in> verbs \<Longrightarrow> verb r \<Longrightarrow> verb p"
  by (auto simp: verbs_within_def verbs_def)

lemma may_grant_holds:
  assumes "may_grant db c r" and "\<not> ak_is_master c" and "verb \<in> verbs" and "verb r"
  shows "ak_can_manage_keys c \<and> holds pm_can_manage db (ak_id c) (pm_hook_id r)
    \<and> holds verb db (ak_id c) (pm_hook_id r)"
proof -
  from assms(1,2) obtain p where p: "hook_permission db (ak_id c) (pm_hook_id r) = Some p" "pm_can_manage p"
      "verbs_within p (pm_can_execute r) (pm_can_manage r) (pm_can_view_execution r)" "ak_can_manage_keys c"
    by (auto simp: may_grant_def)
  then show ?thesis using within_verb[OF p(3) assms(3,4)] by (blast intro: hook_permission_holds)
qed

lemma may_reduce_holds:
  assumes "may_reduce db c r" and "verb \<in> verbs" and "verb r"
  shows "holds verb db (pm_api_key_id r) (pm_hook_id r)"
proof (cases "hook_permission db (pm_api_key_id r) (pm_hook_id r)")
  case None
  with assms show ?thesis by (auto simp: may_reduce_def verbs_def)
next
  case (Some p)
  with assms have "verb p" by (auto simp: may_reduce_def intro: within_verb)
  with Some show ?thesis by (rule hook_permission_holds)
qed

text \<open>A verb on a hook that the request found is given only by a manager of the hook that holds it.\<close>

lemma permitted_verbs:
  assumes "permitted c d0 db db'" and "\<not> ak_is_master c" and "verb \<in> verbs" and "hook_exists h d0"
    and "holds verb db' k h"
  shows "holds verb db k h
    \<or> (ak_can_manage_keys c \<and> holds pm_can_manage db (ak_id c) h \<and> holds verb db (ak_id c) h
       \<and> (\<exists>hm. find_hook db h = Some hm \<and> \<not> privileged hm))"
  using assms
proof (induction rule: permitted.induct)
  case (own_hook_granted db r hm upd db')
  have "pm_hook_id r \<noteq> h" using own_hook_granted by auto
  moreover have "holds verb db k h \<or> h = pm_hook_id r"
  proof -
    from own_hook_granted.prems obtain q where
      q: "q \<in> set (db_perms db')" "pm_api_key_id q = k" "pm_hook_id q = h" "verb q"
      by (auto simp: holds_def)
    from upsert_perm_shape[OF own_hook_granted.hyps(7)] q(1)
    have "q \<in> set (db_perms db) \<or> q = r \<or> (\<exists>p. pm_hook_id p = pm_hook_id r \<and> q = upd p r)"
      by (auto split: if_splits)
    with q own_hook_granted.hyps(6) show ?thesis by (auto simp: holds_def keeps_keys_def)
  qed
  ultimately show ?case by simp
next
  case (verbs_set upd r db db' hm target)
  from upsert_holds[OF verbs_set.hyps(1-3) verbs_set.prems(2,4)]
  show ?case
  proof
    assume r: "k = pm_api_key_id r \<and> h = pm_hook_id r \<and> verb r"
    from verbs_set.hyps(4) show ?thesis
    proof
      assume "may_grant db c r"
      with r verbs_set may_grant_holds[of db c r verb] show ?thesis by blast
    next
      assume "may_reduce db c r"
      with r verbs_set.prems(2) show ?thesis by (auto dest: may_reduce_holds)
    qed
  qed simp
next
  case keys_deleted
  then show ?case by (auto simp: holds_def delete_keys_def)
next
  case hooks_removed
  then show ?case by simp
next
  case verbs_revoked
  then show ?case by (auto simp: holds_def delete_perms_def)
qed (auto dest!: perm_frames simp: holds_def)

lemma writes_verbs:
  assumes "writes c d0 db db'" and "\<not> ak_is_master c" and "verb \<in> verbs" and "hook_exists h d0"
    and "holds verb db' k h"
  shows "holds verb db k h
    \<or> (ak_can_manage_keys c \<and> holds pm_can_manage db (ak_id c) h \<and> holds verb db (ak_id c) h)"
proof -
  have manage: "pm_can_manage \<in> verbs" by (simp add: verbs_def)
  have "\<forall>verb\<in>verbs. \<forall>k. holds verb db' k h \<longrightarrow> holds verb db k h
    \<or> (ak_can_manage_keys c \<and> holds pm_can_manage db (ak_id c) h \<and> holds verb db (ak_id c) h)"
    using assms(1)
  proof (rule writes_keep)
    fix d d' assume IH: "\<forall>verb\<in>verbs. \<forall>k. holds verb d k h \<longrightarrow> holds verb db k h
      \<or> (ak_can_manage_keys c \<and> holds pm_can_manage db (ak_id c) h \<and> holds verb db (ak_id c) h)"
      and step: "permitted c d0 d d'"
    show "\<forall>verb\<in>verbs. \<forall>k. holds verb d' k h \<longrightarrow> holds verb db k h
      \<or> (ak_can_manage_keys c \<and> holds pm_can_manage db (ak_id c) h \<and> holds verb db (ak_id c) h)"
    proof (intro ballI allI impI)
      fix verb k assume v: "verb \<in> verbs" and now: "holds verb d' k h"
      from permitted_verbs[OF step assms(2) v assms(4) now] v manage IH
      show "holds verb db k h
        \<or> (ak_can_manage_keys c \<and> holds pm_can_manage db (ak_id c) h \<and> holds verb db (ak_id c) h)"
        by meson
    qed
  qed simp
  with assms(3,5) show ?thesis by blast
qed

lemma conjunction_iff_holds:
  "wf_db db \<Longrightarrow> holds_conjunction db c h \<longleftrightarrow> ak_can_manage_keys c \<and> holds pm_can_manage db (ak_id c) h"
  using hook_permission_iff by (auto simp: holds_conjunction_def holds_def)

section \<open>Hooks\<close>

text \<open>What a hook runs, and as whom.\<close>

definition dispatch :: "hook \<Rightarrow> string \<times> string option \<times> string option" where
  "dispatch h = (hk_script_path h, hk_args_template h, hk_run_as_user h)"

lemma custody_dispatch: "custody h = custody h' \<Longrightarrow> dispatch h = dispatch h' \<and> privileged h = privileged h'
    \<and> hk_id h = hk_id h' \<and> hk_name h = hk_name h'"
proof -
  assume eq: "custody h = custody h'"
  have "hk_script_path (custody h) = hk_script_path (custody h')"
    "hk_args_template (custody h) = hk_args_template (custody h')"
    "hk_run_as_user (custody h) = hk_run_as_user (custody h')"
    "hk_id (custody h) = hk_id (custody h')" "hk_name (custody h) = hk_name (custody h')"
    using eq by simp_all
  then show ?thesis by (simp add: custody_def dispatch_def privileged_def)
qed

text \<open>What a key that is not master may do to a row.\<close>

definition ordinary_change :: "database \<Rightarrow> api_key \<Rightarrow> hook \<Rightarrow> hook \<Rightarrow> bool" where
  "ordinary_change db c old new \<longleftrightarrow> custody new = custody old
     \<or> (\<not> privileged old \<and> \<not> privileged new
        \<and> (dispatch new \<noteq> dispatch old \<longrightarrow> holds_conjunction db c (hk_id old)))"

lemma edited_change:
  "hook_edit_allowed db c old new \<Longrightarrow> \<not> ak_is_master c \<Longrightarrow> ordinary_change db c old new"
  by (auto simp: hook_edit_allowed_def ordinary_change_def dispatch_def)

lemma settled_change: "hook_settlement db c old new \<Longrightarrow> ordinary_change db c old new"
  by (simp add: hook_settlement_def ordinary_change_def)

lemma trashed_custody:
  "custody (h\<lparr>hk_is_deleted := b, hk_deleted_at := t, hk_deleted_by := u, hk_updated_at := n\<rparr>) = custody h"
  by (simp add: custody_def)

lemma updated_hook_row:
  assumes "wf_db db" and "find_hook db (hk_id r) = Some old" and "update_hook_row r db = Inr db'"
  shows "h \<in> set (db_hooks db') \<longleftrightarrow> (h \<in> set (db_hooks db) \<and> hk_id h \<noteq> hk_id r) \<or> h = r"
    and "h \<in> set (db_hooks db) \<Longrightarrow> hk_id h = hk_id r \<Longrightarrow> h = old"
  using hooks.set_after_update[OF assms(3)] hooks.row_unique[OF assms(1)] find_hookD[OF assms(2)] by auto

text \<open>A row that was there stays, changed at most in the ordinary way.\<close>

lemma permitted_hooks_kept:
  assumes "permitted c d0 db db'" and "wf_db db" and "\<not> ak_is_master c" and "h \<in> set (db_hooks db)"
  shows "\<exists>h'\<in>set (db_hooks db'). hk_id h' = hk_id h \<and> ordinary_change db c h h'"
proof -
  have refl: "ordinary_change db c h h" for db by (simp add: ordinary_change_def)
  have row: ?thesis if "find_hook db (hk_id r) = Some old" and "update_hook_row r db = Inr db'"
      and "ordinary_change db c old r" for r old
    using updated_hook_row[OF assms(2) that(1,2), of h] updated_hook_row(1)[OF assms(2) that(1,2), of r]
      assms(4) that(3) refl by (cases "hk_id h = hk_id r") auto
  from assms(1) show ?thesis
  proof (cases rule: permitted.cases)
    case (hook_created r)
    then show ?thesis using insert_hook_rows[OF hook_created(1)] assms(4) refl by auto
  next
    case (hook_edited r old)
    then show ?thesis using edited_change assms(3) by (intro row) auto
  next
    case (hook_settled r old)
    then show ?thesis using settled_change by (intro row) auto
  next
    case (hook_trashed r old t b now)
    then show ?thesis by (intro row[of r old]) (auto simp: ordinary_change_def trashed_custody)
  qed (use assms(3,4) refl in \<open>auto dest!: hook_frames\<close>)
qed

text \<open>A row that is there now was there, or is a fresh hook of an account that is not privileged.\<close>

lemma permitted_hooks_new:
  assumes "permitted c d0 db db'" and "wf_db db" and "\<not> ak_is_master c" and "h' \<in> set (db_hooks db')"
  shows "(\<exists>h\<in>set (db_hooks db). hk_id h = hk_id h' \<and> privileged h = privileged h') \<or> \<not> privileged h'"
proof -
  have row: ?thesis if "find_hook db (hk_id r) = Some old" and "update_hook_row r db = Inr db'"
      and "ordinary_change db c old r" for r old
    using updated_hook_row[OF assms(2) that(1,2), of h'] find_hookD[OF that(1)]
      assms(4) that(3) custody_dispatch[of r old] by (auto simp: ordinary_change_def)
  from assms(1) show ?thesis
  proof (cases rule: permitted.cases)
    case (hook_created r)
    then show ?thesis using insert_hook_rows[OF hook_created(1)] assms(3,4) by auto
  next
    case (hook_edited r old)
    then show ?thesis using edited_change assms(3) by (intro row) auto
  next
    case (hook_settled r old)
    then show ?thesis using settled_change by (intro row) auto
  next
    case (hook_trashed r old t b now)
    then show ?thesis by (intro row[of r old]) (auto simp: ordinary_change_def trashed_custody)
  qed (use assms(3,4) in \<open>auto dest!: hook_frames\<close>)
qed

text \<open>The parameters of a privileged hook stay.\<close>

lemma permitted_params:
  assumes "permitted c d0 db db'" and "wf_db db" and "\<not> ak_is_master c"
    and "h \<in> set (db_hooks db)" and "privileged h"
  shows "filter (\<lambda>p. hp_hook_id p = hk_id h) (db_params db') = filter (\<lambda>p. hp_hook_id p = hk_id h) (db_params db)"
proof -
  have other: "hk_id hm \<noteq> hk_id h" if "find_hook db i = Some hm" and "privileged hm \<longrightarrow> ak_is_master c" for i hm
    using that assms(3,5) hooks.row_unique[OF assms(2) assms(4)] find_hookD[OF that(1)] by metis
  from assms(1) show ?thesis
  proof (cases rule: permitted.cases)
    case (param_added r hm)
    then show ?thesis
      using other[of "hp_hook_id r" hm] find_hookD[OF param_added(1)] insert_param_rows[OF param_added(2)] by auto
  next
    case (param_changed r hm old)
    have ne: "hp_hook_id r \<noteq> hk_id h"
      using other[of "hp_hook_id r" hm] param_changed find_hookD[OF param_changed(1)] by auto
    have "x = old" if "x \<in> set (db_params db)" "hp_id x = hp_id r" for x
      using params.row_unique[OF assms(2) that(1)] find_paramD[OF param_changed(5)] that(2) by auto
    then have "hp_hook_id x \<noteq> hk_id h" if "x \<in> set (db_params db)" "hp_id x = hp_id r" for x
      using that ne param_changed(6) by metis
    then show ?thesis using update_param_rows[OF param_changed(2)] ne
      by (simp add: filter_replace_out)
  next
    case (param_removed i old hm)
    have ne: "hp_hook_id old \<noteq> hk_id h"
      using other[of "hp_hook_id old" hm] param_removed find_hookD[OF param_removed(2)] by auto
    have "x = old" if "x \<in> set (db_params db)" "hp_id x = i" for x
      using params.row_unique[OF assms(2) that(1)] find_paramD[OF param_removed(1)] that(2) by auto
    then show ?thesis using ne by (auto simp: param_removed(5) delete_param_def intro!: filter_cong)
  qed (use assms(3) in \<open>auto dest!: param_frames\<close>)
qed

text \<open>The same along a request.\<close>

lemma writes_conjunction:
  assumes "writes c db db d" and "wf_db db" and "\<not> ak_is_master c" and "hook_exists i db"
    and "holds_conjunction d c i"
  shows "holds_conjunction db c i"
proof -
  have "wf_db d" using writes_wf assms(1,2) by blast
  then have "ak_can_manage_keys c" "holds pm_can_manage d (ak_id c) i"
    using assms(5) conjunction_iff_holds by auto
  with writes_verbs[OF assms(1,3) _ assms(4), of pm_can_manage "ak_id c"]
  show ?thesis by (auto simp: conjunction_iff_holds[OF assms(2)] verbs_def)
qed

lemma ordinary_trans:
  assumes "ordinary_change db c h h1" and "ordinary_change d c h1 h2" and "hk_id h1 = hk_id h"
    and "holds_conjunction d c (hk_id h) \<Longrightarrow> holds_conjunction db c (hk_id h)"
  shows "ordinary_change db c h h2"
  using assms custody_dispatch[of h1 h] custody_dispatch[of h2 h1]
  by (auto simp: ordinary_change_def)

lemma writes_hooks:
  assumes "writes c db db db'" and "wf_db db" and "\<not> ak_is_master c" and "h \<in> set (db_hooks db)"
  shows "\<exists>h'\<in>set (db_hooks db'). hk_id h' = hk_id h \<and> ordinary_change db c h h'"
  using assms(1)
proof (induction rule: rtranclp_induct)
  case base
  then show ?case using assms(4) by (auto simp: ordinary_change_def)
next
  case (step d d')
  then obtain h1 where h1: "h1 \<in> set (db_hooks d)" "hk_id h1 = hk_id h" "ordinary_change db c h h1" by blast
  have "wf_db d" using writes_wf step.hyps(1) assms(2) by blast
  then obtain h2 where "h2 \<in> set (db_hooks d')" "hk_id h2 = hk_id h1" "ordinary_change d c h1 h2"
    using permitted_hooks_kept[OF step.hyps(2) _ assms(3) h1(1)] by blast
  moreover have "hook_exists (hk_id h) db" using assms(4) by (simp add: hook_exists_def)
  then have "ordinary_change db c h h2"
    using writes_conjunction[OF step.hyps(1) assms(2,3)] h1 calculation
    by (blast intro: ordinary_trans)
  ultimately show ?case using h1(2) by metis
qed

lemma writes_privileged_new:
  assumes "writes c db db db'" and "wf_db db" and "\<not> ak_is_master c" and "h' \<in> set (db_hooks db')"
    and "privileged h'"
  shows "\<exists>h\<in>set (db_hooks db). hk_id h = hk_id h' \<and> privileged h"
proof -
  have "wf_db db' \<and> (\<forall>h'\<in>set (db_hooks db'). privileged h' \<longrightarrow>
      (\<exists>h\<in>set (db_hooks db). hk_id h = hk_id h' \<and> privileged h))"
    using assms(1)
  proof (rule writes_keep)
    fix d d' assume IH: "wf_db d \<and> (\<forall>h'\<in>set (db_hooks d). privileged h' \<longrightarrow>
        (\<exists>h\<in>set (db_hooks db). hk_id h = hk_id h' \<and> privileged h))" and step: "permitted c db d d'"
    have "\<exists>h\<in>set (db_hooks db). hk_id h = hk_id h' \<and> privileged h"
      if "h' \<in> set (db_hooks d')" and "privileged h'" for h'
      using permitted_hooks_new[OF step _ assms(3) that(1)] that(2) IH by metis
    then show "wf_db d' \<and> (\<forall>h'\<in>set (db_hooks d'). privileged h' \<longrightarrow>
        (\<exists>h\<in>set (db_hooks db). hk_id h = hk_id h' \<and> privileged h))"
      using permitted_wf[OF step] IH by blast
  qed (use assms(2) in blast)
  with assms(4,5) show ?thesis by blast
qed

lemma writes_privileged:
  assumes "writes c db db db'" and "wf_db db" and "\<not> ak_is_master c" and "h \<in> set (db_hooks db)"
    and "privileged h"
  shows "(\<exists>h'\<in>set (db_hooks db'). hk_id h' = hk_id h \<and> custody h' = custody h)
    \<and> filter (\<lambda>p. hp_hook_id p = hk_id h) (db_params db') = filter (\<lambda>p. hp_hook_id p = hk_id h) (db_params db)
    \<and> (\<forall>verb\<in>verbs. \<forall>k. holds verb db' k (hk_id h) \<longrightarrow> holds verb db k (hk_id h))"
  using assms(1)
proof (induction rule: rtranclp_induct)
  case base
  then show ?case using assms(4) by auto
next
  case (step d d')
  then obtain h1 where h1: "h1 \<in> set (db_hooks d)" "hk_id h1 = hk_id h" "custody h1 = custody h" by blast
  have wf: "wf_db d" using writes_wf step.hyps(1) assms(2) by blast
  have priv: "privileged h1" using custody_dispatch[OF h1(3)] assms(5) by simp
  obtain h2 where h2: "h2 \<in> set (db_hooks d')" "hk_id h2 = hk_id h1" "ordinary_change d c h1 h2"
    using permitted_hooks_kept[OF step.hyps(2) wf assms(3) h1(1)] by blast
  then have "custody h2 = custody h" using priv h1(3) by (simp add: ordinary_change_def)
  moreover have "filter (\<lambda>p. hp_hook_id p = hk_id h) (db_params d')
      = filter (\<lambda>p. hp_hook_id p = hk_id h) (db_params db)"
    using permitted_params[OF step.hyps(2) wf assms(3) h1(1) priv] step.IH h1(2) by simp
  moreover have "holds verb db k (hk_id h)"
    if "verb \<in> verbs" and "holds verb d' k (hk_id h)" for verb k
  proof -
    have "find_hook d (hk_id h) = Some h1" using find_hook_iff_row[OF wf] h1 by simp
    moreover have "hook_exists (hk_id h) db" using assms(4) by (simp add: hook_exists_def)
    ultimately have "holds verb d k (hk_id h)"
      using permitted_verbs[OF step.hyps(2) assms(3) that(1) _ that(2)] priv by auto
    with step.IH that(1) show ?thesis by blast
  qed
  ultimately show ?case using h1(2) h2 by metis
qed

end
