(* ===== verification/Access_Keys.thy ===== *)
theory Access_Keys
  imports Access_Invariants Key_Lifecycle Key_Permissions
begin

text \<open>
  The key endpoints (\<open>src/api/keys.rs\<close>) refine the access model: whatever they answer, the database
  they leave was reached by writes that the caller is permitted.
\<close>

section \<open>Steps of a handler\<close>

lemma write_step:
  "writes c d0 db d \<Longrightarrow> permitted c d0 d d' \<Longrightarrow> writes c d0 db d'"
  by (rule rtranclp.rtrancl_into_rtrancl)

lemma audit_step:
  assumes "writes c d0 db d"
  shows "writes c d0 db (snd (create_audit_log E n c ip a t dt d))"
  unfolding create_audit_log_def
  by (intro keeps_state[where P = "writes c d0 db"] assms) (erule write_step[OF assms audited], simp)

lemmas handler_step = keeps_state[where P = "writes c d0 db" for c d0 db] audit_step rtranclp.rtrancl_refl

section \<open>Creating and updating keys\<close>

lemma create_api_key_writes:
  assumes "key_exists (ak_id key) db"
  shows "writes key db db (snd (create_api_key E key ip payload db))"
  unfolding create_api_key_def Let_def
  apply (intro handler_step)
  apply (rule write_step[OF rtranclp.rtrancl_refl key_created], assumption)
  using assms by (auto simp: key_birth_allowed_def administrator_def early_return unwrap_or_flag)

lemma update_edit_allowed:
  assumes "ak_is_master key \<or> ak_can_manage_keys key" and "administers db key (ak_id target)"
    and "guard_master_to_administer key target ''update'' = Inr ()"
    and "guard_master_self_edit_is_bound_ips_only key target payload = Inr ()"
    and "guard_master_to_grant_scopes key (ukp_can_manage_keys payload) (ukp_can_manage_hooks payload) = Inr ()"
  shows "key_edit_allowed db key target (apply_key_update payload now target)"
  using assms
  by (auto simp: key_edit_allowed_def administrator_def early_return apply_key_update_def scopes_within_def
      dest: unwrap_or_lowered)

lemma update_step:
  assumes "require (ak_is_master key \<or> ak_can_manage_keys key) e = Inr u"
    and "load_administrable_key db key i = Inr target"
    and "guard_master_to_administer key target ''update'' = Inr v"
    and "guard_master_self_edit_is_bound_ips_only key target payload = Inr w"
    and "guard_master_to_grant_scopes key (ukp_can_manage_keys payload) (ukp_can_manage_hooks payload) = Inr x"
    and "update_key (apply_key_update payload now target) db = Inr db'"
  shows "writes key db db db'"
proof -
  from assms(2) have target: "find_key db i = Some target" "ak_id target = i" "administers db key i"
    by (auto simp: early_return dest: find_keyD)
  then have "key_edit_allowed db key target (apply_key_update payload now target)"
    by (intro update_edit_allowed) (use assms in \<open>auto simp: require_ok\<close>)
  moreover have "ak_id (apply_key_update payload now target) = i"
    using target(2) by (simp add: apply_key_update_def)
  ultimately show ?thesis
    using write_step[OF rtranclp.rtrancl_refl key_changed[OF _ assms(6)]] target(1) by simp
qed

lemma update_api_key_writes: "writes key db db (snd (update_api_key E key ip i payload db))"
  unfolding update_api_key_def Let_def
  by (intro handler_step) (rule update_step, assumption+)

text \<open>A change of credentials.\<close>

lemma credential_step:
  assumes "require (ak_is_master key \<or> ak_can_manage_keys key) e = Inr u"
    and "load_administrable_key db key i = Inr target"
    and "refuse_master_lifecycle_action target a = Inr v" and "update_key new db = Inr db'"
    and "ak_id new = ak_id target" and "ak_parent_key_id new = ak_parent_key_id target"
    and "ak_is_master new = ak_is_master target" and "ak_can_manage_keys new = ak_can_manage_keys target"
    and "ak_can_manage_hooks new = ak_can_manage_hooks target"
  shows "writes key db db db'"
proof -
  from assms(2) have target: "find_key db i = Some target" "ak_id target = i" "administers db key i"
    by (auto simp: early_return dest: find_keyD)
  then have "key_edit_allowed db key target new"
    using assms by (auto simp: early_return key_edit_allowed_def administrator_def scopes_within_def)
  then show ?thesis
    using write_step[OF rtranclp.rtrancl_refl key_changed[OF _ assms(4)]] target assms(5) by simp
qed

lemma rotate_api_key_writes: "writes key db db (snd (rotate_api_key E key ip i db))"
  unfolding rotate_api_key_def Let_def
  by (intro handler_step) (rule credential_step, assumption+, simp_all)

lemma regenerate_key_writes: "writes key db db (snd (regenerate_key E key ip i db))"
  unfolding regenerate_key_def Let_def
  by (intro handler_step) (rule credential_step, assumption+, simp_all)

lemma regenerate_secret_writes: "writes key db db (snd (regenerate_secret E key ip i db))"
  unfolding regenerate_secret_def Let_def
  by (intro handler_step) (rule credential_step, assumption+, simp_all)

section \<open>Deleting a key\<close>

text \<open>What the resolution map makes of a hook.\<close>

definition settled :: "externals \<Rightarrow> api_key \<Rightarrow> time \<Rightarrow> resolutions \<Rightarrow> hook \<Rightarrow> hook" where
  "settled X key now rs h =
     (case map_of rs (hk_id h) of None \<Rightarrow> h | Some res \<Rightarrow> resolve_entity X key now res h)"

lemma resolve_entity_id [simp]: "hk_id (resolve_entity X key now res h) = hk_id h"
  by (cases res) simp_all

lemma resolve_entity_custody [simp]: "custody (resolve_entity X key now res h) = custody h"
  by (cases res) (simp_all add: custody_def)

lemma apply_resolutions_spec:
  assumes "wf_db d" and "distinct (map fst rs)"
    and "apply_resolutions X key now rs counts d = (Inr x, d')"
  shows "d' = d\<lparr>db_hooks := map (settled X key now rs) (db_hooks d)\<rparr>"
  using assms
proof (induction X key now rs counts d arbitrary: x rule: apply_resolutions.induct)
  case (1 X key now counts db)
  then show ?case by (simp add: settled_def)
next
  case (2 X key now e res r deleted reassigned db)
  show ?case
  proof (cases "find_hook db e")
    case None
    then have "hk_id h \<noteq> e" if "h \<in> set (db_hooks db)" for h
      using find_hook_iff_row[OF "2.prems"(1), of e h] that by auto
    then have "map (settled X key now ((e, res) # r)) (db_hooks db) = map (settled X key now r) (db_hooks db)"
      by (auto simp: settled_def)
    with "2.IH"(1)[OF None "2.prems"(1)] "2.prems"(2,3) None show ?thesis by simp
  next
    case (Some model)
    let ?r = "resolve_entity X key now res model"
    from "2.prems"(3) Some obtain db1 where upd: "update_hook_row ?r db = Inr db1"
      and rest: "apply_resolutions X key now r (case res of Delete \<Rightarrow> (Suc deleted, reassigned)
                   | Reassign _ \<Rightarrow> (deleted, Suc reassigned)) db1 = (Inr x, d')"
      by (auto simp: early_return)
    have wf1: "wf_db db1" using update_hook_row_wf[OF "2.prems"(1) upd] .
    have IH: "d' = db1\<lparr>db_hooks := map (settled X key now r) (db_hooks db1)\<rparr>"
      using "2.IH"(2)[OF Some wf1 _ rest] "2.prems"(2) by simp
    have model: "model \<in> set (db_hooks db)" "hk_id model = e" using find_hookD[OF Some] by auto
    have "map_of r e = None" using "2.prems"(2) by (simp add: map_of_eq_None_iff)
    then have here: "settled X key now r ?r = ?r" using model by (simp add: settled_def)
    have "settled X key now r (if hk_id h = hk_id ?r then ?r else h) = settled X key now ((e, res) # r) h"
      if h: "h \<in> set (db_hooks db)" for h
    proof (cases "hk_id h = e")
      case True
      then have "h = model" using hooks.row_unique[OF "2.prems"(1) h model(1)] model(2) by simp
      with True here model show ?thesis by (simp add: settled_def)
    next
      case False
      with model show ?thesis by (simp add: settled_def)
    qed
    then have "map (settled X key now r) (db_hooks db1) = map (settled X key now ((e, res) # r)) (db_hooks db)"
      using update_hook_row_rows[OF upd] by (simp add: replace_row_def)
    then show ?thesis using IH update_hook_shape[OF upd] by simp
  qed
qed

lemma administers_frame: "db_keys d' = db_keys d \<Longrightarrow> administers d' c i = administers d c i"
  by (simp add: administers_def parent_rel_def)

lemma key_exists_frame: "db_keys d' = db_keys d \<Longrightarrow> key_exists i d' = key_exists i d"
  by (simp add: key_exists_def)

lemma resolve_entity_settles:
  assumes "administrator key" and "hk_owner_key_id h = Some owner" and "administers d key owner"
    and "\<And>to. res = Reassign to \<Longrightarrow> key_exists to d"
  shows "hook_settlement d key h (resolve_entity X key now res h)"
  using assms by (cases res) (auto simp: hook_settlement_def custody_def)

lemma apply_resolutions_writes:
  assumes "wf_db d" and "distinct (map fst rs)" and "administrator key" and "writes key d0 db d"
    and "\<forall>(e, res)\<in>set rs. (\<forall>h. find_hook d e = Some h \<longrightarrow>
          (\<exists>o1. hk_owner_key_id h = Some o1 \<and> administers d key o1))
        \<and> (\<forall>to. res = Reassign to \<longrightarrow> key_exists to d)"
  shows "writes key d0 db (snd (apply_resolutions X key now rs counts d))"
  using assms
proof (induction X key now rs counts d rule: apply_resolutions.induct)
  case (1 X key now counts db)
  then show ?case by simp
next
  case (2 X key now e res r deleted reassigned d)
  show ?case
  proof (cases "find_hook d e")
    case None
    with "2.IH"(1) "2.prems" show ?thesis by simp
  next
    case (Some model)
    let ?r = "resolve_entity X key now res model"
    have model: "hk_id model = e" using find_hookD[OF Some] by auto
    show ?thesis
    proof (cases "update_hook_row ?r d")
      case (Inl e')
      with Some "2.prems"(4) show ?thesis by (simp add: commit_def)
    next
      case (Inr d1)
      from "2.prems"(5) Some obtain o1 where "hk_owner_key_id model = Some o1" "administers d key o1"
        and to: "\<And>to. res = Reassign to \<Longrightarrow> key_exists to d" by auto
      then have "hook_settlement d key model ?r"
        using "2.prems"(3) by (intro resolve_entity_settles) auto
      with Some model Inr have "permitted key d0 d d1" by (intro hook_settled[of d ?r model]) auto
      then have w: "writes key d0 db d1" using "2.prems"(4) write_step by blast
      have wf1: "wf_db d1" using update_hook_row_wf[OF "2.prems"(1) Inr] .
      have keys1: "db_keys d1 = db_keys d" using key_frames(2)[OF Inr] .
      have find1: "find_hook d1 e' = find_hook d e'" if "e' \<noteq> e" for e'
        using hooks.find_after_update[OF "2.prems"(1) Inr, of e'] that model by (simp add: find_hook_def)
      have "\<forall>(e', res)\<in>set r. (\<forall>h. find_hook d1 e' = Some h \<longrightarrow>
            (\<exists>o1. hk_owner_key_id h = Some o1 \<and> administers d1 key o1))
          \<and> (\<forall>to. res = Reassign to \<longrightarrow> key_exists to d1)"
      proof (intro ballI, clarify)
        fix e' res' assume in_r: "(e', res') \<in> set r"
        then have "e' \<noteq> e" using "2.prems"(2) by (auto simp: rev_image_eqI)
        with find1 "2.prems"(5) in_r
        show "(\<forall>h. find_hook d1 e' = Some h \<longrightarrow> (\<exists>o1. hk_owner_key_id h = Some o1 \<and> administers d1 key o1))
          \<and> (\<forall>to. res' = Reassign to \<longrightarrow> key_exists to d1)"
          by (auto simp: administers_frame[OF keys1] key_exists_frame[OF keys1])
      qed
      with "2.IH"(2)[OF Some wf1 _ "2.prems"(3) w] "2.prems"(2) Some Inr show ?thesis
        by (simp add: commit_def)
    qed
  qed
qed

lemma inventory_subtree:
  assumes "collect_subtree_inventory db i = (subtree, doomed, inventory)"
  shows "subtree = i # descendant_key_ids db i"
    and "e \<in> set (map oe_id inventory) \<longleftrightarrow>
      (\<exists>h\<in>set (db_hooks db). hk_id h = e \<and> (\<exists>o1\<in>set subtree. hk_owner_key_id h = Some o1))"
proof -
  show st: "subtree = i # descendant_key_ids db i"
    using assms by (simp add: collect_subtree_inventory_def Let_def)
  have inv: "inventory = List.map_filter
      (\<lambda>h. map_option (\<lambda>owner. \<lparr>oe_entity_type = ''hook'', oe_id = hk_id h, oe_name = hk_name h,
                                oe_current_owner = owner\<rparr>) (hk_owner_key_id h))
      (sort_key hk_name (filter (\<lambda>h. case hk_owner_key_id h of
          Some owner \<Rightarrow> owner \<in> set subtree | None \<Rightarrow> False) (db_hooks db)))"
    using assms unfolding collect_subtree_inventory_def Let_def prod.inject by (elim conjE) (hypsubst, rule refl)
  show "e \<in> set (map oe_id inventory) \<longleftrightarrow>
      (\<exists>h\<in>set (db_hooks db). hk_id h = e \<and> (\<exists>o1\<in>set subtree. hk_owner_key_id h = Some o1))"
    unfolding inv by (force simp: List.map_filter_def image_iff split: option.splits)
qed

lemma check_reassignments_ok:
  "check_reassignments X db subtree rs = Inr u \<longleftrightarrow>
     (\<forall>(e, res)\<in>set rs. \<forall>to. res = Reassign to \<longrightarrow> to \<notin> set subtree \<and> find_key db to \<noteq> None)"
  by (induction X db subtree rs rule: check_reassignments.induct) auto

lemma subtree_administered:
  assumes "administers db key i" and "j \<in> set (i # descendant_key_ids db i)"
  shows "administers db key j"
  using assms by (auto simp: administers_def set_descendant_key_ids dest: trancl_into_rtrancl intro: rtrancl_trans)

text \<open>The resolutions of a deletion, before and after the rows of the subtree go.\<close>

lemma deletion_resolved:
  assumes "wf_db db" and "distinct (map fst rs)" and "require (ak_is_master key \<or> ak_can_manage_keys key) e = Inr u"
    and "load_administrable_key db key i = Inr target"
    and coll: "collect_subtree_inventory db i = (subtree, p)" "p = (doomed, inventory)"
    and stray: "(case List.find (\<lambda>k. k \<notin> set (map oe_id inventory)) (map fst rs) of
        None \<Rightarrow> Inr () | Some stray \<Rightarrow> Inl (complain stray)) = Inr v"
    and reassign: "check_reassignments X db subtree rs = Inr w"
  shows "writes key db db (snd (apply_resolutions X key now rs counts db))"
proof (rule apply_resolutions_writes)
  have inv: "collect_subtree_inventory db i = (subtree, doomed, inventory)" using coll by simp
  have "administers db key i" using assms(4) by (simp add: load_administrable_ok)
  note below = subtree_administered[OF this]
  have owned: "\<exists>o1. hk_owner_key_id h = Some o1 \<and> administers db key o1"
    if "e \<in> set (map fst rs)" and "find_hook db e = Some h" for e h
  proof -
    from stray that(1) have "e \<in> set (map oe_id inventory)" by (auto simp: find_None_iff split: option.splits)
    then obtain h' o1 where h': "h' \<in> set (db_hooks db)" "hk_id h' = e" "o1 \<in> set subtree"
        "hk_owner_key_id h' = Some o1"
      unfolding inventory_subtree(2)[OF inv] by blast
    moreover have "h' = h" using find_hook_iff_row[OF assms(1)] that(2) h' hooks.row_unique[OF assms(1)] by metis
    ultimately show ?thesis
      using below inventory_subtree(1)[OF inv] by auto
  qed
  show "\<forall>(e, res)\<in>set rs. (\<forall>h. find_hook db e = Some h \<longrightarrow>
          (\<exists>o1. hk_owner_key_id h = Some o1 \<and> administers db key o1))
        \<and> (\<forall>to. res = Reassign to \<longrightarrow> key_exists to db)"
    using owned reassign unfolding check_reassignments_ok
    by (auto simp: key_exists_def dest!: find_keyD bspec) (metis fst_conv image_eqI)
qed (use assms(1-3) in \<open>simp_all add: require_ok administrator_def\<close>)

lemma deletion_settled:
  assumes "wf_db db" and "distinct (map fst rs)"
    and inv: "collect_subtree_inventory db i = (subtree, doomed, inventory)"
    and "filter (\<lambda>e. oe_id e \<notin> set (map fst rs)) inventory = []"
    and "check_reassignments X db subtree rs = Inr u"
    and "h \<in> set (db_hooks db)" and "hk_owner_key_id (settled X key now rs h) = Some o1" and "o1 \<in> set subtree"
  shows "hk_is_deleted (settled X key now rs h)"
proof (cases "map_of rs (hk_id h)")
  case None
  then have "hk_owner_key_id h = Some o1" using assms(7) by (simp add: settled_def)
  with assms(6,8) have "hk_id h \<in> set (map oe_id inventory)" unfolding inventory_subtree(2)[OF inv] by blast
  with assms(4) None show ?thesis by (auto simp: filter_empty_conv map_of_eq_None_iff)
next
  case (Some res)
  then have "(hk_id h, res) \<in> set rs" by (rule map_of_SomeD)
  with assms(5,7,8) Some show ?thesis
    unfolding check_reassignments_ok by (cases res) (auto simp: settled_def)
qed

lemma descendants_frame:
  "db_keys d' = db_keys d \<Longrightarrow> set (descendant_key_ids d' i) = set (descendant_key_ids d i)"
  by (simp add: set_descendant_key_ids parent_rel_def)

lemma deletion_step:
  assumes "wf_db db" and "distinct (map fst rs)"
    and "require (ak_is_master key \<or> ak_can_manage_keys key) e = Inr u" and "require (i \<noteq> ak_id key) e' = Inr u'"
    and "load_administrable_key db key i = Inr target" and "refuse_master_lifecycle_action target a = Inr v"
    and coll: "collect_subtree_inventory db i = (subtree, p)" "p = (doomed, inventory)"
    and "require (filter (\<lambda>e. oe_id e \<notin> set (map fst rs)) inventory = []) e'' = Inr w"
    and "check_reassignments X db subtree rs = Inr x"
    and "apply_resolutions X key now rs counts db = (Inr counts', s)" and "writes key db db s"
    and "delete_keys subtree s = (rows, d2)"
  shows "writes key db db d2"
proof -
  have inv: "collect_subtree_inventory db i = (subtree, doomed, inventory)" using coll by simp
  have s: "s = db\<lparr>db_hooks := map (settled X key now rs) (db_hooks db)\<rparr>"
    using apply_resolutions_spec[OF assms(1,2,11)] .
  then have keys: "db_keys s = db_keys db" by simp
  have target: "find_key s i = Some target" "administers s key i" "\<not> ak_is_master target"
    using assms(5,6) by (auto simp: early_return administers_frame[OF keys] find_key_def keys)
  have gone: "set subtree = insert i (set (descendant_key_ids s i))"
    by (simp add: inventory_subtree(1)[OF inv] descendants_frame[OF keys])
  have "\<forall>h\<in>set (db_hooks s). \<forall>o1. hk_owner_key_id h = Some o1 \<and> o1 \<in> set subtree \<longrightarrow> hk_is_deleted h"
    using deletion_settled[OF assms(1,2) inv _ assms(10)] assms(9) by (auto simp: s require_ok)
  then have "permitted key db s (snd (delete_keys subtree s))"
    using target gone assms(3,4) by (intro keys_deleted[of _ i target]) (auto simp: require_ok administrator_def)
  then show ?thesis using write_step[OF assms(12)] assms(13) by simp
qed

lemma delete_api_key_writes:
  assumes "wf_db db" and "distinct (map fst rs)"
  shows "writes key db db (snd (delete_api_key E key ip i rs db))"
  unfolding delete_api_key_def Let_def
proof (intro handler_step, goal_cases)
  case 1
  then show ?case by - (rule deletion_resolved, rule assms, rule assms, assumption+)
next
  case 2
  then show ?case by - (rule deletion_step, rule assms, rule assms, assumption+)
next
  case 3
  then show ?case by - (rule deletion_step, rule assms, rule assms, assumption+)
qed

section \<open>Permissions\<close>

lemma take_verbs_laws: "keeps_keys take_verbs" "sets_verbs take_verbs"
  by (simp_all add: keeps_keys_def sets_verbs_def take_verbs_def)

lemma resolve_hook_found:
  assumes "wf_db db" and "resolve_hook X db identifier = Inr h"
  shows "find_hook db (hk_id h) = Some h" and "\<not> hk_is_deleted h"
  using resolve_hookD[OF assms(2)] by (simp_all add: find_hook_iff_row[OF assms(1)])

lemma conjunction_guard [early_return]:
  "check (guard_hook_manage_conjunction db key i) (\<lambda>_. Inr ()) = Inr u \<longleftrightarrow> holds_conjunction db key i"
  by (auto simp: early_return holds_conjunction_def)

text \<open>The branches of the update's guard, as the access model has them.\<close>

lemma verbs_authorised:
  assumes "(if ak_is_master key then Inr ()
      else if is_permission_reduction (hook_permission db i (hk_id h)) x m v
      then check (guard_hook_manage_conjunction db key (hk_id h)) (\<lambda>_. Inr ())
      else if i = ak_id key then Inl e else guard_delegated_hook_grant db key h x m v) = Inr u"
    and "pm_api_key_id r = i" and "pm_hook_id r = hk_id h" and "pm_can_execute r = x"
    and "pm_can_manage r = m" and "pm_can_view_execution r = v"
  shows "may_grant db key r \<or> may_reduce db key r"
proof (cases "ak_is_master key")
  case False
  with assms show ?thesis
    by (cases "is_permission_reduction (hook_permission db i (hk_id h)) x m v")
      (auto simp: conjunction_guard may_reduce_def may_grant_def reduction_iff delegated_grant_ok
        split: if_splits)
qed (simp add: may_grant_def)

lemma verbs_step:
  assumes wf: "wf_db db" and target: "ok_or (find_key db i) e = Inr target"
    and "require (\<not> ak_is_master target) e' = Inr u" and hook: "resolve_hook X db identifier = Inr h"
    and guard: "(if ak_is_master key then Inr ()
      else if is_permission_reduction (hook_permission db i (hk_id h)) x m v
      then check (guard_hook_manage_conjunction db key (hk_id h)) (\<lambda>_. Inr ())
      else if i = ak_id key then Inl e'' else guard_delegated_hook_grant db key h x m v) = Inr w"
    and "(if \<not> ak_is_master key then guard_master_for_privileged_hook key h a else Inr ()) = Inr y"
    and "upsert_perm take_verbs \<lparr>pm_id = j, pm_api_key_id = i, pm_hook_id = hk_id h, pm_can_execute = x,
        pm_can_manage = m, pm_can_view_execution = v, pm_created_at = t\<rparr> db = Inr db'"
  shows "writes key db db db'"
proof (rule write_step[OF rtranclp.rtrancl_refl], rule verbs_set[OF assms(7) take_verbs_laws])
  show "find_hook db (pm_hook_id \<lparr>pm_id = j, pm_api_key_id = i, pm_hook_id = hk_id h, pm_can_execute = x,
        pm_can_manage = m, pm_can_view_execution = v, pm_created_at = t\<rparr>) = Some h"
    using resolve_hook_found[OF wf hook] by simp
  show "privileged h \<longrightarrow> ak_is_master key"
    using assms(6) by (auto simp: privileged_def guard_privileged_ok split: if_splits)
qed (use assms verbs_authorised[OF guard] in \<open>simp_all add: ok_or_ok require_ok\<close>)

lemma update_key_hook_permissions_writes:
  assumes "wf_db db"
  shows "writes key db db (snd (update_key_hook_permissions E key ip i payload db))"
  unfolding update_key_hook_permissions_def Let_def
  by (intro handler_step) (rule verbs_step, rule assms, assumption+)

lemma revoke_step:
  assumes "(if \<not> ak_is_master key
      then check (guard_hook_manage_conjunction db key (hk_id h)) (\<lambda>_. Inr ()) else Inr ()) = Inr u"
    and "delete_perms i (hk_id h) db = (rows, d2)"
  shows "writes key db db d2"
proof -
  have "permitted key db db (snd (delete_perms i (hk_id h) db))"
    by (rule verbs_revoked[of _ _ "hk_id h" _ i])
      (use assms(1) in \<open>auto simp: conjunction_guard split: if_splits\<close>)
  then show ?thesis using assms(2) write_step[OF rtranclp.rtrancl_refl] by simp
qed

lemma revoke_key_hook_permission_writes:
  "writes key db db (snd (revoke_key_hook_permission E key ip i identifier db))"
  unfolding revoke_key_hook_permission_def Let_def
  by (intro handler_step) (rule revoke_step, assumption+)+

lemmas key_handler_writes = create_api_key_writes update_api_key_writes rotate_api_key_writes
  regenerate_key_writes regenerate_secret_writes delete_api_key_writes
  update_key_hook_permissions_writes revoke_key_hook_permission_writes

end
