(* ===== verification/Access_Hooks.thy ===== *)
theory Access_Hooks
  imports Access_Keys Hook_Lifecycle Executions
begin

text \<open>
  The hook and execution endpoints (\<open>src/api/hooks.rs\<close>, \<open>src/api/executions.rs\<close>) refine the access
  model, as the key endpoints do.
\<close>

section \<open>Creating a hook\<close>

lemma insert_declared_writes:
  assumes "writes key d0 db d" and "find_hook d i = Some h" and "hk_owner_key_id h = Some (ak_id key)"
    and "privileged h \<longrightarrow> ak_is_master key"
  shows "writes key d0 db (snd (insert_declared E n i declared d))
    \<and> db_hooks (snd (insert_declared E n i declared d)) = db_hooks d"
  using assms
proof (induction E n i declared d rule: insert_declared.induct)
  case (2 E n i param r d)
  let ?p = "\<lparr>hp_id = ev_uuid E n, hp_hook_id = i, hp_param_key = pi_param_key param,
    hp_description = pi_description param, hp_default_value = pi_default_value param,
    hp_is_required = unwrap_or (pi_is_required param) True, hp_created_at = ev_now E n\<rparr>"
  show ?case
  proof (cases "insert_param ?p d")
    case (Inl e)
    with "2.prems" show ?thesis by (cases e) auto
  next
    case (Inr d1)
    have "permitted key d0 d d1"
      by (rule param_added[OF _ Inr]) (use "2.prems" in \<open>auto simp: manages_def\<close>)
    moreover have "find_hook d1 i = Some h"
      using "2.prems"(2) hook_frames(3)[OF Inr] by (simp add: find_hook_def)
    ultimately show ?thesis
      using "2.IH"[OF Inr write_step[OF "2.prems"(1)]] "2.prems"(3,4) hook_frames(3)[OF Inr] Inr by simp
  qed
qed simp

lemma grant_step:
  assumes "writes key d0 db d" and "find_hook d i = Some h" and "hk_owner_key_id h = Some (ak_id key)"
    and "\<not> hook_exists i d0" and "ak_is_master key \<or> ak_can_manage_hooks key"
  shows "writes key d0 db (snd (grant_full_hook_permission E n (ak_id key) i d))"
  unfolding grant_full_hook_permission_def
proof (intro handler_step assms(1))
  fix s' assume upsert: "upsert_perm take_execute_and_manage
      \<lparr>pm_id = ev_uuid E n, pm_api_key_id = ak_id key, pm_hook_id = i, pm_can_execute = True,
       pm_can_manage = True, pm_can_view_execution = True, pm_created_at = ev_now E n\<rparr> d = Inr s'"
  have "permitted key d0 d s'"
    by (rule own_hook_granted[OF _ _ _ _ _ _ upsert])
      (use assms in \<open>auto simp: keeps_keys_def take_execute_and_manage_def\<close>)
  then show "writes key d0 db s'" by (rule write_step[OF assms(1)])
qed

lemma new_hook_privilege:
  "normalize_run_as_user key r = Inr run_as \<Longrightarrow>
     privileged (new_hook E key payload name run_as timeout mode sealed) \<longrightarrow> ak_is_master key"
  by (auto simp: normalize_run_as_user_ok privileged_def new_hook_def effective_run_as_user_def)

lemma hook_created_step:
  assumes "wf_db db" and "require (ak_is_master key \<or> ak_can_manage_hooks key) e = Inr u"
    and "normalize_run_as_user key r = Inr run_as"
    and "insert_hook (new_hook E key payload name run_as timeout mode sealed) db = Inr d"
  shows "writes key db db d"
    and "find_hook d (hk_id (new_hook E key payload name run_as timeout mode sealed))
       = Some (new_hook E key payload name run_as timeout mode sealed)"
    and "\<not> hook_exists (hk_id (new_hook E key payload name run_as timeout mode sealed)) db"
proof -
  let ?h = "new_hook E key payload name run_as timeout mode sealed"
  have "permitted key db db d"
    by (rule hook_created[OF assms(4)])
      (use assms(2) new_hook_privilege[OF assms(3)] in \<open>simp_all add: require_ok new_hook_def\<close>)
  then show "writes key db db d" by (rule write_step[OF rtranclp.rtrancl_refl])
  show "find_hook d (hk_id ?h) = Some ?h"
    using hooks.find_after_insert[OF assms(1,4), of "hk_id ?h"] by (simp add: find_hook_def)
  show "\<not> hook_exists (hk_id ?h) db" using insert_hook_rows[OF assms(4)] by (simp add: hook_exists_def)
qed

lemma new_hook_owner: "hk_owner_key_id (new_hook E key payload name run_as timeout mode sealed) = Some (ak_id key)"
  by (simp add: new_hook_def)

lemma create_hook_writes:
  assumes "wf_db db"
  shows "writes key db db (snd (create_hook E key ip payload db))"
  unfolding create_hook_def Let_def
proof (intro handler_step, goal_cases)
  case (1 u run_as u2 u3 u4 u5 sealed u6 u7 d)
  note step = hook_created_step[OF assms 1(1,2) 1(10)]
  show ?case
    using insert_declared_writes[OF step(1,2) new_hook_owner new_hook_privilege[OF 1(2)]] by simp
next
  case (2 u run_as u2 u3 u4 u5 sealed u6 u7 d x d2)
  note step = hook_created_step[OF assms 2(1,2) 2(10)]
  have "db_hooks d2 = db_hooks d"
    using insert_declared_writes[OF step(1,2) new_hook_owner new_hook_privilege[OF 2(2)]] 2(11) by (metis snd_conv)
  then have "find_hook d2 (hk_id (new_hook E key payload (trim (chp_name payload)) run_as
      (unwrap_or (chp_default_timeout_seconds payload) 30) (unwrap_or (chp_auth_mode payload) CanonicalV1) sealed))
    = Some (new_hook E key payload (trim (chp_name payload)) run_as
      (unwrap_or (chp_default_timeout_seconds payload) 30) (unwrap_or (chp_auth_mode payload) CanonicalV1) sealed)"
    using step(2) by (simp add: find_hook_def)
  then show ?case
    by (rule grant_step[OF 2(12) _ new_hook_owner step(3)]) (use 2(1) in \<open>simp add: require_ok\<close>)
qed

section \<open>Updating a hook\<close>

lemma find_key_exists: "find_key db i = Some k \<Longrightarrow> key_exists i db"
  using find_keyD[of db i k] by (auto simp: key_exists_def)

lemma update_edit_ok:
  assumes "\<not> hk_is_deleted model"
    and "guard_manage db key model = Inr u"
    and "(if uhp_script_path payload \<noteq> None \<or> uhp_run_as_user payload \<noteq> None \<or> uhp_args_template payload \<noteq> None
          then guard_dispatch_configuration db key model else Inr ()) = Inr v"
    and "guard_master_for_privileged_hook key model ''modify'' = Inr w"
    and "(case uhp_run_as_user payload of
            Some raw \<Rightarrow> check (normalize_run_as_user key (Some raw)) (\<lambda>u. Inr (Some u))
          | None \<Rightarrow> Inr None) = Inr run_as"
    and "(if uhp_name payload \<noteq> None then guard_lifecycle_authority key model ''rename'' else Inr ()) = Inr x"
    and "requested_owner db key (uhp_owner_key_id payload) = Inr owner"
  shows "hook_edit_allowed db key model
    (apply_hook_update payload (map_option trim (uhp_name payload)) owner run_as sealed now model)"
    (is "hook_edit_allowed db key model ?new")
  unfolding hook_edit_allowed_def
proof (intro conjI)
  show "manages db key model" using assms(2) by (auto simp: manages_def guard_manage_ok)
  have run_as: "run_as = None \<longleftrightarrow> uhp_run_as_user payload = None"
    using assms(5) by (auto simp: early_return split: option.splits)
  have kept: "run_as = None \<Longrightarrow> hk_run_as_user ?new = hk_run_as_user model" by (simp add: apply_hook_update_def)
  show "privileged model \<or> privileged ?new \<longrightarrow> ak_is_master key"
  proof (cases "uhp_run_as_user payload")
    case None
    with assms(4) run_as kept show ?thesis by (auto simp: privileged_def guard_privileged_ok)
  next
    case (Some raw)
    then obtain u where "normalize_run_as_user key (Some raw) = Inr u" "hk_run_as_user ?new = u"
      using assms(5) by (auto simp: check_ok apply_hook_update_def)
    then show ?thesis using assms(4)
      by (auto simp: privileged_def guard_privileged_ok normalize_run_as_user_ok effective_run_as_user_def)
  qed
  show "hk_script_path ?new \<noteq> hk_script_path model \<or> hk_args_template ?new \<noteq> hk_args_template model
      \<or> hk_run_as_user ?new \<noteq> hk_run_as_user model \<longrightarrow> ak_is_master key \<or> holds_conjunction db key (hk_id model)"
    using assms(3) run_as
    by (auto simp: apply_hook_update_def cleared_or_kept_def guard_dispatch_ok split: if_splits option.splits)
  show "hk_name ?new \<noteq> hk_name model \<longrightarrow> ak_is_master key \<or> hk_owner_key_id model = Some (ak_id key)"
    using assms(6) by (auto simp: apply_hook_update_def guard_lifecycle_ok split: if_splits)
  show "hk_owner_key_id ?new \<noteq> hk_owner_key_id model \<longrightarrow>
      ak_is_master key \<and> (\<exists>o1. hk_owner_key_id ?new = Some o1 \<and> key_exists o1 db)"
    using assms(7)
    by (auto simp: requested_owner_def apply_hook_update_def split: option.splits if_splits
        dest: find_key_exists)
qed (use assms(1) in \<open>simp_all add: apply_hook_update_def\<close>)

lemma update_hook_step:
  assumes wf: "wf_db db" and hook: "resolve_hook X db identifier = Inr model"
    and "guard_manage db key model = Inr u"
    and "(if uhp_script_path payload \<noteq> None \<or> uhp_run_as_user payload \<noteq> None \<or> uhp_args_template payload \<noteq> None
          then guard_dispatch_configuration db key model else Inr ()) = Inr v"
    and "guard_master_for_privileged_hook key model ''modify'' = Inr w"
    and "(case uhp_run_as_user payload of
            Some raw \<Rightarrow> check (normalize_run_as_user key (Some raw)) (\<lambda>u. Inr (Some u))
          | None \<Rightarrow> Inr None) = Inr run_as"
    and "(if uhp_name payload \<noteq> None then guard_lifecycle_authority key model ''rename'' else Inr ()) = Inr x"
    and "requested_owner db key (uhp_owner_key_id payload) = Inr owner"
    and "update_hook_row (apply_hook_update payload (map_option trim (uhp_name payload)) owner run_as sealed now model)
           db = Inr db'"
  shows "writes key db db db'"
proof -
  have "hk_id (apply_hook_update payload (map_option trim (uhp_name payload)) owner run_as sealed now model) = hk_id model"
    by (simp add: apply_hook_update_def)
  with resolve_hook_found[OF wf hook] hook_edited[OF _ assms(9)] update_edit_ok[OF _ assms(3-8)]
  show ?thesis by (intro write_step[OF rtranclp.rtrancl_refl]) simp
qed

lemma update_hook_writes:
  assumes "wf_db db"
  shows "writes key db db (snd (update_hook E key ip identifier payload db))"
  unfolding update_hook_def Let_def
  by (intro handler_step) (rule update_hook_step, rule assms, assumption+)

section \<open>Deleting, restoring and purging\<close>

lemma update_same_name:
  assumes "wf_db d" and "old \<in> set (db_hooks d)" and "hk_id r = hk_id old" and "hk_name r = hk_name old"
  shows "update_hook_row r d = Inr (d\<lparr>db_hooks := replace_row hk_id r (db_hooks d)\<rparr>)"
proof -
  have "hk_name h \<noteq> hk_name old" if "h \<in> set (db_hooks d)" "hk_id h \<noteq> hk_id old" for h
    using assms(1,2) that by (auto simp: wf_db_def wf_hooks_def dest: same_key_eq)
  with assms show ?thesis by (auto simp: update_hook_row_def list_ex_iff)
qed

lemma soft_delete_step:
  assumes "wf_db db" and "find_hook db i = Some model" and "\<not> hk_is_deleted model"
    and "ak_is_master key \<or> (hk_owner_key_id model = Some (ak_id key) \<and> \<not> privileged model)"
  shows "permitted key db db (snd (soft_delete i now by1 db))"
proof -
  let ?r = "model\<lparr>hk_is_deleted := True, hk_deleted_at := Some now, hk_deleted_by := Some by1, hk_updated_at := now\<rparr>"
  have model: "model \<in> set (db_hooks db)" "hk_id model = i" using find_hookD[OF assms(2)] by auto
  have "(if hk_id h = i \<and> \<not> hk_is_deleted h
      then h\<lparr>hk_is_deleted := True, hk_deleted_at := Some now, hk_deleted_by := Some by1, hk_updated_at := now\<rparr>
      else h) = (if hk_id h = hk_id ?r then ?r else h)" if "h \<in> set (db_hooks db)" for h
  proof (cases "hk_id h = i")
    case True
    then have "h = model" using hooks.row_unique[OF assms(1) that model(1)] model(2) by simp
    with True assms(3) show ?thesis by simp
  qed (simp add: model)
  then have "snd (soft_delete i now by1 db) = db\<lparr>db_hooks := replace_row hk_id ?r (db_hooks db)\<rparr>"
    unfolding soft_delete_def replace_row_def snd_conv by (simp only: cong: map_cong)
  then have "update_hook_row ?r db = Inr (snd (soft_delete i now by1 db))"
    using update_same_name[OF assms(1) model(1), of ?r] by simp
  then show ?thesis
    by (intro hook_trashed[of db ?r model]) (use assms model in auto)
qed

lemma deletion_authority:
  assumes "guard_lifecycle_authority key model a = Inr u" and "guard_master_for_privileged_hook key model b = Inr v"
  shows "ak_is_master key \<or> (hk_owner_key_id model = Some (ak_id key) \<and> \<not> privileged model)"
  using assms by (auto simp: guard_lifecycle_ok guard_privileged_ok privileged_def)

lemma hard_delete_step:
  "require (ak_is_master key) e = Inr u \<Longrightarrow> delete_hooks Q db = (n, d) \<Longrightarrow> writes key db db d"
  using hooks_removed[of key d Q db db] by (auto simp: require_ok intro: write_step[OF rtranclp.rtrancl_refl])

lemma trash_step:
  assumes "wf_db db" and "\<not> hard"
    and "(if hard then resolve_hook_including_deleted X db identifier else resolve_hook X db identifier) = Inr model"
    and "guard_lifecycle_authority key model a = Inr u" and "guard_master_for_privileged_hook key model b = Inr v"
    and "soft_delete (hk_id model) now by1 db = (n, d)"
  shows "writes key db db d"
proof -
  have "resolve_hook X db identifier = Inr model" using assms(2,3) by simp
  from soft_delete_step[OF assms(1) resolve_hook_found[OF assms(1) this] deletion_authority[OF assms(4,5)], of now by1]
  show ?thesis using write_step[OF rtranclp.rtrancl_refl] assms(6) by simp
qed

lemma delete_hook_writes:
  assumes "wf_db db"
  shows "writes key db db (snd (delete_hook E key ip identifier hard db))"
  unfolding delete_hook_def Let_def
  by (intro handler_step) (rule hard_delete_step, assumption+ | rule trash_step, rule assms, assumption+)+

lemma restore_step:
  assumes "wf_db db" and "require (ak_is_master key) e = Inr u"
    and "resolve_hook_including_deleted X db identifier = Inr model"
    and "update_hook_row (model\<lparr>hk_is_deleted := False, hk_deleted_at := None, hk_deleted_by := None,
           hk_updated_at := now\<rparr>) db = Inr d"
  shows "writes key db db d"
proof -
  have "find_hook db (hk_id model) = Some model"
    using resolve_including_deletedD[OF assms(3)] by (simp add: find_hook_iff_row[OF assms(1)])
  then show ?thesis
    using hook_restored[OF _ assms(4), of model key now] assms(2)
    by (intro write_step[OF rtranclp.rtrancl_refl]) (simp add: require_ok)
qed

lemma restore_hook_writes:
  assumes "wf_db db"
  shows "writes key db db (snd (restore_hook E key ip identifier db))"
  unfolding restore_hook_def Let_def
  by (intro handler_step) (rule restore_step, rule assms, assumption+)

lemma purge_hooks_step:
  assumes "ak_is_master key" and "purge_expired_deleted_hooks X now days db = Some (n, d)"
  shows "writes key db db d"
proof (cases "days \<le> 0")
  case True
  with assms(2) show ?thesis by (simp add: purge_expired_deleted_hooks_def)
next
  case False
  with assms(2) obtain Q where "delete_hooks Q db = (n, d)" by (auto simp: purge_expired_deleted_hooks_def)
  then show ?thesis using assms(1) by (intro hard_delete_step[of key Internal "()"]) simp_all
qed

lemma purge_answer:
  assumes "map_option (\<lambda>(n, d). and_then (create_audit_log E j key ip a t (f n) d) (\<lambda>_ d. (Inr (g n), d))) m
      = Some (r, db')"
    and "\<And>n d. m = Some (n, d) \<Longrightarrow> writes key d0 db d"
  shows "writes key d0 db db'"
proof -
  from assms(1) obtain n d where m: "m = Some (n, d)"
    and rest: "(r, db') = and_then (create_audit_log E j key ip a t (f n) d) (\<lambda>_ d. (Inr (g n), d))" by auto
  have "writes key d0 db (snd (r, db'))" unfolding rest by (intro handler_step assms(2)[OF m])
  then show ?thesis by simp
qed

lemma purge_deleted_hooks_writes:
  assumes "purge_deleted_hooks E key ip age db = Some (r, db')"
  shows "writes key db db db'"
proof (cases "ak_is_master key \<and> 0 \<le> unwrap_or age (cf_deleted_hook_retention_days (ev_config E))")
  case True
  then have "\<not> unwrap_or age (cf_deleted_hook_retention_days (ev_config E)) < 0" by simp
  with assms True show ?thesis
    unfolding purge_deleted_hooks_def Let_def by (simp only: not_True_eq_False if_False)
      (erule purge_answer, erule purge_hooks_step[rotated], simp)
next
  case False
  with assms show ?thesis by (auto simp: purge_deleted_hooks_def Let_def split: if_splits)
qed

section \<open>Parameters\<close>

text \<open>The guards that every parameter endpoint has passed.\<close>

lemma param_guards:
  assumes "wf_db db" and "resolve_hook X db identifier = Inr model" and "guard_manage db key model = Inr u"
    and "guard_master_for_privileged_hook key model a = Inr v"
  shows "find_hook db (hk_id model) = Some model" and "manages db key model"
    and "privileged model \<longrightarrow> ak_is_master key"
  using resolve_hook_found[OF assms(1,2)] assms(3,4)
  by (auto simp: guard_manage_ok guard_privileged_ok manages_def privileged_def)

lemma param_created_step:
  assumes "wf_db db" and "resolve_hook X db identifier = Inr model" and "guard_manage db key model = Inr u"
    and "guard_master_for_privileged_hook key model a = Inr v"
    and "insert_param \<lparr>hp_id = i, hp_hook_id = hk_id model, hp_param_key = k, hp_description = dsc,
           hp_default_value = dflt, hp_is_required = req, hp_created_at = t\<rparr> db = Inr d"
  shows "writes key db db d"
  using param_guards[OF assms(1-4)]
  by (intro write_step[OF rtranclp.rtrancl_refl] param_added[OF _ assms(5)]) auto

lemma create_hook_parameter_writes:
  assumes "wf_db db"
  shows "writes key db db (snd (create_hook_parameter E key ip identifier payload db))"
  unfolding create_hook_parameter_def Let_def
  by (intro handler_step) (rule param_created_step, rule assms, assumption+)

lemma param_of_hook:
  "ok_or (filter_opt (\<lambda>p. hp_hook_id p = i) (find_param db j)) e = Inr p \<Longrightarrow>
     find_param db j = Some p \<and> hp_hook_id p = i \<and> hp_id p = j"
  by (auto simp: ok_or_ok filter_opt_Some_iff dest: find_paramD)

lemma param_changed_step:
  assumes "wf_db db" and "resolve_hook X db identifier = Inr model" and "guard_manage db key model = Inr u"
    and "guard_master_for_privileged_hook key model a = Inr v"
    and "ok_or (filter_opt (\<lambda>p. hp_hook_id p = hk_id model) (find_param db j)) e = Inr param"
    and "update_param (apply_param_update payload param) db = Inr d"
  shows "writes key db db d"
proof -
  have ids: "hp_id (apply_param_update payload param) = hp_id param"
    "hp_hook_id (apply_param_update payload param) = hp_hook_id param"
    by (simp_all add: apply_param_update_def)
  show ?thesis using param_guards[OF assms(1-4)] param_of_hook[OF assms(5)] ids
    by (intro write_step[OF rtranclp.rtrancl_refl] param_changed[OF _ assms(6), of model _ param]) auto
qed

lemma update_hook_parameter_writes:
  assumes "wf_db db"
  shows "writes key db db (snd (update_hook_parameter E key ip identifier j payload db))"
  unfolding update_hook_parameter_def Let_def
  by (intro handler_step) (rule param_changed_step, rule assms, assumption+)

lemma param_removed_step:
  assumes "wf_db db" and "resolve_hook X db identifier = Inr model" and "guard_manage db key model = Inr u"
    and "guard_master_for_privileged_hook key model a = Inr v"
    and "ok_or (filter_opt (\<lambda>p. hp_hook_id p = hk_id model) (find_param db j)) e = Inr param"
  shows "writes key db db (delete_param j db)"
  using param_guards[OF assms(1-4)] param_of_hook[OF assms(5)]
  by (intro write_step[OF rtranclp.rtrancl_refl] param_removed[of db j param model key]) auto

lemma delete_hook_parameter_writes:
  assumes "wf_db db"
  shows "writes key db db (snd (delete_hook_parameter E key ip identifier j db))"
  unfolding delete_hook_parameter_def Let_def
  by (intro handler_step) (rule param_removed_step, rule assms, assumption+)

section \<open>Executions\<close>

lemma delete_execution_step:
  assumes "ok_or (find_exec db i) e = Inr model" and "ok_or (find_hook db (ex_hook_id model)) e' = Inr h"
    and "guard_manage db key h = Inr u" and "delete_execs (\<lambda>e. ex_id e = i) db = (n, d)"
  shows "writes key db db d"
proof -
  have "permitted key db db (snd (delete_execs (\<lambda>e. ex_id e = i) db))"
    using assms by (intro execution_removed[of db i model h]) (auto simp: ok_or_ok guard_manage_ok manages_def)
  then show ?thesis using assms(4) write_step[OF rtranclp.rtrancl_refl] by simp
qed

lemma delete_execution_writes: "writes key db db (snd (delete_execution E key ip i db))"
  unfolding delete_execution_def Let_def
  by (intro handler_step) (rule delete_execution_step, assumption+)

lemma purge_executions_step:
  assumes "ak_is_master key" and "purge_expired_executions X now days db = Some (n, d)"
  shows "writes key db db d"
proof (cases "days \<le> 0")
  case True
  with assms(2) show ?thesis by (simp add: purge_expired_executions_def)
next
  case False
  with assms(2) obtain Q where "delete_execs Q db = (n, d)" by (auto simp: purge_expired_executions_def)
  then have "permitted key db db d" using executions_purged[OF assms(1), of d Q db] by simp
  then show ?thesis by (rule write_step[OF rtranclp.rtrancl_refl])
qed

lemma purge_executions_writes:
  assumes "purge_executions E key ip age db = Some (r, db')"
  shows "writes key db db db'"
proof (cases "ak_is_master key \<and> 0 \<le> unwrap_or age (cf_log_retention_days (ev_config E))")
  case True
  then have "\<not> unwrap_or age (cf_log_retention_days (ev_config E)) < 0" by simp
  with assms True show ?thesis
    unfolding purge_executions_def Let_def by (simp only: not_True_eq_False if_False)
      (erule purge_answer, erule purge_executions_step[rotated], simp)
next
  case False
  with assms show ?thesis by (auto simp: purge_executions_def Let_def split: if_splits)
qed

text \<open>An execution with a key.\<close>

lemma execute_hook_writes:
  assumes "guard_execute db key (hk_id h) = Inr u" and "find_hook db (hk_id h) = Some h" and "\<not> hk_is_deleted h"
  shows "writes key db db (snd (snd (execute_hook E H h (Some key) resolved (L, db))))"
proof -
  have run: "writes key db db d" if "insert_exec (execution_record E h (Some key) resolved out) db = Inr d" for out d
    by (intro write_step[OF rtranclp.rtrancl_refl] execution_added[OF that])
      (use assms in \<open>auto simp: execution_record_def\<close>)
  show ?thesis
    using run by (simp add: execute_hook_def Let_def split: prod.splits sum.splits)
qed

lemma run_hook_request_writes:
  assumes "wf_db db"
  shows "writes key db db (snd (snd (run_hook_request E H (Some key) identifier body (L, db))))"
  unfolding run_hook_request_def snd_conv option.case
  apply ((rule state_attempt[where P = "\<lambda>s. writes key db db (snd s)"], simp)+)
  apply (rule state_and_then[where P = "\<lambda>s. writes key db db (snd s)"])
  apply (rule execute_hook_writes, assumption)
  apply (erule resolve_hook_found[OF assms])+
  apply (rule state_pair[where P = "\<lambda>s. writes key db db (snd s)"], assumption)
  done

lemmas hook_handler_writes = create_hook_writes update_hook_writes delete_hook_writes restore_hook_writes
  create_hook_parameter_writes update_hook_parameter_writes delete_hook_parameter_writes
  delete_execution_writes run_hook_request_writes
lemmas purge_writes = purge_deleted_hooks_writes purge_executions_writes

end
