(* ===== verification/Api.thy ===== *)
theory Api
  imports Access_Hooks Authentication Retention
begin

text \<open>
  The router (\<open>create\_app\<close> in \<open>src/lib.rs\<close>): which calls change the database, behind which middleware,
  and the background sweep.  A state is the database with the authentication state (pin and replay
  guard); \<open>step\<close> is one request or one tick of the retention worker.  Calls that only read are not
  listed: their definitions return no database.
\<close>

section \<open>Calls\<close>

datatype api_call =
    CreateKey create_api_key_payload
  | UpdateKey uuid update_api_key_payload
  | DeleteKey uuid resolutions
  | RotateKey uuid
  | RegenerateKey uuid
  | RegenerateSecret uuid
  | SetPermissions uuid hook_perm_input
  | RevokePermission uuid string
  | CreateHook create_hook_payload
  | UpdateHook string update_hook_payload
  | DeleteHook string "bool option"
  | RestoreHook string
  | PurgeHooks "int option"
  | CreateParameter string parameter_input
  | UpdateParameter string uuid update_parameter_payload
  | DeleteParameter string uuid
  | DeleteExecution uuid
  | PurgeExecutions "int option"

text \<open>The payload of a key deletion is a \<open>HashMap\<close>: one resolution for each id.\<close>

fun well_formed_call :: "api_call \<Rightarrow> bool" where
  "well_formed_call (DeleteKey i resolutions) = distinct (map fst resolutions)"
| "well_formed_call _ = True"

text \<open>
  The database that the handler of the route leaves and whether it answered with success.  A panic
  (\<open>None\<close>) leaves the database as it was.
\<close>

definition outcome :: "'a result \<times> database \<Rightarrow> bool \<times> database" where
  "outcome m = (case m of (Inl _, db) \<Rightarrow> (False, db) | (Inr _, db) \<Rightarrow> (True, db))"

fun serve :: "env \<Rightarrow> api_key \<Rightarrow> ip \<Rightarrow> api_call \<Rightarrow> database \<Rightarrow> bool \<times> database" where
  "serve E key ip (CreateKey p) db = outcome (create_api_key E key ip p db)"
| "serve E key ip (UpdateKey i p) db = outcome (update_api_key E key ip i p db)"
| "serve E key ip (DeleteKey i rs) db = outcome (delete_api_key E key ip i rs db)"
| "serve E key ip (RotateKey i) db = outcome (rotate_api_key E key ip i db)"
| "serve E key ip (RegenerateKey i) db = outcome (regenerate_key E key ip i db)"
| "serve E key ip (RegenerateSecret i) db = outcome (regenerate_secret E key ip i db)"
| "serve E key ip (SetPermissions i p) db = outcome (update_key_hook_permissions E key ip i p db)"
| "serve E key ip (RevokePermission i h) db = outcome (revoke_key_hook_permission E key ip i h db)"
| "serve E key ip (CreateHook p) db = outcome (create_hook E key ip p db)"
| "serve E key ip (UpdateHook h p) db = outcome (update_hook E key ip h p db)"
| "serve E key ip (DeleteHook h hard) db = outcome (delete_hook E key ip h hard db)"
| "serve E key ip (RestoreHook h) db = outcome (restore_hook E key ip h db)"
| "serve E key ip (PurgeHooks age) db =
     (case purge_deleted_hooks E key ip age db of None \<Rightarrow> (False, db) | Some m \<Rightarrow> outcome m)"
| "serve E key ip (CreateParameter h p) db = outcome (create_hook_parameter E key ip h p db)"
| "serve E key ip (UpdateParameter h i p) db = outcome (update_hook_parameter E key ip h i p db)"
| "serve E key ip (DeleteParameter h i) db = outcome (delete_hook_parameter E key ip h i db)"
| "serve E key ip (DeleteExecution i) db = outcome (delete_execution E key ip i db)"
| "serve E key ip (PurgeExecutions age) db =
     (case purge_executions E key ip age db of None \<Rightarrow> (False, db) | Some m \<Rightarrow> outcome m)"

lemma snd_outcome [simp]: "snd (outcome m) = snd m"
  by (auto simp: outcome_def split: prod.splits sum.splits)

lemma fst_outcome: "fst (outcome m) \<longleftrightarrow> (\<exists>x. fst m = Inr x)"
  by (auto simp: outcome_def split: prod.splits sum.splits)

section \<open>A request through its middleware\<close>

text \<open>An administration route: \<open>auth\_middleware\<close>, then the handler with the key it established.\<close>

definition admin_request ::
  "env \<Rightarrow> env \<Rightarrow> instant \<Rightarrow> network list \<Rightarrow> request \<Rightarrow> api_call \<Rightarrow> database \<times> auth_state \<Rightarrow>
     bool \<times> (database \<times> auth_state)" where
  "admin_request E E' t trusted rq call s =
     (case auth_middleware E t trusted rq (fst s) (snd s) of
        (Inl e, au) \<Rightarrow> (False, (fst s, au))
      | (Inr (client_ip, key), au) \<Rightarrow>
          (case serve E' key client_ip call (fst s) of (ok, db) \<Rightarrow> (ok, (db, au))))"

text \<open>
  An invocation route: \<open>invocation\_auth\_middleware\<close>, then the handler with the path's identifier as
  the extractor decodes it (\<open>StrictPath\<close>), which need not be the raw segment that the middleware read.
\<close>

definition invocation_request ::
  "env \<Rightarrow> env \<Rightarrow> host \<Rightarrow> instant \<Rightarrow> network list \<Rightarrow> request \<Rightarrow> string \<Rightarrow> limiter \<Rightarrow>
     database \<times> auth_state \<Rightarrow> bool \<times> (database \<times> auth_state)" where
  "invocation_request E E' H t trusted rq identifier L s =
     (case invocation_auth_middleware E t trusted rq (fst s) (snd s) of
        (Inl e, au) \<Rightarrow> (False, (fst s, au))
      | (Inr (client_ip, key), au) \<Rightarrow>
          (case execute_hook_endpoint E' H key identifier (rq_body rq) (L, fst s) of
             (Inl e, (_, db)) \<Rightarrow> (False, (db, au))
           | (Inr view, (_, db)) \<Rightarrow> (True, (db, au))))"

section \<open>The authenticated caller\<close>

text \<open>A key as the middleware hands it on: a stored row, possibly without its master flag.\<close>

definition stored_caller :: "database \<Rightarrow> api_key \<Rightarrow> bool" where
  "stored_caller db c \<longleftrightarrow> (\<exists>k. k \<in> set (db_keys db) \<and> (ak_is_master c \<longrightarrow> ak_is_master k)
     \<and> c = k\<lparr>ak_is_master := ak_is_master c\<rparr>)"

lemma stored_caller_exists: "stored_caller db c \<Longrightarrow> key_exists (ak_id c) db"
proof -
  assume "stored_caller db c"
  then obtain k where k: "k \<in> set (db_keys db)" "c = k\<lparr>ak_is_master := ak_is_master c\<rparr>"
    by (auto simp: stored_caller_def)
  have "ak_id c = ak_id k" by (subst k(2)) simp
  with k(1) show ?thesis by (auto simp: key_exists_def)
qed

lemma find_by_hash_row: "find_key_by_hash db h = Some k \<Longrightarrow> k \<in> set (db_keys db) \<and> ak_key_hash k = h"
  by (auto simp: find_key_by_hash_def dest: find_SomeD)

lemma bearer_caller:
  assumes "authenticate_bearer_key E t rq h presented client_ip db au = (Inr key, au')"
  shows "stored_caller db key"
proof -
  from assms obtain found where found: "find_key_by_hash db (key_hash_of E presented) = Some found"
    and key: "key = fst (pin_authenticate db found (au_pin au))" by (auto simp: bearer_ok)
  have "key = found\<lparr>ak_is_master := ak_is_master key\<rparr>"
    unfolding key by (rule pin_authenticate_key)
  moreover have "ak_is_master key \<longrightarrow> ak_is_master found"
    unfolding key by (blast dest: pin_authenticate_master)
  ultimately show ?thesis using find_by_hash_row[OF found] unfolding stored_caller_def by blast
qed

lemma auth_middleware_caller:
  "auth_middleware E t trusted rq db au = (Inr (client_ip, key), au') \<Longrightarrow> stored_caller db key"
  by (auto simp: auth_middleware_def Let_def early_return dest: bearer_caller)

lemma invocation_caller:
  "invocation_auth_middleware E t trusted rq db au = (Inr (client_ip, Some key), au') \<Longrightarrow> stored_caller db key"
  by (auto simp: invocation_auth_middleware_def Let_def early_return map_err_ok
      split: option.splits prod.splits dest: bearer_caller)

section \<open>Every call is permitted\<close>

lemma serve_writes:
  assumes "wf_db db" and "stored_caller db key" and "well_formed_call call"
  shows "writes key db db (snd (serve E key ip call db))"
proof (cases call)
  case (PurgeHooks age)
  then show ?thesis
    by (cases "purge_deleted_hooks E key ip age db") (auto dest: purge_deleted_hooks_writes)
next
  case (PurgeExecutions age)
  then show ?thesis
    by (cases "purge_executions E key ip age db") (auto dest: purge_executions_writes)
qed (use assms in \<open>simp_all add: key_handler_writes hook_handler_writes stored_caller_exists\<close>)

lemma keyless_run:
  "snd (snd (run_hook_request E H None identifier body (L, db))) = db
   \<or> (\<exists>r. insert_exec r db = Inr (snd (snd (run_hook_request E H None identifier body (L, db)))))"
proof -
  let ?P = "\<lambda>s. snd s = db \<or> (\<exists>r. insert_exec r db = Inr (snd s))"
  have run: "?P (snd (execute_hook E H h None resolved (L, db)))" for h resolved
    by (auto simp: execute_hook_def Let_def split: prod.splits sum.splits option.splits)
  show ?thesis
    unfolding run_hook_request_def snd_conv option.case
    apply ((rule state_attempt[where P = ?P], simp)+)
    apply (rule state_and_then[where P = ?P], rule run)
    apply (rule state_pair[where P = ?P], assumption)
    done
qed

text \<open>A run touches no table but the executions.\<close>

lemma run_tables:
  fixes s :: "limiter \<times> database"
  shows "db_keys (snd (snd (run_hook_request E H key identifier body s))) = db_keys (snd s)
    \<and> db_hooks (snd (snd (run_hook_request E H key identifier body s))) = db_hooks (snd s)
    \<and> db_params (snd (snd (run_hook_request E H key identifier body s))) = db_params (snd s)
    \<and> db_perms (snd (snd (run_hook_request E H key identifier body s))) = db_perms (snd s)"
proof -
  let ?P = "\<lambda>x :: limiter \<times> database. db_keys (snd x) = db_keys (snd s) \<and> db_hooks (snd x) = db_hooks (snd s)
    \<and> db_params (snd x) = db_params (snd s) \<and> db_perms (snd x) = db_perms (snd s)"
  have run: "?P (snd (execute_hook E H h key resolved s))" for h resolved
    by (auto simp: execute_hook_def Let_def split: prod.splits sum.splits option.splits dest!: insert_exec_shape)
  have "?P (snd (run_hook_request E H key identifier body s))"
    unfolding run_hook_request_def
    apply ((rule state_attempt[where P = ?P], simp)+)
    apply (rule state_and_then[where P = ?P], rule run)
    apply (rule state_pair[where P = ?P], assumption)
    done
  then show ?thesis .
qed

end
