(* ===== verification/System.thy ===== *)
theory System
  imports Api
begin

text \<open>
  The running daemon as a sequence of events: requests through their middleware and sweeps of the
  retention worker.  What holds of every history: the constraints, the key forest, the frozen master row,
  the append-only audit trail; and what holds of every history in which no request authenticates as the
  master: no key gains a global scope, and what a privileged hook runs stays as it was.
\<close>

section \<open>Events\<close>

datatype event =
    AdminRequest env env instant "network list" request api_call
  | Invocation env env host instant "network list" request string limiter
  | Sweep externals runtime_config time time

fun well_formed_event :: "event \<Rightarrow> bool" where
  "well_formed_event (AdminRequest _ _ _ _ _ call) = well_formed_call call"
| "well_formed_event _ = True"

fun react :: "event \<Rightarrow> database \<times> auth_state \<Rightarrow> database \<times> auth_state" where
  "react (AdminRequest E E' t trusted rq call) s = snd (admin_request E E' t trusted rq call s)"
| "react (Invocation E E' H t trusted rq identifier L) s =
     snd (invocation_request E E' H t trusted rq identifier L s)"
| "react (Sweep X cfg now now') s =
     (case retention_tick X cfg now now' (fst s) of None \<Rightarrow> s | Some db \<Rightarrow> (db, snd s))"

text \<open>The request authenticates as the master.\<close>

fun by_master :: "event \<Rightarrow> database \<times> auth_state \<Rightarrow> bool" where
  "by_master (AdminRequest E E' t trusted rq call) s =
     (case fst (auth_middleware E t trusted rq (fst s) (snd s)) of
        Inl e \<Rightarrow> False | Inr (client_ip, key) \<Rightarrow> ak_is_master key)"
| "by_master _ s = False"

fun history :: "event list \<Rightarrow> database \<times> auth_state \<Rightarrow> database \<times> auth_state" where
  "history [] s = s"
| "history (e # es) s = history es (react e s)"

fun no_master :: "event list \<Rightarrow> database \<times> auth_state \<Rightarrow> bool" where
  "no_master [] s = True"
| "no_master (e # es) s = (\<not> by_master e s \<and> no_master es (react e s))"

fun is_sweep :: "event \<Rightarrow> bool" where
  "is_sweep (Sweep X cfg now now') = True"
| "is_sweep _ = False"

section \<open>One event\<close>

text \<open>An event is a request of an authenticated key, a keyless run, a sweep, or nothing.\<close>

definition swept :: "database \<Rightarrow> database \<Rightarrow> bool" where
  "swept db db' \<longleftrightarrow> (\<exists>P Q. (\<forall>h. P h \<longrightarrow> hk_is_deleted h) \<and> db' = snd (delete_hooks P (snd (delete_execs Q db))))"

lemma delete_nothing: "delete_execs (\<lambda>_. False) db = (0, db)" "delete_hooks (\<lambda>_. False) db = (0, db)"
  by (simp_all add: delete_execs_def delete_hooks_def)

lemma purge_executions_shape:
  "purge_expired_executions X now d db = Some (n, db') \<Longrightarrow> \<exists>Q. db' = snd (delete_execs Q db)"
  using delete_nothing(1)[of db]
  by (auto simp: purge_expired_executions_def split: if_splits) (metis snd_conv)+

lemma purge_hooks_shape:
  "purge_expired_deleted_hooks X now d db = Some (n, db') \<Longrightarrow>
     \<exists>P. (\<forall>h. P h \<longrightarrow> hk_is_deleted h) \<and> db' = snd (delete_hooks P db)"
proof (cases "d \<le> 0")
  case True
  assume "purge_expired_deleted_hooks X now d db = Some (n, db')"
  with True have "db' = snd (delete_hooks (\<lambda>_. False) db)" by (simp add: purge_expired_deleted_hooks_def delete_nothing)
  then show ?thesis by (intro exI[of _ "\<lambda>_. False"]) simp
next
  case False
  assume "purge_expired_deleted_hooks X now d db = Some (n, db')"
  with False obtain limit where "db' = snd (delete_hooks (\<lambda>h. hk_is_deleted h
      \<and> (case hk_deleted_at h of Some t \<Rightarrow> t < limit | None \<Rightarrow> False)) db)"
    by (auto simp: purge_expired_deleted_hooks_def) (metis snd_conv)
  then show ?thesis by (intro exI conjI) auto
qed

lemma retention_swept: "retention_tick X cfg now now' db = Some db' \<Longrightarrow> swept db db'"
  unfolding retention_tick_def swept_def
  by (auto simp: bind_eq_Some_conv dest!: purge_executions_shape purge_hooks_shape)

lemma react_cases:
  assumes "wf_db (fst s)" and "well_formed_event e"
  obtains (served) key where "stored_caller (fst s) key" "writes key (fst s) (fst s) (fst (react e s))"
      "ak_is_master key \<longrightarrow> by_master e s \<or> db_keys (fst (react e s)) = db_keys (fst s)
         \<and> db_hooks (fst (react e s)) = db_hooks (fst s) \<and> db_params (fst (react e s)) = db_params (fst s)
         \<and> db_perms (fst (react e s)) = db_perms (fst s)"
  | (keyless) r where "insert_exec r (fst s) = Inr (fst (react e s))"
  | (sweep) "swept (fst s) (fst (react e s))" "is_sweep e"
  | (idle) "fst (react e s) = fst s"
proof (cases e)
  case (AdminRequest E E' t trusted rq call)
  show ?thesis
  proof (cases "fst (auth_middleware E t trusted rq (fst s) (snd s))")
    case (Inl err)
    with AdminRequest have "fst (react e s) = fst s" by (auto simp: admin_request_def split: prod.splits)
    then show ?thesis by (rule idle)
  next
    case (Inr p)
    obtain client_ip key au where auth: "auth_middleware E t trusted rq (fst s) (snd s) = (Inr (client_ip, key), au)"
      using Inr by (cases p; cases "auth_middleware E t trusted rq (fst s) (snd s)") auto
    have st: "stored_caller (fst s) key" using auth_middleware_caller[OF auth] .
    have "fst (react e s) = snd (serve E' key client_ip call (fst s))"
      using auth AdminRequest by (simp add: admin_request_def split: prod.splits)
    moreover have "by_master e s = ak_is_master key" using auth AdminRequest by simp
    ultimately show ?thesis
      using served[OF st] serve_writes[OF assms(1) st, of call E' client_ip] assms(2) AdminRequest by simp
  qed
next
  case (Invocation E E' H t trusted rq ident L)
  show ?thesis
  proof (cases "fst (invocation_auth_middleware E t trusted rq (fst s) (snd s))")
    case (Inl err)
    with Invocation have "fst (react e s) = fst s" by (auto simp: invocation_request_def split: prod.splits)
    then show ?thesis by (rule idle)
  next
    case (Inr p)
    obtain client_ip key au where
      auth: "invocation_auth_middleware E t trusted rq (fst s) (snd s) = (Inr (client_ip, key), au)"
      using Inr by (cases p; cases "invocation_auth_middleware E t trusted rq (fst s) (snd s)") auto
    let ?run = "run_hook_request E' H key ident (rq_body rq) (L, fst s)"
    have db: "fst (react e s) = snd (snd ?run)"
      using auth Invocation
      by (auto simp: invocation_request_def execute_hook_endpoint_def split: prod.splits sum.splits)
    show ?thesis
    proof (cases key)
      case None
      with keyless_run[of E' H ident "rq_body rq" L "fst s"] db
      have "fst (react e s) = fst s \<or> (\<exists>r. insert_exec r (fst s) = Inr (fst (react e s)))" by simp
      with keyless idle show ?thesis by blast
    next
      case (Some k)
      have "stored_caller (fst s) k" using invocation_caller auth Some by simp
      moreover have "writes k (fst s) (fst s) (fst (react e s))"
        using run_hook_request_writes[OF assms(1)] db Some by simp
      moreover have "db_keys (snd (snd ?run)) = db_keys (fst s) \<and> db_hooks (snd (snd ?run)) = db_hooks (fst s)
         \<and> db_params (snd (snd ?run)) = db_params (fst s) \<and> db_perms (snd (snd ?run)) = db_perms (fst s)"
        using run_tables[of E' H key ident "rq_body rq" "(L, fst s)"] by simp
      ultimately show ?thesis using served db by metis
    qed
  qed
next
  case (Sweep X cfg now now')
  with sweep idle retention_swept[of X cfg now now' "fst s"] show ?thesis
    by (cases "retention_tick X cfg now now' (fst s)") auto
qed

section \<open>What one event keeps\<close>

lemma swept_wf: "swept db db' \<Longrightarrow> wf_db db \<Longrightarrow> wf_db db'"
  by (auto simp: swept_def intro: delete_wf)

lemma swept_keys: "swept db db' \<Longrightarrow> db_keys db' = db_keys db"
  by (auto simp: swept_def)

lemma swept_hooks: "swept db db' \<Longrightarrow> set (db_hooks db') \<subseteq> set (db_hooks db)"
  by (auto simp: swept_def delete_hooks_def Let_def)

lemma swept_params:
  assumes "swept db db'" and "wf_db db" and "h \<in> set (db_hooks db')"
  shows "filter (\<lambda>p. hp_hook_id p = hk_id h) (db_params db') = filter (\<lambda>p. hp_hook_id p = hk_id h) (db_params db)"
proof -
  from assms(1) obtain P Q where db': "db' = snd (delete_hooks P (snd (delete_execs Q db)))"
    by (auto simp: swept_def)
  with assms(3) have h: "h \<in> set (db_hooks db)" "\<not> P h" by (auto simp: delete_hooks_def Let_def)
  have "hk_id g \<noteq> hk_id h" if "g \<in> set (db_hooks db)" and "P g" for g
    using h that hooks.row_unique[OF assms(2)] by metis
  then show ?thesis by (auto simp: db' delete_hooks_def Let_def intro!: filter_cong)
qed

lemma react_sound:
  assumes "wf_db (fst s)" and "forest (fst s)" and "well_formed_event e"
  shows "wf_db (fst (react e s)) \<and> forest (fst (react e s))"
  using assms(1,3)
proof (cases rule: react_cases)
  case (served key)
  then show ?thesis using writes_forest assms(1,2) by blast
next
  case (keyless r)
  then show ?thesis using insert_exec_wf forest_frame key_frames(5) assms(1,2) by blast
next
  case sweep
  then show ?thesis using swept_wf swept_keys forest_frame assms(1,2) by blast
qed (use assms in simp)

lemma react_masters:
  assumes "wf_db (fst s)" and "forest (fst s)" and "well_formed_event e"
  shows "map frozen (masters (fst (react e s))) = map frozen (masters (fst s))
    \<and> (\<not> by_master e s \<longrightarrow> masters (fst (react e s)) = masters (fst s))"
  using assms(1,3)
proof (cases rule: react_cases)
  case (served key)
  then show ?thesis using writes_masters[OF served(2) assms(1,2)] masters_frame by metis
next
  case (keyless r)
  then show ?thesis using masters_frame key_frames(5) by metis
next
  case sweep
  then show ?thesis using masters_frame swept_keys by metis
qed simp

text \<open>Without the master.\<close>

lemma react_scopes:
  assumes "wf_db (fst s)" and "well_formed_event e" and "\<not> by_master e s" and "k' \<in> set (db_keys (fst (react e s)))"
  shows "(ak_can_manage_keys k' \<longrightarrow> (\<exists>k\<in>set (db_keys (fst s)). ak_id k = ak_id k' \<and> ak_can_manage_keys k))
   \<and> (ak_can_manage_hooks k' \<longrightarrow> (\<exists>k\<in>set (db_keys (fst s)). ak_id k = ak_id k' \<and> ak_can_manage_hooks k))"
proof -
  have same: ?thesis if "db_keys (fst (react e s)) = db_keys (fst s)" using that assms(4) by auto
  from assms(1,2) show ?thesis
  proof (cases rule: react_cases)
    case (served key)
    then show ?thesis using writes_scopes[OF served(2) _ assms(4)] same assms(3) by blast
  next
    case (keyless r)
    then show ?thesis using same key_frames(5) by blast
  next
    case sweep
    then show ?thesis using same swept_keys by blast
  qed (use same in simp)
qed

definition untouched :: "hook \<Rightarrow> database \<Rightarrow> hook \<Rightarrow> database \<Rightarrow> bool" where
  "untouched h db h' db' \<longleftrightarrow> hk_id h' = hk_id h \<and> custody h' = custody h
    \<and> filter (\<lambda>p. hp_hook_id p = hk_id h) (db_params db') = filter (\<lambda>p. hp_hook_id p = hk_id h) (db_params db)"

lemma untouched_refl: "untouched h db h db"
  by (simp add: untouched_def)

lemma untouched_trans: "untouched h db h1 d \<Longrightarrow> untouched h1 d h2 d' \<Longrightarrow> untouched h db h2 d'"
  by (simp add: untouched_def)

lemma writes_untouched:
  assumes "writes c db db db'" and "wf_db db" and "\<not> ak_is_master c" and "h' \<in> set (db_hooks db')"
    and "privileged h'"
  shows "\<exists>h\<in>set (db_hooks db). privileged h \<and> untouched h db h' db'"
proof -
  obtain h where h: "h \<in> set (db_hooks db)" "hk_id h = hk_id h'" "privileged h"
    using writes_privileged_new[OF assms] by blast
  obtain h1 where h1: "h1 \<in> set (db_hooks db')" "hk_id h1 = hk_id h" "custody h1 = custody h"
    and params: "filter (\<lambda>p. hp_hook_id p = hk_id h) (db_params db') = filter (\<lambda>p. hp_hook_id p = hk_id h) (db_params db)"
    using writes_privileged[OF assms(1-3) h(1,3)] by blast
  have "h1 = h'" using hooks.row_unique[OF writes_wf[OF assms(1,2)] h1(1) assms(4)] h(2) h1(2) by simp
  with h h1 params show ?thesis by (auto simp: untouched_def)
qed

lemma react_privileged:
  assumes "wf_db (fst s)" and "well_formed_event e" and "\<not> by_master e s"
    and "h' \<in> set (db_hooks (fst (react e s)))" and "privileged h'"
  shows "\<exists>h\<in>set (db_hooks (fst s)). privileged h \<and> untouched h (fst s) h' (fst (react e s))"
proof -
  have same: ?thesis if "db_hooks (fst (react e s)) = db_hooks (fst s)"
      and "db_params (fst (react e s)) = db_params (fst s)"
    using that assms(4,5) by (auto simp: untouched_def)
  from assms(1,2) show ?thesis
  proof (cases rule: react_cases)
    case (served key)
    then show ?thesis using writes_untouched[OF served(2) assms(1) _ assms(4,5)] same assms(3) by blast
  next
    case (keyless r)
    then show ?thesis using same hook_frames(5) param_frames(5) by blast
  next
    case sweep
    then show ?thesis using swept_hooks swept_params[OF sweep(1) assms(1,4)] assms(4,5)
      by (auto simp: untouched_def)
  qed (use same in simp)
qed

section \<open>A privileged hook that was there\<close>

text \<open>The hook is still the same, and no key holds a verb on it that it did not hold.\<close>

definition intact :: "hook \<Rightarrow> database \<Rightarrow> database \<Rightarrow> bool" where
  "intact h db db' \<longleftrightarrow> (\<exists>h'\<in>set (db_hooks db'). untouched h db h' db')
     \<and> (\<forall>verb\<in>verbs. \<forall>k. holds verb db' k (hk_id h) \<longrightarrow> holds verb db k (hk_id h))"

text \<open>The sweep finds the hook in the trash and removes it.\<close>

definition empties :: "uuid \<Rightarrow> event \<Rightarrow> database \<times> auth_state \<Rightarrow> bool" where
  "empties i e s \<longleftrightarrow> is_sweep e \<and> (\<exists>h\<in>set (db_hooks (fst s)). hk_id h = i \<and> hk_is_deleted h)
     \<and> \<not> hook_exists i (fst (react e s))"

fun emptied :: "uuid \<Rightarrow> event list \<Rightarrow> database \<times> auth_state \<Rightarrow> bool" where
  "emptied i [] s = False"
| "emptied i (e # es) s = (empties i e s \<or> emptied i es (react e s))"

lemma intact_frame:
  "h \<in> set (db_hooks db) \<Longrightarrow> db_hooks db' = db_hooks db \<Longrightarrow> db_params db' = db_params db \<Longrightarrow> db_perms db' = db_perms db
     \<Longrightarrow> intact h db db'"
  by (auto simp: intact_def untouched_def holds_def)

lemma intact_trans:
  assumes "intact h db d" and "\<And>h1. h1 \<in> set (db_hooks d) \<Longrightarrow> untouched h db h1 d \<Longrightarrow> intact h1 d db'"
  shows "intact h db db'"
proof -
  from assms(1) obtain h1 where h1: "h1 \<in> set (db_hooks d)" "untouched h db h1 d" by (auto simp: intact_def)
  with assms(2) have "intact h1 d db'" by blast
  with assms(1) h1(2) show ?thesis
    unfolding intact_def using untouched_trans by (metis untouched_def)
qed

lemma writes_intact:
  assumes "writes c db db db'" and "wf_db db" and "\<not> ak_is_master c" and "h \<in> set (db_hooks db)" and "privileged h"
  shows "intact h db db'"
  using writes_privileged[OF assms] by (auto simp: intact_def untouched_def)

lemma swept_intact:
  assumes "swept db db'" and "wf_db db" and "h \<in> set (db_hooks db)"
  shows "intact h db db' \<or> (hk_is_deleted h \<and> \<not> hook_exists (hk_id h) db')"
proof -
  from assms(1) obtain P Q where P: "\<forall>h. P h \<longrightarrow> hk_is_deleted h"
    and db': "db' = snd (delete_hooks P (snd (delete_execs Q db)))" by (auto simp: swept_def)
  show ?thesis
  proof (cases "P h")
    case True
    then have "\<not> hook_exists (hk_id h) db'"
      using hooks.row_unique[OF assms(2) assms(3)] by (auto simp: db' delete_hooks_def hook_exists_def Let_def)
    with P True show ?thesis by blast
  next
    case False
    then have row: "h \<in> set (db_hooks db')" using assms(3) by (simp add: db' delete_hooks_def Let_def)
    have "holds verb db' k i \<longrightarrow> holds verb db k i" for verb k i
      by (auto simp: db' delete_hooks_def delete_execs_def holds_def Let_def)
    with row swept_params[OF assms(1,2) row] show ?thesis by (auto simp: intact_def untouched_def)
  qed
qed

lemma react_intact:
  assumes "wf_db (fst s)" and "well_formed_event e" and "\<not> by_master e s" and h: "h \<in> set (db_hooks (fst s))" "privileged h"
  shows "intact h (fst s) (fst (react e s)) \<or> empties (hk_id h) e s"
  using assms(1,2)
proof (cases rule: react_cases)
  case (served key)
  then show ?thesis using writes_intact[OF served(2) assms(1) _ h] intact_frame[OF h(1)] assms(3) by blast
next
  case (keyless r)
  then show ?thesis using intact_frame[OF h(1)] hook_frames(5) param_frames(5) perm_frames(7) by metis
next
  case sweep
  then show ?thesis using swept_intact[OF sweep(1) assms(1) h(1)] h(1) by (auto simp: empties_def)
next
  case idle
  then show ?thesis using intact_frame[OF h(1)] by simp
qed

lemma untouched_privileged: "untouched h db h1 d \<Longrightarrow> privileged h \<Longrightarrow> privileged h1"
  by (auto simp: untouched_def dest: custody_dispatch)

lemma custody_rest:
  "custody h' = custody h \<Longrightarrow> h' = h\<lparr>hk_owner_key_id := hk_owner_key_id h', hk_is_deleted := hk_is_deleted h',
     hk_deleted_at := hk_deleted_at h', hk_deleted_by := hk_deleted_by h', hk_updated_at := hk_updated_at h'\<rparr>"
  by (cases h; cases h') (simp add: custody_def)

lemma intact_unfolded:
  assumes "intact h db db'"
  shows "(\<exists>h'\<in>set (db_hooks db'). hk_id h' = hk_id h
      \<and> h' = h\<lparr>hk_owner_key_id := hk_owner_key_id h', hk_is_deleted := hk_is_deleted h',
               hk_deleted_at := hk_deleted_at h', hk_deleted_by := hk_deleted_by h',
               hk_updated_at := hk_updated_at h'\<rparr>)
    \<and> filter (\<lambda>p. hp_hook_id p = hk_id h) (db_params db') = filter (\<lambda>p. hp_hook_id p = hk_id h) (db_params db)
    \<and> (\<forall>verb\<in>{pm_can_execute, pm_can_manage, pm_can_view_execution}. \<forall>p'\<in>set (db_perms db').
         pm_hook_id p' = hk_id h \<and> verb p' \<longrightarrow>
         (\<exists>p\<in>set (db_perms db). pm_api_key_id p = pm_api_key_id p' \<and> pm_hook_id p = hk_id h \<and> verb p))"
proof (intro conjI ballI impI)
  from assms obtain h' where h': "h' \<in> set (db_hooks db')" "untouched h db h' db'" by (auto simp: intact_def)
  then show "\<exists>h'\<in>set (db_hooks db'). hk_id h' = hk_id h
      \<and> h' = h\<lparr>hk_owner_key_id := hk_owner_key_id h', hk_is_deleted := hk_is_deleted h',
               hk_deleted_at := hk_deleted_at h', hk_deleted_by := hk_deleted_by h',
               hk_updated_at := hk_updated_at h'\<rparr>"
    by (intro bexI[OF _ h'(1)] conjI custody_rest) (simp_all add: untouched_def)
  from h'(2) show "filter (\<lambda>p. hp_hook_id p = hk_id h) (db_params db') = filter (\<lambda>p. hp_hook_id p = hk_id h) (db_params db)"
    by (simp add: untouched_def)
  fix verb p' assume "verb \<in> {pm_can_execute, pm_can_manage, pm_can_view_execution}" "p' \<in> set (db_perms db')"
    "pm_hook_id p' = hk_id h \<and> verb p'"
  with assms show "\<exists>p\<in>set (db_perms db). pm_api_key_id p = pm_api_key_id p' \<and> pm_hook_id p = hk_id h \<and> verb p"
    unfolding intact_def holds_def verbs_def by blast
qed

end
