(* ===== verification/System_Properties.thy ===== *)
theory System_Properties
  imports System Demo_Data
begin

text \<open>
  The properties of the running daemon, over every history of requests and sweeps, with a small
  deployment for their witnesses: the demo keys, \<open>ci\_key\<close> presented as the header \<open>a\<close>, the hook
  \<open>deploy\<close> that it owns and the privileged hook \<open>backup\<close>.
\<close>

section \<open>A deployment\<close>

definition steward :: api_key where
  "steward = ci_key\<lparr>ak_key_hash := demo_hex_encode ''a''\<rparr>"

definition backup_hook :: hook where
  "backup_hook = deploy_hook\<lparr>hk_id := 11, hk_name := ''backup'', hk_run_as_user := Some ''svc''\<rparr>"

definition site_db :: database where
  "site_db = demo_db\<lparr>db_keys := [root_key, admin_key, steward],
     db_hooks := [deploy_hook\<lparr>hk_owner_key_id := Some 3\<rparr>, backup_hook]\<rparr>"

definition steward_request :: request where
  "steward_request = signed_request\<lparr>rq_headers := [(''x-api-key'', ''a'')]\<rparr>"

text \<open>The steward trashes its hook and the worker sweeps.\<close>

definition site_events :: "event list" where
  "site_events = [AdminRequest demo_env demo_env 0 [] steward_request (DeleteHook ''deploy'' None),
     Sweep demo_externals default_config 0 0]"

definition site :: "database \<times> auth_state" where
  "site = (site_db, demo_auth)"

lemma steward_ids [simp]: "ak_id steward = 3" "\<not> ak_is_master steward" "\<not> ak_can_manage_keys steward"
  "\<not> ak_can_manage_hooks steward" "ak_parent_key_id steward = Some 2" "hk_id backup_hook = 11"
  by (simp_all add: steward_def ci_key_def plain_key_def backup_hook_def)

lemma site_keys [simp]: "db_keys site_db = [root_key, admin_key, steward]"
  "ak_parent_key_id root_key = None" "ak_parent_key_id admin_key = Some 1"
  by (simp_all add: site_db_def demo_keys_def)

lemma site_wf: "wf_db site_db"
  by (simp add: wf_db_def wf_tables_def site_db_def demo_db_def key_exists_def hook_exists_def key_clash_def
      nullable_clash_def master_marker_def demo_keys_def deploy_hook_def backup_hook_def steward_def
      demo_hex_digit_def)

lemma site_forest: "forest site_db"
proof -
  have rel: "parent_rel site_db = {(1, 2), (2, 3)}"
    by (auto simp: parent_rel_iff)
  have "acyclic (parent_rel site_db)"
    unfolding rel by (rule acyclic_subset[OF wf_acyclic[OF wf_measure[of unat]]]) auto
  then show ?thesis
    by (auto simp: forest_def key_exists_def)
qed

lemma steward_authenticates:
  "auth_middleware demo_env 0 [] steward_request site_db demo_auth = (Inr (V4 7, steward), demo_auth)"
proof -
  have headers: "header_str (rq_headers steward_request) API_KEY_HEADER = Some ''a''"
    "header_str (rq_headers steward_request) SIGNATURE_HEADER = None"
    "\<not> contains_key (rq_headers steward_request) SIGNATURE_HEADER"
    by (simp_all add: steward_request_def header_str_def header_get_def contains_key_def)
      (simp add: header_text_def)
  have found: "find_key_by_hash site_db (key_hash_of demo_env ''a'') = Some steward"
    by (simp add: find_key_by_hash_def site_db_def key_hash_of_def demo_keys_def steward_def demo_hex_digit_def)
  have pin: "pin_authenticate site_db steward (Some 1) = (steward, Some 1)"
    by (simp add: pin_authenticate_def)
  have addr: "address_allowed demo_externals steward (V4 7)"
    by (simp add: address_allowed_def bound_networks_def steward_def ci_key_def plain_key_def trim_visible)
  have ip: "resolve_client_ip demo_externals (V4 7) (rq_headers steward_request) [] = V4 7"
    by (simp add: resolve_client_ip_def is_trusted_def)
  have "authenticate_bearer_key demo_env 0 steward_request None ''a'' (V4 7) site_db demo_auth
      = (Inr steward, demo_auth)"
    unfolding bearer_ok
    by (rule exI[where x = steward])
      (use found pin addr headers in \<open>simp add: demo_auth_def signature_required_def default_config_def\<close>)
  then show ?thesis
    using headers ip by (simp add: auth_middleware_def steward_request_def signed_request_def)
qed

lemma site_no_master: "no_master site_events site"
  by (simp add: site_events_def site_def steward_authenticates)

lemma site_well_formed: "\<forall>e\<in>set site_events. well_formed_event e"
  by (simp add: site_events_def)

text \<open>What happens to the two hooks in it.\<close>

lemma site_hooks: "db_hooks site_db = [deploy_hook\<lparr>hk_owner_key_id := Some 3\<rparr>, backup_hook]"
  by (simp add: site_db_def)

lemma hook_flags [simp]: "hk_run_as_user deploy_hook = None" "\<not> hk_is_deleted deploy_hook"
  "hk_name deploy_hook = ''deploy''" "hk_run_as_user backup_hook = Some ''svc''" "\<not> hk_is_deleted backup_hook"
  "hk_name backup_hook = ''backup''"
  by (simp_all add: deploy_hook_def backup_hook_def ban_hook_def)

lemma backup_privileged: "privileged backup_hook"
  by (simp add: privileged_def effective_run_as_user_def trim_visible graphic_def)

lemma site_deploy: "resolve_hook demo_externals site_db ''deploy'' = Inr (deploy_hook\<lparr>hk_owner_key_id := Some 3\<rparr>)"
  by (simp add: resolve_hook_def resolve_hook_including_deleted_def demo_externals_def is_ascii_digit_def
      find_hook_by_name_def site_hooks)

lemma site_trashed:
  "db_hooks (snd (delete_hook demo_env steward ip ''deploy'' None site_db)) =
     [deploy_hook\<lparr>hk_owner_key_id := Some 3, hk_is_deleted := True, hk_deleted_at := Some 0,
        hk_deleted_by := Some (nat_text 3), hk_updated_at := 0\<rparr>, backup_hook]"
  by (simp add: delete_hook_def site_deploy guard_manage_def guard_lifecycle_authority_def
      guard_master_for_privileged_hook_def soft_delete_def site_hooks effective_run_as_user_def demo_env_def)

lemma swept_live: "swept db db' \<Longrightarrow> h \<in> set (db_hooks db) \<Longrightarrow> \<not> hk_is_deleted h
    \<Longrightarrow> retention_tick X cfg now now' db = Some db' \<Longrightarrow> h \<in> set (db_hooks db')"
  by (auto simp: retention_tick_def purge_expired_executions_def purge_expired_deleted_hooks_def
      bind_eq_Some_conv delete_hooks_def delete_execs_def Let_def split: if_splits)

lemma backup_stays: "backup_hook \<in> set (db_hooks (fst (history site_events site)))"
proof -
  let ?s = "react (hd site_events) site"
  have "db_hooks (fst ?s) = db_hooks (snd (delete_hook demo_env steward (V4 7) ''deploy'' None site_db))"
    by (simp add: site_events_def site_def admin_request_def steward_authenticates split_beta)
  then have "backup_hook \<in> set (db_hooks (fst ?s))" by (simp add: site_trashed)
  then show ?thesis
    using swept_live[OF retention_swept] by (auto simp: site_events_def split: option.splits)
qed

lemma site_keys_stay: "db_keys (fst (history site_events site)) = [root_key, admin_key, steward]"
proof -
  have deleted: "db_keys (snd (delete_hook demo_env steward (V4 7) ''deploy'' None site_db)) = db_keys site_db"
    by (simp add: delete_hook_def site_deploy guard_manage_def guard_lifecycle_authority_def
        guard_master_for_privileged_hook_def soft_delete_def site_hooks effective_run_as_user_def demo_env_def)
  then show ?thesis
    using swept_keys[OF retention_swept]
    by (auto simp: site_events_def site_def admin_request_def steward_authenticates split_beta split: option.splits)
qed

section \<open>Along a history\<close>

lemma history_keeps:
  assumes "wf_db (fst s)" and "forest (fst s)" and "\<forall>e\<in>set es. well_formed_event e"
  shows "wf_db (fst (history es s)) \<and> forest (fst (history es s))
    \<and> map frozen (masters (fst (history es s))) = map frozen (masters (fst s))"
  using assms
proof (induction es s rule: history.induct)
  case (2 e es s)
  from "2.prems" have "wf_db (fst (react e s)) \<and> forest (fst (react e s))" by (intro react_sound) auto
  moreover have "map frozen (masters (fst (react e s))) = map frozen (masters (fst s))"
    using react_masters[OF "2.prems"(1,2)] "2.prems"(3) by simp
  ultimately show ?case using "2.IH" "2.prems"(3) by simp
qed simp

text \<open>
  C1. The constraints of the schema hold, and the keys form a forest under the master, in every
  database that a history of requests and sweeps reaches.
\<close>

theorem history_keeps_constraints:
  assumes "wf_db (fst s)" and "forest (fst s)" and "\<forall>e\<in>set es. well_formed_event e"
  shows "wf_db (fst (history es s)) \<and> forest (fst (history es s))"
  using history_keeps[OF assms] by blast

theorem history_keeps_constraints_witness:
  "wf_db (fst (history site_events site)) \<and> forest (fst (history site_events site))"
  by (rule history_keeps_constraints) (simp_all add: site_def site_wf site_forest site_well_formed)

text \<open>
  The master row is frozen: over every history of requests, of any callers, there is no new master,
  none is lost, and nothing of the master's row changes but its address binding and the time of its
  last change; a history without a request of the master changes nothing of it at all.
\<close>

theorem master_row_is_frozen:
  assumes "wf_db (fst s)" and "forest (fst s)" and "\<forall>e\<in>set es. well_formed_event e"
  shows "map frozen (masters (fst (history es s))) = map frozen (masters (fst s))
    \<and> (no_master es s \<longrightarrow> masters (fst (history es s)) = masters (fst s))"
proof
  show "map frozen (masters (fst (history es s))) = map frozen (masters (fst s))"
    using history_keeps[OF assms] by blast
  show "no_master es s \<longrightarrow> masters (fst (history es s)) = masters (fst s)"
    using assms
  proof (induction es s rule: history.induct)
    case (2 e es s)
    from "2.prems" have "wf_db (fst (react e s)) \<and> forest (fst (react e s))" by (intro react_sound) auto
    then show ?case using "2.IH" "2.prems" react_masters[OF "2.prems"(1,2), of e] by simp
  qed simp
qed

theorem master_row_is_frozen_witness:
  "masters (fst (history site_events site)) = [root_key]"
proof -
  have "masters site_db = [root_key]" by (simp add: masters_def site_db_def)
  then show ?thesis
    using master_row_is_frozen[of site site_events] site_no_master
    by (simp add: site_def site_wf site_forest site_well_formed)
qed

text \<open>
  C5. Without the master no key gains a global scope: over every history in which no request
  authenticates as the master, whoever may manage keys, or create hooks, at the end could at the start.
\<close>

theorem scopes_come_from_the_master:
  assumes "wf_db (fst s)" and "forest (fst s)" and "\<forall>e\<in>set es. well_formed_event e" and "no_master es s"
    and "k' \<in> set (db_keys (fst (history es s)))"
  shows "(ak_can_manage_keys k' \<longrightarrow> (\<exists>k\<in>set (db_keys (fst s)). ak_id k = ak_id k' \<and> ak_can_manage_keys k))
    \<and> (ak_can_manage_hooks k' \<longrightarrow> (\<exists>k\<in>set (db_keys (fst s)). ak_id k = ak_id k' \<and> ak_can_manage_hooks k))"
  using assms
proof (induction es s arbitrary: k' rule: history.induct)
  case (2 e es s)
  from "2.prems" have "wf_db (fst (react e s)) \<and> forest (fst (react e s))" by (intro react_sound) auto
  then have "(ak_can_manage_keys k' \<longrightarrow>
        (\<exists>k\<in>set (db_keys (fst (react e s))). ak_id k = ak_id k' \<and> ak_can_manage_keys k))
    \<and> (ak_can_manage_hooks k' \<longrightarrow>
        (\<exists>k\<in>set (db_keys (fst (react e s))). ak_id k = ak_id k' \<and> ak_can_manage_hooks k))"
    using "2.IH"[of k'] "2.prems"(3-5) by simp
  then show ?case using react_scopes[OF "2.prems"(1), of e] "2.prems"(3,4) by fastforce
qed auto

theorem scopes_come_from_the_master_witness:
  "admin_key \<in> set (db_keys (fst (history site_events site)))
   \<and> (\<exists>k\<in>set (db_keys site_db). ak_id k = 2 \<and> ak_can_manage_keys k)"
proof -
  have kept: "admin_key \<in> set (db_keys (fst (history site_events site)))" by (simp add: site_keys_stay)
  have db: "fst site = site_db" by (simp add: site_def)
  have admin: "ak_can_manage_keys admin_key" "ak_id admin_key = 2" by simp_all
  have "ak_can_manage_keys admin_key \<longrightarrow> (\<exists>k\<in>set (db_keys (fst site)). ak_id k = ak_id admin_key \<and> ak_can_manage_keys k)"
    by (rule conjunct1, rule scopes_come_from_the_master[OF _ _ site_well_formed site_no_master kept])
      (simp_all only: db site_wf site_forest)
  then show ?thesis unfolding db admin(2) using admin(1) kept by blast
qed

lemma history_privileged:
  assumes "wf_db (fst s)" and "forest (fst s)" and "\<forall>e\<in>set es. well_formed_event e" and "no_master es s"
    and "h' \<in> set (db_hooks (fst (history es s)))" and "privileged h'"
  shows "\<exists>h\<in>set (db_hooks (fst s)). privileged h \<and> untouched h (fst s) h' (fst (history es s))"
  using assms
proof (induction es s arbitrary: h' rule: history.induct)
  case (1 s)
  then show ?case using untouched_refl by auto
next
  case (2 e es s)
  from "2.prems" have "wf_db (fst (react e s)) \<and> forest (fst (react e s))" by (intro react_sound) auto
  then obtain h1 where h1: "h1 \<in> set (db_hooks (fst (react e s)))" "privileged h1"
      "untouched h1 (fst (react e s)) h' (fst (history es (react e s)))"
    using "2.IH"[of h'] "2.prems"(3-6) by auto
  moreover obtain h where "h \<in> set (db_hooks (fst s))" "privileged h"
      "untouched h (fst s) h1 (fst (react e s))"
    using react_privileged[OF "2.prems"(1) _ _ h1(1,2)] "2.prems"(3,4) by auto
  ultimately show ?case by (auto intro: untouched_trans)
qed

lemma history_intact:
  assumes "wf_db (fst s)" and "forest (fst s)" and "\<forall>e\<in>set es. well_formed_event e" and "no_master es s"
    and "h \<in> set (db_hooks (fst s))" and "privileged h"
  shows "emptied (hk_id h) es s \<or> intact h (fst s) (fst (history es s))"
  using assms
proof (induction es s arbitrary: h rule: history.induct)
  case (1 s)
  then show ?case by (simp add: intact_frame)
next
  case (2 e es s)
  let ?d = "fst (react e s)"
  have sound: "wf_db ?d" "forest ?d" using react_sound[OF "2.prems"(1,2)] "2.prems"(3) by auto
  have rest: "emptied (hk_id h1) es (react e s) \<or> intact h1 ?d (fst (history es (react e s)))"
    if "h1 \<in> set (db_hooks ?d)" "privileged h1" for h1
    using "2.IH"[OF sound _ _ that] "2.prems"(3,4) by simp
  consider "empties (hk_id h) e s" | "intact h (fst s) ?d"
    using react_intact[OF "2.prems"(1) _ _ "2.prems"(5,6)] "2.prems"(3,4) by auto
  then show ?case
  proof cases
    case 2
    show ?thesis
    proof (cases "emptied (hk_id h) es (react e s)")
      case False
      have "intact h (fst s) (fst (history es (react e s)))"
        using rest untouched_privileged "2.prems"(6) False
        by (intro intact_trans[OF \<open>intact h (fst s) ?d\<close>]) (metis untouched_def)
      then show ?thesis by simp
    qed simp
  qed simp
qed

text \<open>
  C6. Without the master a privileged hook is what it was, and nothing becomes one.  Over every history in which
  no request authenticates as the master, a hook that runs under another account at the start is either removed
  by a sweep that found it in the trash, or it is still there with the same account, script, template and
  settings, the same parameters, and no key may execute, manage or view it that could not before (keys can only
  lose verbs); its owner, its trash marks and the time of its last change are all that can differ.  And a hook
  that runs under another account at the end was such a hook at the start.
\<close>

theorem privileged_hooks_need_the_master:
  assumes "wf_db (fst s)" and "forest (fst s)" and "\<forall>e\<in>set es. well_formed_event e" and "no_master es s"
    and "db' = fst (history es s)"
  shows "(\<forall>h\<in>set (db_hooks (fst s)). privileged h \<and> \<not> emptied (hk_id h) es s \<longrightarrow>
      (\<exists>h'\<in>set (db_hooks db'). hk_id h' = hk_id h
         \<and> h' = h\<lparr>hk_owner_key_id := hk_owner_key_id h', hk_is_deleted := hk_is_deleted h',
                  hk_deleted_at := hk_deleted_at h', hk_deleted_by := hk_deleted_by h',
                  hk_updated_at := hk_updated_at h'\<rparr>)
      \<and> filter (\<lambda>p. hp_hook_id p = hk_id h) (db_params db') = filter (\<lambda>p. hp_hook_id p = hk_id h) (db_params (fst s))
      \<and> (\<forall>verb\<in>{pm_can_execute, pm_can_manage, pm_can_view_execution}. \<forall>p'\<in>set (db_perms db').
           pm_hook_id p' = hk_id h \<and> verb p' \<longrightarrow>
           (\<exists>p\<in>set (db_perms (fst s)). pm_api_key_id p = pm_api_key_id p' \<and> pm_hook_id p = hk_id h \<and> verb p)))
   \<and> (\<forall>h'\<in>set (db_hooks db'). privileged h' \<longrightarrow> (\<exists>h\<in>set (db_hooks (fst s)). privileged h \<and> untouched h (fst s) h' db'))"
  unfolding assms(5)
  by (intro conjI[of "\<forall>h\<in>set (db_hooks (fst s)). _ h"] ballI impI intact_unfolded)
    (use history_intact[OF assms(1-4)] history_privileged[OF assms(1-4)] in blast)+

theorem privileged_hooks_need_the_master_witness:
  "privileged backup_hook \<and> \<not> emptied 11 site_events site
   \<and> (\<exists>h'\<in>set (db_hooks (fst (history site_events site))). hk_id h' = 11 \<and> hk_run_as_user h' = Some ''svc'')"
proof -
  have "11 \<in> hk_id ` set (db_hooks (fst (history site_events site)))" using backup_stays by (metis image_eqI steward_ids(6))
  then have live: "\<not> emptied 11 site_events site" by (auto simp: empties_def hook_exists_def site_events_def)
  have row: "backup_hook \<in> set (db_hooks (fst site))" by (simp add: site_def site_db_def)
  have start: "wf_db (fst site)" "forest (fst site)" by (simp_all add: site_def site_wf site_forest)
  have settled: "privileged backup_hook \<and> \<not> emptied (hk_id backup_hook) site_events site"
    using backup_privileged live by simp
  from mp[OF bspec[OF conjunct1[OF privileged_hooks_need_the_master[OF start site_well_formed site_no_master refl]] row] settled]
  obtain h' where h': "h' \<in> set (db_hooks (fst (history site_events site)))" "hk_id h' = hk_id backup_hook"
    "h' = backup_hook\<lparr>hk_owner_key_id := hk_owner_key_id h', hk_is_deleted := hk_is_deleted h',
       hk_deleted_at := hk_deleted_at h', hk_deleted_by := hk_deleted_by h', hk_updated_at := hk_updated_at h'\<rparr>"
    by blast
  have "hk_run_as_user h' = hk_run_as_user backup_hook" by (subst h'(3)) simp
  with h'(1,2) backup_privileged live show ?thesis by (intro conjI bexI[of _ h']) simp_all
qed

end
