(* ===== verification/Failures.thy ===== *)
theory Failures
  imports System
begin

text \<open>
  A call that fails leaves the database as it was.  A handler makes its writes one after the other
  without a transaction, so this rests on what can still fail after the first of them: with fresh
  identifiers and a stored caller the audit entry cannot, nor the lookups that follow it.  The one
  exception is a hook created with a parameter declared twice.
\<close>

section \<open>Staying and succeeding\<close>

definition stays :: "database \<Rightarrow> 'a result \<times> database \<Rightarrow> bool" where
  "stays db m \<longleftrightarrow> (\<exists>x. fst m = Inr x) \<or> snd m = db"

definition succeeds :: "'a result \<times> database \<Rightarrow> bool" where
  "succeeds m \<longleftrightarrow> (\<exists>x. fst m = Inr x)"

lemma succeeds_stays: "succeeds m \<Longrightarrow> stays db m"
  by (simp add: stays_def succeeds_def)

lemma stays_refused [intro!]: "stays db (r, db)"
  by (simp add: stays_def)

lemma stays_attempt: "(\<And>x. r = Inr x \<Longrightarrow> stays db (k x)) \<Longrightarrow> stays db (attempt r db k)"
  by (cases r) (auto simp: stays_def)

lemma stays_commit: "(\<And>d. w db = Inr d \<Longrightarrow> succeeds (k d)) \<Longrightarrow> stays db (commit w db k)"
  by (auto simp: commit_def stays_def succeeds_def split: sum.splits)

lemma stays_if: "(b \<Longrightarrow> stays db m) \<Longrightarrow> (\<not> b \<Longrightarrow> stays db m') \<Longrightarrow> stays db (if b then m else m')"
  by simp

lemma stays_tuple: "(\<And>a b. t = (a, b) \<Longrightarrow> stays db (f a b)) \<Longrightarrow> stays db (case t of (a, b) \<Rightarrow> f a b)"
  by (cases t) simp

lemma stays_insert:
  "(\<And>d. r = Inr d \<Longrightarrow> succeeds (f d)) \<Longrightarrow>
     stays db (case r of Inl e \<Rightarrow> (case e of UniqueConstraintViolation \<Rightarrow> (x, db)
         | ForeignKeyViolation \<Rightarrow> (y, db) | RecordNotUpdated \<Rightarrow> (z, db)) | Inr d \<Rightarrow> f d)"
  by (auto simp: stays_def succeeds_def split: sum.split db_err.split)

lemmas stays_intros = stays_attempt stays_commit stays_if stays_tuple stays_insert stays_refused

lemma succeeds_pair [intro!]: "succeeds (Inr x, db)"
  by (simp add: succeeds_def)

lemma succeeds_and_then:
  "succeeds m \<Longrightarrow> (\<And>x s. m = (Inr x, s) \<Longrightarrow> succeeds (k x s)) \<Longrightarrow> succeeds (and_then m k)"
  by (cases m; cases "fst m") (auto simp: succeeds_def)

lemma succeeds_attempt: "r = Inr x \<Longrightarrow> succeeds (k x) \<Longrightarrow> succeeds (attempt r db k)"
  by simp

lemma found_succeeds: "x \<noteq> None \<Longrightarrow> succeeds (attempt (ok_or x e) d (\<lambda>y. (Inr (f y), d)))"
  by (auto simp: ok_or_def)

section \<open>The audit entry\<close>

text \<open>The first \<open>n\<close> identifiers drawn in a request: new, and all different.\<close>

definition fresh_ids :: "nat \<Rightarrow> env \<Rightarrow> database \<Rightarrow> bool" where
  "fresh_ids n E db \<longleftrightarrow> inj_on (ev_uuid E) {..<n} \<and> (\<forall>j<n. ev_uuid E j \<notin> ak_id ` set (db_keys db)
     \<and> ev_uuid E j \<notin> hk_id ` set (db_hooks db) \<and> ev_uuid E j \<notin> hp_id ` set (db_params db)
     \<and> ev_uuid E j \<notin> pm_id ` set (db_perms db) \<and> ev_uuid E j \<notin> al_id ` set (db_audit db))"

definition can_log :: "env \<Rightarrow> api_key \<Rightarrow> database \<Rightarrow> bool" where
  "can_log E key d \<longleftrightarrow> key_exists (ak_id key) d \<and> ev_uuid E 1 \<notin> al_id ` set (db_audit d)"

lemma audit_succeeds: "can_log E key d \<Longrightarrow> succeeds (create_audit_log E 1 key ip a t details d)"
  by (auto simp: can_log_def create_audit_log_def commit_def succeeds_def insert_audit_def list_ex_iff
      nullable_fk_ok_def key_exists_def split: sum.splits) (metis image_eqI)+

lemmas audit_can_succeed = audit_succeeds audit_succeeds[unfolded One_nat_def]

lemma audit_succeeds_with:
  assumes "can_log E key d" and "\<And>s. db_keys s = db_keys d \<Longrightarrow> db_hooks s = db_hooks d \<Longrightarrow>
    db_params s = db_params d \<Longrightarrow> succeeds (k () s)"
  shows "succeeds (and_then (create_audit_log E 1 key ip a t details d) k)"
proof (rule succeeds_and_then[OF audit_succeeds[OF assms(1)]])
  fix x s assume "create_audit_log E 1 key ip a t details d = (Inr x, s)"
  then have "s = snd (create_audit_log E 1 key ip a t details d)" by simp
  then show "succeeds (k x s)" using assms(2)[of s] by simp
qed

lemma audit_frames:
  "insert_key k d = Inr d' \<Longrightarrow> db_audit d' = db_audit d" "update_key k d = Inr d' \<Longrightarrow> db_audit d' = db_audit d"
  "insert_hook h d = Inr d' \<Longrightarrow> db_audit d' = db_audit d"
  "update_hook_row h d = Inr d' \<Longrightarrow> db_audit d' = db_audit d"
  "insert_param p d = Inr d' \<Longrightarrow> db_audit d' = db_audit d"
  "update_param p d = Inr d' \<Longrightarrow> db_audit d' = db_audit d"
  "upsert_perm upd m d = Inr d' \<Longrightarrow> db_audit d' = db_audit d"
  by (auto dest!: write_shapes upsert_perm_shape)

lemma can_log_frame: "can_log E key d \<Longrightarrow> db_keys d' = db_keys d \<Longrightarrow> db_audit d' = db_audit d \<Longrightarrow> can_log E key d'"
  by (simp add: can_log_def key_exists_def)

lemma can_log_insert_key: "can_log E key d \<Longrightarrow> insert_key k d = Inr d' \<Longrightarrow> can_log E key d'"
  using insert_key_rows[of k d d'] audit_frames(1)[of k d d'] by (auto simp: can_log_def key_exists_def)

lemma can_log_update_key: "can_log E key d \<Longrightarrow> update_key k d = Inr d' \<Longrightarrow> can_log E key d'"
proof -
  assume log: "can_log E key d" and upd: "update_key k d = Inr d'"
  have "map ak_id (db_keys d') = map ak_id (db_keys d)" using update_key_rows[OF upd] by simp
  then have "ak_id ` set (db_keys d') = ak_id ` set (db_keys d)" by (metis set_map)
  with log audit_frames(2)[OF upd] show "can_log E key d'" by (simp add: can_log_def key_exists_def)
qed

lemma can_log_writes:
  assumes "can_log E key d"
  shows "insert_hook h d = Inr d' \<Longrightarrow> can_log E key d'" "update_hook_row h d = Inr d' \<Longrightarrow> can_log E key d'"
    "insert_param p d = Inr d' \<Longrightarrow> can_log E key d'" "update_param p d = Inr d' \<Longrightarrow> can_log E key d'"
    "upsert_perm upd m d = Inr d' \<Longrightarrow> can_log E key d'"
  by (rule can_log_frame[OF assms], (erule key_frames audit_frames)+)+

lemma can_log_deletes:
  assumes "can_log E key d"
  shows "delete_hooks P d = (n, d') \<Longrightarrow> can_log E key d'" "delete_execs Q d = (n, d') \<Longrightarrow> can_log E key d'"
    "delete_perms k h d = (n, d') \<Longrightarrow> can_log E key d'" "soft_delete i now by1 d = (n, d') \<Longrightarrow> can_log E key d'"
    "can_log E key (delete_param j d)"
  by (rule can_log_frame[OF assms]; auto simp: delete_shapes soft_delete_def Let_def)+

lemmas can_log_steps = can_log_insert_key can_log_update_key can_log_writes can_log_deletes

section \<open>The key endpoints\<close>

lemma create_api_key_stays: "can_log E key db \<Longrightarrow> stays db (create_api_key E key ip p db)"
  unfolding create_api_key_def Let_def
  by (intro stays_intros succeeds_and_then succeeds_pair) (auto intro: audit_can_succeed can_log_insert_key)

lemma update_api_key_stays: "can_log E key db \<Longrightarrow> stays db (update_api_key E key ip i p db)"
  unfolding update_api_key_def Let_def
  by (intro stays_intros succeeds_and_then succeeds_pair audit_succeeds) (erule can_log_update_key)

lemma rotate_api_key_stays: "can_log E key db \<Longrightarrow> stays db (rotate_api_key E key ip i db)"
  unfolding rotate_api_key_def Let_def
  by (intro stays_intros succeeds_and_then succeeds_pair audit_succeeds) (erule can_log_update_key)

lemma regenerate_key_stays: "can_log E key db \<Longrightarrow> stays db (regenerate_key E key ip i db)"
  unfolding regenerate_key_def Let_def
  by (intro stays_intros succeeds_and_then succeeds_pair audit_succeeds) (erule can_log_update_key)

lemma regenerate_secret_stays: "can_log E key db \<Longrightarrow> stays db (regenerate_secret E key ip i db)"
  unfolding regenerate_secret_def Let_def
  by (intro stays_intros succeeds_and_then succeeds_pair audit_succeeds) (erule can_log_update_key)

lemma update_key_hook_permissions_stays:
  "can_log E key db \<Longrightarrow> stays db (update_key_hook_permissions E key ip i p db)"
  unfolding update_key_hook_permissions_def Let_def
  by (intro stays_intros audit_succeeds) (erule can_log_writes)

lemma stays_rows:
  assumes "fst t = 0 \<Longrightarrow> snd t = db" and "\<And>n d. t = (n, d) \<Longrightarrow> n \<noteq> 0 \<Longrightarrow> succeeds (f d)"
  shows "stays db (case t of (n, d) \<Rightarrow> attempt (require (n \<noteq> 0) e) d (\<lambda>_. f d))"
  using assms by (cases t) (auto simp: require_def stays_def succeeds_def)

lemma no_rows:
  "fst (delete_perms k h db) = 0 \<Longrightarrow> snd (delete_perms k h db) = db"
  "fst (delete_hooks P db) = 0 \<Longrightarrow> snd (delete_hooks P db) = db"
  "fst (soft_delete i now by1 db) = 0 \<Longrightarrow> snd (soft_delete i now by1 db) = db"
  by (auto simp: delete_shapes soft_delete_def Let_def filter_empty_conv filter_id_conv map_idI
      intro!: database.equality map_idI)

lemma revoke_key_hook_permission_stays:
  assumes "wf_db db" and "can_log E key db"
  shows "stays db (revoke_key_hook_permission E key ip i identifier db)"
proof -
  have found: "\<exists>k. ok_or (find_key d i) NotFound = Inr k" if "delete_perms i h db = (n, d)" and "n \<noteq> 0" for h n d
  proof -
    from that have "filter (\<lambda>p. pm_api_key_id p = i \<and> pm_hook_id p = h) (db_perms db) \<noteq> []"
      by (auto simp: delete_perms_def)
    then obtain p where "p \<in> set (db_perms db)" "pm_api_key_id p = i" by (auto simp: filter_empty_conv)
    with assms(1) have "key_exists i db" by (auto simp: wf_db_def wf_perms_def)
    moreover have "db_keys d = db_keys db" using that(1) by (auto simp: delete_perms_def)
    ultimately have "find_key d i \<noteq> None" by (auto simp: find_key_def find_None_iff key_exists_def)
    then show ?thesis by (auto simp: ok_or_def)
  qed
  have "succeeds (attempt (ok_or (find_key d i) NotFound) d (\<lambda>k. create_audit_log E 1 key ip a t (g k) d))"
    if "delete_perms i h db = (n, d)" and "n \<noteq> 0" for h n d a t g
    using found[OF that] audit_succeeds[OF can_log_deletes(3)[OF assms(2) that(1)]] by auto
  then show ?thesis
    unfolding revoke_key_hook_permission_def Let_def
    by (intro stays_rows no_rows stays_intros) auto
qed

lemmas key_handler_stays = create_api_key_stays update_api_key_stays rotate_api_key_stays regenerate_key_stays
  regenerate_secret_stays update_key_hook_permissions_stays revoke_key_hook_permission_stays

section \<open>The hook endpoints\<close>

lemma update_hook_stays: "can_log E key db \<Longrightarrow> stays db (update_hook E key ip h p db)"
  unfolding update_hook_def Let_def
  by (intro stays_intros succeeds_and_then succeeds_pair audit_succeeds) (erule can_log_writes)

lemma delete_hook_stays: "can_log E key db \<Longrightarrow> stays db (delete_hook E key ip h hard db)"
  unfolding delete_hook_def Let_def
  by (intro stays_rows no_rows stays_intros audit_succeeds) (assumption | erule can_log_deletes, assumption)+

lemma restore_hook_stays:
  assumes "can_log E key db"
  shows "stays db (restore_hook E key ip h db)"
proof -
  have restored: "succeeds (and_then (create_audit_log E 1 key ip a t dt d) (\<lambda>_ d. attempt (ok_or (find_hook d (hk_id m)) Internal) d (\<lambda>x. (Inr (g d x), d))))"
    if upd: "update_hook_row (m\<lparr>hk_is_deleted := False, hk_deleted_at := None, hk_deleted_by := None, hk_updated_at := now\<rparr>) db = Inr d"
    for m now d a t dt and g :: "database \<Rightarrow> hook \<Rightarrow> hook_detail"
  proof (rule audit_succeeds_with[OF can_log_writes(2)[OF assms upd]])
    fix s :: database assume "db_hooks s = db_hooks d"
    moreover have "hk_id m \<in> hk_id ` set (db_hooks d)"
      by (rule image_eqI[where x = "m\<lparr>hk_is_deleted := False, hk_deleted_at := None, hk_deleted_by := None,
        hk_updated_at := now\<rparr>"]) (simp_all add: hooks.set_after_update[OF upd])
    ultimately have "find_hook s (hk_id m) \<noteq> None" by (auto simp: find_hook_def find_None_iff)
    then show "succeeds (attempt (ok_or (find_hook s (hk_id m)) Internal) s (\<lambda>x. (Inr (g s x), s)))"
      by (rule found_succeeds)
  qed
  show ?thesis unfolding restore_hook_def Let_def by (intro stays_intros) (rule restored)
qed

lemma create_hook_parameter_stays:
  assumes "can_log E key db"
  shows "stays db (create_hook_parameter E key ip h p db)"
proof -
  have "succeeds (and_then (create_audit_log E 1 key ip a t dt d) (\<lambda>_ d. attempt (ok_or (find_param d (hp_id r)) Internal) d (\<lambda>x. (Inr x, d))))"
    if ins: "insert_param r db = Inr d" for r d a t dt
  proof (rule audit_succeeds_with[OF can_log_writes(3)[OF assms ins]])
    fix s :: database assume "db_params s = db_params d"
    then have "find_param s (hp_id r) \<noteq> None"
      using insert_param_rows[OF ins] by (auto simp: find_param_def find_None_iff)
    then show "succeeds (attempt (ok_or (find_param s (hp_id r)) Internal) s (\<lambda>x. (Inr x, s)))"
      by (rule found_succeeds)
  qed
  from this[where r = "\<lparr>hp_id = ev_uuid E 0, hp_hook_id = i, hp_param_key = k, hp_description = dsc,
      hp_default_value = dft, hp_is_required = rq, hp_created_at = now\<rparr>" for i k dsc dft rq now]
  show ?thesis unfolding create_hook_parameter_def Let_def by (intro stays_intros) simp
qed

lemma update_hook_parameter_stays: "can_log E key db \<Longrightarrow> stays db (update_hook_parameter E key ip h i p db)"
  unfolding update_hook_parameter_def Let_def
  by (intro stays_intros succeeds_and_then succeeds_pair audit_succeeds) (erule can_log_writes)

lemma delete_hook_parameter_stays: "can_log E key db \<Longrightarrow> stays db (delete_hook_parameter E key ip h i db)"
  unfolding delete_hook_parameter_def
  by (intro stays_attempt succeeds_stays audit_succeeds) (erule can_log_deletes)

lemma delete_execution_stays: "can_log E key db \<Longrightarrow> stays db (delete_execution E key ip i db)"
  unfolding delete_execution_def Let_def
  by (intro stays_attempt stays_tuple succeeds_stays audit_succeeds) (erule can_log_deletes)

lemma purge_stays:
  assumes "map_option (\<lambda>(n, d). and_then (create_audit_log E 1 key ip action t (f n) d) (\<lambda>_ d. (Inr (g n), d))) m
      = Some r" and "\<And>n d. m = Some (n, d) \<Longrightarrow> can_log E key d"
  shows "stays db r"
  using assms by (auto intro!: succeeds_stays succeeds_and_then audit_can_succeed)

lemma can_log_purged:
  assumes "can_log E key db"
  shows "can_log E key (snd (delete_hooks P db))" "can_log E key (snd (delete_execs Q db))"
  using can_log_deletes(1,2)[OF assms] by (metis prod.collapse)+

lemma purge_deleted_hooks_stays:
  assumes "can_log E key db" and "purge_deleted_hooks E key ip age db = Some r"
  shows "stays db r"
proof (cases "ak_is_master key \<and> \<not> unwrap_or age (cf_deleted_hook_retention_days (ev_config E)) < 0")
  case True
  then show ?thesis using assms unfolding purge_deleted_hooks_def Let_def
    by (simp only: not_True_eq_False if_False) (erule purge_stays, auto dest!: purge_hooks_shape intro: can_log_purged)
qed (use assms in \<open>auto simp: purge_deleted_hooks_def Let_def split: if_splits\<close>)

lemma purge_executions_stays:
  assumes "can_log E key db" and "purge_executions E key ip age db = Some r"
  shows "stays db r"
proof (cases "ak_is_master key \<and> \<not> unwrap_or age (cf_log_retention_days (ev_config E)) < 0")
  case True
  then show ?thesis using assms unfolding purge_executions_def Let_def
    by (simp only: not_True_eq_False if_False) (erule purge_stays, auto dest!: purge_executions_shape intro: can_log_purged)
qed (use assms in \<open>auto simp: purge_executions_def Let_def split: if_splits\<close>)

section \<open>Creating a hook\<close>

text \<open>The tables that declaring parameters leaves alone.\<close>

definition params_only :: "database \<Rightarrow> database \<Rightarrow> bool" where
  "params_only d d' \<longleftrightarrow> (\<exists>ps. d' = d\<lparr>db_params := ps\<rparr>)"

lemma insert_declared_succeeds:
  assumes "inj_on (ev_uuid E) {n..<n + length declared}"
    and "\<forall>j\<in>{n..<n + length declared}. ev_uuid E j \<notin> hp_id ` set (db_params d)"
    and "distinct (map pi_param_key declared)"
    and "\<forall>q\<in>set (db_params d). hp_hook_id q = i \<longrightarrow> hp_param_key q \<notin> pi_param_key ` set declared"
    and "hook_exists i d"
  shows "\<exists>d'. insert_declared E n i declared d = (Inr (), d') \<and> params_only d d'"
  using assms
proof (induction declared arbitrary: n d)
  case Nil
  then show ?case by (auto simp: params_only_def intro: exI[of _ "db_params d"])
next
  case (Cons param declared)
  let ?r = "\<lparr>hp_id = ev_uuid E n, hp_hook_id = i, hp_param_key = pi_param_key param,
      hp_description = pi_description param, hp_default_value = pi_default_value param,
      hp_is_required = unwrap_or (pi_is_required param) True, hp_created_at = ev_now E n\<rparr>"
  let ?d = "d\<lparr>db_params := db_params d @ [?r]\<rparr>"
  have "hp_id q \<noteq> ev_uuid E n" if "q \<in> set (db_params d)" for q
    using Cons.prems(2) that by force
  with Cons.prems have "insert_param ?r d = Inr ?d"
    by (auto simp: insert_param_def list_ex_iff hook_exists_def)
  moreover have "\<exists>d'. insert_declared E (Suc n) i declared ?d = (Inr (), d') \<and> params_only ?d d'"
  proof (intro Cons.IH ballI)
    fix j assume j: "j \<in> {Suc n..<Suc n + length declared}"
    then have "ev_uuid E j \<noteq> ev_uuid E n" using inj_onD[OF Cons.prems(1), of j n] by auto
    with j Cons.prems(2) show "ev_uuid E j \<notin> hp_id ` set (db_params ?d)" by auto
  qed (use Cons.prems in \<open>auto simp: hook_exists_def intro: inj_on_subset\<close>)
  ultimately show ?case by (auto simp: params_only_def)
qed

lemma grant_succeeds:
  assumes "key_exists k d" and "hook_exists i d" and "ev_uuid E n \<notin> pm_id ` set (db_perms d)"
  shows "\<exists>ms. grant_full_hook_permission E n k i d = (Inr (), d\<lparr>db_perms := ms\<rparr>)"
proof -
  have "pm_id q \<noteq> ev_uuid E n" if "q \<in> set (db_perms d)" for q using assms(3) that by (metis image_eqI)
  then show ?thesis using assms(1,2)
    by (auto simp: grant_full_hook_permission_def commit_def upsert_perm_def list_ex_iff key_exists_iff hook_exists_iff)
qed

lemma create_hook_stays:
  assumes "wf_db db" and "fresh_ids (3 + length (unwrap_or (chp_parameters p) [])) E db" and "can_log E key db"
    and "distinct (map pi_param_key (unwrap_or (chp_parameters p) []))"
  shows "stays db (create_hook E key ip p db)"
proof -
  have "succeeds (and_then (insert_declared E 3 (hk_id model) (unwrap_or (chp_parameters p) []) d) (\<lambda>_ d.
      and_then (grant_full_hook_permission E 2 (ak_id key) (hk_id model) d) (\<lambda>_ d.
      and_then (create_audit_log E 1 key ip a t dt d) (\<lambda>_ d.
      attempt (ok_or (find_hook d (hk_id model)) Internal) d (\<lambda>created. (Inr (g d created), d))))))"
    if ins: "insert_hook model db = Inr d" and model: "hk_id model = ev_uuid E 0"
    for model d a t dt and g :: "database \<Rightarrow> hook \<Rightarrow> hook_detail"
  proof -
    have d: "d = db\<lparr>db_hooks := db_hooks db @ [model]\<rparr>" using insert_hook_shape[OF ins] .
    have "hp_hook_id q \<noteq> hk_id model" if "q \<in> set (db_params db)" for q
      using assms(1,2) that model unfolding wf_db_def wf_params_def hook_exists_def fresh_ids_def
      by (metis add_gr_0 zero_less_numeral)
    moreover have "inj_on (ev_uuid E) {3..<3 + length (unwrap_or (chp_parameters p) [])}"
      by (rule inj_on_subset[where A = "{..<3 + length (unwrap_or (chp_parameters p) [])}"])
        (use assms(2) in \<open>auto simp: fresh_ids_def\<close>)
    ultimately obtain ps where params: "insert_declared E 3 (hk_id model) (unwrap_or (chp_parameters p) []) d
        = (Inr (), d\<lparr>db_params := ps\<rparr>)"
      using insert_declared_succeeds[of E 3 "unwrap_or (chp_parameters p) []" d "hk_id model"] assms(2,4)
      by (auto simp: params_only_def fresh_ids_def hook_exists_def d)
    obtain ms where grant: "grant_full_hook_permission E 2 (ak_id key) (hk_id model) (d\<lparr>db_params := ps\<rparr>)
        = (Inr (), d\<lparr>db_params := ps, db_perms := ms\<rparr>)"
      using grant_succeeds[of "ak_id key" "d\<lparr>db_params := ps\<rparr>" "hk_id model" E 2] assms(2,3)
      by (auto simp: can_log_def fresh_ids_def hook_exists_def key_exists_def d)
    have "can_log E key (d\<lparr>db_params := ps, db_perms := ms\<rparr>)"
      by (rule can_log_frame[OF assms(3)]) (simp_all add: d)
    moreover have "find_hook s (hk_id model) \<noteq> None"
      if "db_hooks s = db_hooks (d\<lparr>db_params := ps, db_perms := ms\<rparr>)" for s :: database
      using that by (auto simp: d find_hook_def find_None_iff)
    ultimately show ?thesis unfolding params and_then_simps grant
      by (intro audit_succeeds_with found_succeeds) simp_all
  qed
  from this[where model = "new_hook E key p n r t m sl" for n r t m sl]
  show ?thesis unfolding create_hook_def Let_def by (intro stays_intros) (simp add: new_hook_def)
qed

section \<open>Deleting a key\<close>

lemma apply_resolutions_succeeds: "wf_db d \<Longrightarrow> succeeds (apply_resolutions X key now rs counts d)"
proof (induction X key now rs counts d rule: apply_resolutions.induct)
  case (2 X key now e res r deleted reassigned db)
  show ?case
  proof (cases "find_hook db e")
    case (Some model)
    let ?r = "resolve_entity X key now res model"
    have name: "hk_name ?r = hk_name model" by (cases res) simp_all
    have "update_hook_row ?r db = Inr (db\<lparr>db_hooks := replace_row hk_id ?r (db_hooks db)\<rparr>)"
      using find_hookD[OF Some] name by (intro update_same_name[OF "2.prems", of model]) simp_all
    then show ?thesis using "2.IH"(2)[OF Some] update_hook_row_wf[OF "2.prems"] Some by (simp add: commit_def)
  qed (use 2 in simp)
qed auto

lemma caller_outside_subtree:
  assumes "wf_db db" and "forest db" and "stored_caller db key" and "administers db key i" and "i \<noteq> ak_id key"
  shows "ak_id key \<notin> set (i # descendant_key_ids db i)"
proof
  assume "ak_id key \<in> set (i # descendant_key_ids db i)"
  with assms(5) have below: "(i, ak_id key) \<in> (parent_rel db)\<^sup>+" by (auto simp: set_descendant_key_ids)
  obtain k where k: "k \<in> set (db_keys db)" "ak_is_master key \<longrightarrow> ak_is_master k" "key = k\<lparr>ak_is_master := ak_is_master key\<rparr>"
    using assms(3) by (auto simp: stored_caller_def)
  have "ak_id key = ak_id k" by (subst k(3)) simp
  with below k master_not_descendant[OF assms(2,1) k(1), of i] have "\<not> ak_is_master key" by auto
  with assms(4) have "(ak_id key, i) \<in> (parent_rel db)\<^sup>*" by (simp add: administers_def)
  with below have "(i, i) \<in> (parent_rel db)\<^sup>+" by (rule trancl_rtrancl_trancl)
  with assms(2) show False by (simp add: forest_def acyclic_def)
qed

lemma deletion_finishes:
  fixes g :: "nat \<Rightarrow> nat \<Rightarrow> string option"
  assumes "wf_db db" and "forest db" and "stored_caller db key" and "can_log E key db" and "distinct (map fst rs)"
    and "i \<noteq> ak_id key" and target: "load_administrable_key db key i = Inr target"
    and coll: "collect_subtree_inventory db i = (subtree, p)"
  shows "succeeds (and_then (apply_resolutions X key now rs (0, 0) db) (\<lambda>(deleted, reassigned) d.
      case delete_keys subtree d of (rows, d) \<Rightarrow> attempt (require (rows \<noteq> 0) NotFound) d (\<lambda>_.
      create_audit_log E 1 key ip a t (g deleted reassigned) d)))"
proof (rule succeeds_and_then[OF apply_resolutions_succeeds[OF assms(1)]])
  fix x s assume run: "apply_resolutions X key now rs (0, 0) db = (Inr x, s)"
  then have s: "s = db\<lparr>db_hooks := map (settled X key now rs) (db_hooks db)\<rparr>"
    using apply_resolutions_spec[OF assms(1,5)] by blast
  have subtree: "subtree = i # descendant_key_ids db i"
    using coll inventory_subtree(1) by (metis prod.collapse)
  have "ak_id key \<notin> set subtree"
    using caller_outside_subtree[OF assms(1-3) _ assms(6)] target by (simp add: subtree early_return)
  moreover have "al_id ` set (db_audit (snd (delete_keys subtree s))) = al_id ` set (db_audit db)"
    by (simp add: delete_keys_def s image_image)
  ultimately have "can_log E key (snd (delete_keys subtree s))"
    using assms(4) by (auto simp: can_log_def key_exists_iff) (auto simp: delete_keys_def s)
  moreover have "fst (delete_keys subtree s) \<noteq> 0"
    using find_keyD[of db i target] target by (auto simp: early_return delete_keys_def s subtree filter_empty_conv)
  ultimately show "succeeds ((case x of (deleted, reassigned) \<Rightarrow> \<lambda>d.
      case delete_keys subtree d of (rows, d) \<Rightarrow> attempt (require (rows \<noteq> 0) NotFound) d (\<lambda>_.
      create_audit_log E 1 key ip a t (g deleted reassigned) d)) s)"
    by (cases x; cases "delete_keys subtree s") (simp add: require_def audit_can_succeed)
qed

lemma delete_api_key_stays:
  assumes "wf_db db" and "forest db" and "stored_caller db key" and "can_log E key db" and "distinct (map fst rs)"
  shows "stays db (delete_api_key E key ip i rs db)"
  unfolding delete_api_key_def Let_def
  by (intro stays_attempt stays_tuple succeeds_stays[OF deletion_finishes] assms) (simp add: require_ok, assumption+)

section \<open>Every call\<close>

text \<open>How many identifiers a call draws, and the declarations that a hook can be created with.\<close>

fun ids_drawn :: "api_call \<Rightarrow> nat" where
  "ids_drawn (CreateHook p) = 3 + length (unwrap_or (chp_parameters p) [])"
| "ids_drawn _ = 2"

fun distinct_declarations :: "api_call \<Rightarrow> bool" where
  "distinct_declarations (CreateHook p) = distinct (map pi_param_key (unwrap_or (chp_parameters p) []))"
| "distinct_declarations _ = True"

lemma fresh_can_log: "fresh_ids n E db \<Longrightarrow> 1 < n \<Longrightarrow> stored_caller db key \<Longrightarrow> can_log E key db"
  by (simp add: can_log_def fresh_ids_def stored_caller_exists)

lemma drawn_two: "1 < ids_drawn call"
  by (cases call) auto

lemma outcome_stays: "stays db m \<Longrightarrow> \<not> fst (outcome m) \<Longrightarrow> snd m = db"
  by (auto simp: stays_def fst_outcome)

lemmas hook_handler_stays = update_hook_stays delete_hook_stays restore_hook_stays create_hook_parameter_stays
  update_hook_parameter_stays delete_hook_parameter_stays delete_execution_stays

lemma serve_stays:
  assumes "wf_db db" and "forest db" and "stored_caller db key" and "fresh_ids (ids_drawn call) E db"
    and "well_formed_call call" and "distinct_declarations call" and "\<not> fst (serve E key ip call db)"
  shows "snd (serve E key ip call db) = db"
proof -
  have log: "can_log E key db" using fresh_can_log[OF assms(4) drawn_two assms(3)] .
  show ?thesis
  proof (cases call)
    case (CreateHook p)
    then show ?thesis
      using assms create_hook_stays[OF assms(1) _ log] by (auto intro: outcome_stays)
  next
    case (DeleteKey i rs)
    then show ?thesis
      using assms delete_api_key_stays[OF assms(1-3) log] by (auto intro: outcome_stays)
  next
    case (PurgeHooks age)
    then show ?thesis
      using assms(7) purge_deleted_hooks_stays[OF log, of ip age]
      by (cases "purge_deleted_hooks E key ip age db") (auto simp: stays_def fst_outcome)
  next
    case (PurgeExecutions age)
    then show ?thesis
      using assms(7) purge_executions_stays[OF log, of ip age]
      by (cases "purge_executions E key ip age db") (auto simp: stays_def fst_outcome)
  qed (use assms(1,7) log in \<open>auto intro!: outcome_stays key_handler_stays hook_handler_stays\<close>)
qed

end
