(* ===== verification/Audit_Trail.thy ===== *)
theory Audit_Trail
  imports System
begin

text \<open>
  The audit log: no event removes or rewrites an entry (deleting a key takes its id out of its own
  entries, by the foreign key), and a call that answers with success has written exactly one entry, in
  the name of its caller and with the action of its route.
\<close>

section \<open>Entries stay\<close>

text \<open>An entry without the reference that a key deletion may null.\<close>

definition unlinked :: "audit_log \<Rightarrow> audit_log" where
  "unlinked l = l\<lparr>al_api_key_id := None\<rparr>"

definition trail :: "database \<Rightarrow> audit_log list" where
  "trail db = map unlinked (db_audit db)"

lemma trail_frames:
  "insert_key k d = Inr d' \<Longrightarrow> trail d' = trail d"
  "update_key k d = Inr d' \<Longrightarrow> trail d' = trail d"
  "insert_hook h d = Inr d' \<Longrightarrow> trail d' = trail d"
  "update_hook_row h d = Inr d' \<Longrightarrow> trail d' = trail d"
  "insert_param p d = Inr d' \<Longrightarrow> trail d' = trail d"
  "update_param p d = Inr d' \<Longrightarrow> trail d' = trail d"
  "insert_exec e d = Inr d' \<Longrightarrow> trail d' = trail d"
  "upsert_perm upd m d = Inr d' \<Longrightarrow> trail d' = trail d"
  by (auto simp: trail_def dest!: write_shapes upsert_perm_shape)

lemma trail_deletes [simp]:
  "trail (snd (delete_keys gone d)) = trail d" "trail (snd (delete_hooks P d)) = trail d"
  "trail (snd (delete_execs Q d)) = trail d" "trail (snd (delete_perms k h d)) = trail d"
  "trail (delete_param i d) = trail d" "trail (snd (soft_delete i now by1 d)) = trail d"
  by (simp_all add: trail_def delete_shapes soft_delete_def Let_def unlinked_def)

lemma trail_audit: "insert_audit l d = Inr d' \<Longrightarrow> trail d' = trail d @ [unlinked l]"
  by (auto simp: trail_def dest!: write_shapes)

lemma permitted_trail: "permitted c d0 db db' \<Longrightarrow> prefix (trail db) (trail db')"
  by (induction rule: permitted.induct) (auto dest!: trail_frames trail_audit)

lemma writes_trail: "writes c d0 db db' \<Longrightarrow> prefix (trail db) (trail db')"
  by (induction rule: rtranclp_induct) (auto dest: permitted_trail intro: prefix_order.trans)

lemma react_trail:
  assumes "wf_db (fst s)" and "well_formed_event e"
  shows "prefix (trail (fst s)) (trail (fst (react e s)))"
  using assms
proof (cases rule: react_cases)
  case (keyless r)
  then show ?thesis using trail_frames(7) by fastforce
next
  case sweep
  then show ?thesis by (auto simp: swept_def)
qed (auto dest: writes_trail)

section \<open>A success is logged\<close>

definition logged :: "database \<Rightarrow> api_key \<Rightarrow> string \<Rightarrow> database \<Rightarrow> bool" where
  "logged db key action db' \<longleftrightarrow> (\<exists>l d. db_audit db' = db_audit d @ [l] \<and> trail d = trail db
     \<and> al_api_key_id l = Some (ak_id key) \<and> al_api_key_name l = ak_name key \<and> al_action l = action)"

lemma audit_logged:
  assumes "create_audit_log E n key ip action t details d = (Inr u, db')" and "trail d = trail db"
  shows "logged db key action db'"
proof -
  from assms(1) obtain l where "insert_audit l d = Inr db'" "al_api_key_id l = Some (ak_id key)"
      "al_api_key_name l = ak_name key" "al_action l = action"
    by (auto simp: create_audit_log_def early_return)
  then show ?thesis unfolding logged_def using assms(2) insert_audit_rows by metis
qed

fun audit_action :: "api_call \<Rightarrow> string" where
  "audit_action (CreateKey p) = ''KEY_CREATE''"
| "audit_action (UpdateKey i p) = ''KEY_UPDATE''"
| "audit_action (DeleteKey i rs) = ''KEY_DELETE''"
| "audit_action (RotateKey i) = ''KEY_ROTATE''"
| "audit_action (RegenerateKey i) = ''KEY_REGENERATE_KEY''"
| "audit_action (RegenerateSecret i) = ''KEY_REGENERATE_SECRET''"
| "audit_action (SetPermissions i p) = ''KEY_PERM_UPDATE''"
| "audit_action (RevokePermission i h) = ''KEY_PERM_REVOKE''"
| "audit_action (CreateHook p) = ''HOOK_CREATE''"
| "audit_action (UpdateHook h p) = ''HOOK_UPDATE''"
| "audit_action (DeleteHook h hard) = (if unwrap_or hard False then ''HOOK_HARD_DELETE'' else ''HOOK_DELETE'')"
| "audit_action (RestoreHook h) = ''HOOK_RESTORE''"
| "audit_action (PurgeHooks age) = ''HOOK_PURGE''"
| "audit_action (CreateParameter h p) = ''HOOK_PARAM_CREATE''"
| "audit_action (UpdateParameter h i p) = ''HOOK_PARAM_UPDATE''"
| "audit_action (DeleteParameter h i) = ''HOOK_PARAM_DELETE''"
| "audit_action (DeleteExecution i) = ''EXECUTION_DELETE''"
| "audit_action (PurgeExecutions age) = ''EXECUTION_PURGE''"

lemma outcome_success: "outcome m = (True, db') \<longleftrightarrow> (\<exists>x. m = (Inr x, db'))"
  by (cases m; cases "fst m") (auto simp: outcome_def)

lemma create_api_key_logged:
  "create_api_key E key ip p db = (Inr x, db') \<Longrightarrow> logged db key ''KEY_CREATE'' db'"
  by (auto simp: create_api_key_def Let_def early_return split: prod.splits
      intro!: audit_logged dest!: trail_frames)

lemma update_api_key_logged:
  "update_api_key E key ip i p db = (Inr x, db') \<Longrightarrow> logged db key ''KEY_UPDATE'' db'"
  by (auto simp: update_api_key_def Let_def early_return intro!: audit_logged dest!: trail_frames)

lemma rotate_api_key_logged:
  "rotate_api_key E key ip i db = (Inr x, db') \<Longrightarrow> logged db key ''KEY_ROTATE'' db'"
  by (auto simp: rotate_api_key_def Let_def early_return split: prod.splits
      intro!: audit_logged dest!: trail_frames)

lemma regenerate_key_logged:
  "regenerate_key E key ip i db = (Inr x, db') \<Longrightarrow> logged db key ''KEY_REGENERATE_KEY'' db'"
  by (auto simp: regenerate_key_def Let_def early_return intro!: audit_logged dest!: trail_frames)

lemma regenerate_secret_logged:
  "regenerate_secret E key ip i db = (Inr x, db') \<Longrightarrow> logged db key ''KEY_REGENERATE_SECRET'' db'"
  by (auto simp: regenerate_secret_def Let_def early_return split: prod.splits
      intro!: audit_logged dest!: trail_frames)

lemma apply_resolutions_trail:
  "apply_resolutions X key now rs counts d = (Inr x, d') \<Longrightarrow> trail d' = trail d"
  by (induction X key now rs counts d arbitrary: x rule: apply_resolutions.induct)
    (auto simp: early_return split: option.splits dest!: trail_frames)

lemma delete_keys_trail: "delete_keys gone d = (n, d') \<Longrightarrow> trail d' = trail d"
  using trail_deletes(1)[of gone d] by simp

lemma delete_hooks_trail: "delete_hooks P d = (n, d') \<Longrightarrow> trail d' = trail d"
  using trail_deletes(2)[of P d] by simp

lemma delete_execs_trail: "delete_execs Q d = (n, d') \<Longrightarrow> trail d' = trail d"
  using trail_deletes(3)[of Q d] by simp

lemma delete_perms_trail: "delete_perms k h d = (n, d') \<Longrightarrow> trail d' = trail d"
  using trail_deletes(4)[of k h d] by simp

lemma soft_delete_trail: "soft_delete i now by1 d = (n, d') \<Longrightarrow> trail d' = trail d"
  using trail_deletes(6)[of i now by1 d] by simp

lemmas trail_steps = trail_frames apply_resolutions_trail delete_keys_trail delete_hooks_trail
  delete_execs_trail delete_perms_trail soft_delete_trail

lemma delete_api_key_logged:
  assumes "delete_api_key E key ip i rs db = (Inr x, db')"
  shows "logged db key ''KEY_DELETE'' db'"
proof -
  from assms obtain subtree d counts a t where
    res: "apply_resolutions (ev_ext E) key (ev_now E 0) rs (0, 0) db = (Inr counts, d)"
    and log: "create_audit_log E 1 key ip ''KEY_DELETE'' a t (snd (delete_keys subtree d)) = (Inr x, db')"
    unfolding delete_api_key_def Let_def attempt_ok
    by (auto simp: split_beta early_return)
  show ?thesis by (rule audit_logged[OF log]) (simp add: apply_resolutions_trail[OF res])
qed

lemma update_key_hook_permissions_logged:
  "update_key_hook_permissions E key ip i p db = (Inr x, db') \<Longrightarrow> logged db key ''KEY_PERM_UPDATE'' db'"
  unfolding update_key_hook_permissions_def Let_def attempt_ok commit_ok
  by (elim exE conjE) (rule audit_logged, assumption, erule trail_frames)

lemma revoke_key_hook_permission_logged:
  "revoke_key_hook_permission E key ip i h db = (Inr x, db') \<Longrightarrow> logged db key ''KEY_PERM_REVOKE'' db'"
  by (auto simp: revoke_key_hook_permission_def Let_def early_return split_beta intro!: audit_logged)

lemma insert_declared_trail:
  "insert_declared E n i declared d = (Inr x, d') \<Longrightarrow> trail d' = trail d"
  by (induction E n i declared d rule: insert_declared.induct)
    (auto split: sum.splits db_err.splits dest!: trail_frames)

lemma grant_trail: "grant_full_hook_permission E n k h d = (Inr x, d') \<Longrightarrow> trail d' = trail d"
  by (auto simp: grant_full_hook_permission_def early_return dest!: trail_frames)

lemma create_hook_logged:
  assumes "create_hook E key ip p db = (Inr x, db')"
  shows "logged db key ''HOOK_CREATE'' db'"
proof -
  from assms obtain model d d1 d2 u v n t a where ins: "insert_hook model db = Inr d"
    and params: "insert_declared E 3 (hk_id model) n d = (Inr u, d1)"
    and grant: "grant_full_hook_permission E 2 (ak_id key) (hk_id model) d1 = (Inr v, d2)"
    and log: "create_audit_log E 1 key ip ''HOOK_CREATE'' a t d2 = (Inr (), db')"
    unfolding create_hook_def Let_def attempt_ok
    by (elim exE conjE) (auto simp: and_then_ok attempt_ok split: sum.split_asm db_err.split_asm)
  show ?thesis
    by (rule audit_logged[OF log])
      (simp add: trail_frames(3)[OF ins] insert_declared_trail[OF params] grant_trail[OF grant])
qed

lemma update_hook_logged:
  assumes "update_hook E key ip h p db = (Inr x, db')"
  shows "logged db key ''HOOK_UPDATE'' db'"
proof -
  from assms obtain r d a t u where upd: "update_hook_row r db = Inr d"
    and log: "create_audit_log E 1 key ip ''HOOK_UPDATE'' a t d = (Inr u, db')"
    unfolding update_hook_def Let_def attempt_ok
    by (elim exE conjE) (auto simp: and_then_ok attempt_ok split: sum.split_asm db_err.split_asm)
  show ?thesis by (rule audit_logged[OF log trail_frames(4)[OF upd]])
qed

lemma delete_hook_logged:
  "delete_hook E key ip h hard db = (Inr x, db') \<Longrightarrow>
     logged db key (if unwrap_or hard False then ''HOOK_HARD_DELETE'' else ''HOOK_DELETE'') db'"
  by (auto simp: delete_hook_def Let_def early_return split_beta split: if_splits intro!: audit_logged)

lemma restore_hook_logged:
  "restore_hook E key ip h db = (Inr x, db') \<Longrightarrow> logged db key ''HOOK_RESTORE'' db'"
  by (auto simp: restore_hook_def Let_def early_return intro!: audit_logged dest!: trail_frames)

lemma create_hook_parameter_logged:
  assumes "create_hook_parameter E key ip h p db = (Inr x, db')"
  shows "logged db key ''HOOK_PARAM_CREATE'' db'"
proof -
  from assms obtain r d a t u where ins: "insert_param r db = Inr d"
    and log: "create_audit_log E 1 key ip ''HOOK_PARAM_CREATE'' a t d = (Inr u, db')"
    unfolding create_hook_parameter_def Let_def attempt_ok
    by (elim exE conjE) (auto simp: and_then_ok attempt_ok split: sum.split_asm db_err.split_asm)
  show ?thesis by (rule audit_logged[OF log trail_frames(5)[OF ins]])
qed

lemma update_hook_parameter_logged:
  "update_hook_parameter E key ip h i p db = (Inr x, db') \<Longrightarrow> logged db key ''HOOK_PARAM_UPDATE'' db'"
  by (auto simp: update_hook_parameter_def Let_def early_return intro!: audit_logged dest!: trail_frames)

lemma delete_hook_parameter_logged:
  "delete_hook_parameter E key ip h i db = (Inr x, db') \<Longrightarrow> logged db key ''HOOK_PARAM_DELETE'' db'"
  by (auto simp: delete_hook_parameter_def Let_def early_return intro!: audit_logged)

lemma delete_execution_logged:
  "delete_execution E key ip i db = (Inr x, db') \<Longrightarrow> logged db key ''EXECUTION_DELETE'' db'"
  by (auto simp: delete_execution_def Let_def early_return split_beta intro!: audit_logged)

lemma purge_logged:
  assumes "map_option (\<lambda>(n, d). and_then (create_audit_log E j key ip action t (f n) d) (\<lambda>_ d. (Inr (g n), d))) m
      = Some (Inr x, db')" and "\<And>n d. m = Some (n, d) \<Longrightarrow> trail d = trail db"
  shows "logged db key action db'"
  using assms by (auto simp: early_return intro!: audit_logged)

lemma purge_deleted_hooks_logged:
  assumes "purge_deleted_hooks E key ip age db = Some (Inr x, db')"
  shows "logged db key ''HOOK_PURGE'' db'"
proof -
  have m: "ak_is_master key" "\<not> unwrap_or age (cf_deleted_hook_retention_days (ev_config E)) < 0"
    using assms by (auto simp: purge_deleted_hooks_def Let_def split: if_splits)
  show ?thesis
    using assms m unfolding purge_deleted_hooks_def Let_def by (simp only: not_True_eq_False if_False)
      (erule purge_logged, auto dest!: purge_hooks_shape)
qed

lemma purge_executions_logged:
  assumes "purge_executions E key ip age db = Some (Inr x, db')"
  shows "logged db key ''EXECUTION_PURGE'' db'"
proof -
  have m: "ak_is_master key" "\<not> unwrap_or age (cf_log_retention_days (ev_config E)) < 0"
    using assms by (auto simp: purge_executions_def Let_def split: if_splits)
  show ?thesis
    using assms m unfolding purge_executions_def Let_def by (simp only: not_True_eq_False if_False)
      (erule purge_logged, auto dest!: purge_executions_shape)
qed

lemmas handler_logged = create_api_key_logged update_api_key_logged delete_api_key_logged
  rotate_api_key_logged regenerate_key_logged regenerate_secret_logged
  update_key_hook_permissions_logged revoke_key_hook_permission_logged create_hook_logged
  update_hook_logged delete_hook_logged restore_hook_logged purge_deleted_hooks_logged
  create_hook_parameter_logged update_hook_parameter_logged delete_hook_parameter_logged
  delete_execution_logged purge_executions_logged

lemma serve_logged:
  assumes "serve E key ip call db = (True, db')"
  shows "logged db key (audit_action call) db'"
  using assms
  by (cases call) (auto simp: outcome_success split: option.splits intro: handler_logged
      dest: delete_hook_logged)

end
