(* ===== verification/Call_Properties.thy ===== *)
theory Call_Properties
  imports System_Properties Failures Audit_Trail
begin

text \<open>
  The properties of a single call of the interface, through \<open>serve\<close>, and of the audit trail, with the
  demo deployments for their witnesses.
\<close>

section \<open>The callers of the demo deployments\<close>

lemma row_is_stored: "k \<in> set (db_keys db) \<Longrightarrow> stored_caller db k"
  unfolding stored_caller_def by (rule exI[of _ k]) simp

lemma demo_callers:
  "stored_caller site_db steward" "stored_caller demo_db admin_key" "stored_caller demo_db root_key"
  by (rule row_is_stored, simp add: demo_db_def)+

lemma demo_fresh: "fresh_ids 2 demo_env site_db" "fresh_ids 2 demo_env demo_db"
proof -
  have two: "{..<2::nat} = {0, 1}" by auto
  have all: "(\<forall>j<2. P j) \<longleftrightarrow> P 0 \<and> P 1" for P :: "nat \<Rightarrow> bool" by (auto simp: less_2_cases_iff)
  have ids: "ev_uuid demo_env 0 = 100" "ev_uuid demo_env 1 = 101" by (simp_all add: demo_env_def)
  show "fresh_ids 2 demo_env site_db" "fresh_ids 2 demo_env demo_db"
    unfolding fresh_ids_def two all by (simp_all add: site_hooks ids[simplified]) (simp_all add: site_db_def demo_db_def)
qed

section \<open>Every call\<close>

text \<open>
  C9. Whatever a call writes is a sequence of writes that the access model permits to its caller: the
  eighteen mutating endpoints refine the relation \<open>permitted\<close>, whose rules are the authorisations of the
  RBAC document stated on rows, without the order in which the handlers check them.
\<close>

theorem every_call_is_permitted:
  assumes "wf_db db" and "stored_caller db key" and "well_formed_call call"
  shows "(permitted key db)\<^sup>*\<^sup>* db (snd (serve E key client_ip call db))"
  using serve_writes[OF assms] .

theorem every_call_is_permitted_witness:
  "(permitted steward site_db)\<^sup>*\<^sup>* site_db (snd (serve demo_env steward (V4 7) (DeleteHook ''deploy'' None) site_db))"
  by (rule every_call_is_permitted) (simp_all add: site_wf demo_callers)



text \<open>
  C16. A call that answers with success has written exactly one audit entry, as its last row, in the name
  of the caller and with the action of the endpoint, and has left the earlier entries as they were.
\<close>

theorem successful_calls_are_logged:
  assumes "serve E key client_ip call db = (True, db')"
  shows "\<exists>entry. trail db' = trail db @ [unlinked entry]
    \<and> al_api_key_name entry = ak_name key \<and> al_action entry = audit_action call"
proof -
  from serve_logged[OF assms] obtain l d where "db_audit db' = db_audit d @ [l]" "trail d = trail db"
      "al_api_key_name l = ak_name key" "al_action l = audit_action call"
    by (auto simp: logged_def)
  then show ?thesis by (auto simp: trail_def)
qed

theorem successful_calls_are_logged_witness:
  "\<exists>entry. trail (snd (serve demo_env steward (V4 7) (DeleteHook ''deploy'' None) site_db))
     = trail site_db @ [unlinked entry] \<and> al_api_key_name entry = ''ci'' \<and> al_action entry = ''HOOK_DELETE''"
proof -
  let ?s = "serve demo_env steward (V4 7) (DeleteHook ''deploy'' None) site_db"
  have "fst ?s"
    by (simp add: fst_outcome delete_hook_def site_deploy guard_manage_def guard_lifecycle_authority_def
        guard_master_for_privileged_hook_def soft_delete_def site_hooks effective_run_as_user_def demo_env_def
        create_audit_log_def commit_def insert_audit_def require_def)
      (simp add: site_db_def demo_db_def nullable_fk_ok_def)
  then have "serve demo_env steward (V4 7) (DeleteHook ''deploy'' None) site_db = (True, snd ?s)"
    by (metis (full_types) prod.collapse)
  from successful_calls_are_logged[OF this] show ?thesis
    by (simp add: steward_def ci_key_def plain_key_def)
qed

text \<open>
  C17. The audit trail only grows: over any history of requests and sweeps the entries written so far stay
  in their order with their content; only the reference to a key that has since been deleted is nulled.
\<close>

theorem audit_trail_append_only:
  assumes "wf_db (fst s)" and "forest (fst s)" and "\<forall>e\<in>set es. well_formed_event e"
  shows "prefix (trail (fst s)) (trail (fst (history es s)))"
  using assms
proof (induction es s rule: history.induct)
  case (2 e es s)
  from "2.prems" have "wf_db (fst (react e s)) \<and> forest (fst (react e s))" by (intro react_sound) auto
  with 2 have "prefix (trail (fst (react e s))) (trail (fst (history es (react e s))))" by simp
  moreover have "prefix (trail (fst s)) (trail (fst (react e s)))" using react_trail "2.prems" by simp
  ultimately show ?case by (auto intro: prefix_order.trans)
qed simp

theorem audit_trail_append_only_witness:
  "prefix (trail site_db) (trail (fst (history site_events site)))"
  using audit_trail_append_only[of site site_events] by (simp add: site_def site_wf site_forest site_well_formed)

section \<open>What a key that is not master can bring about\<close>

text \<open>
  C11. A verb on an existing hook is only passed on: after a call of a key that is not master, a key holds
  a verb it did not hold before only when the caller manages keys, manages that hook by its own row and
  holds the very verb itself, and the hook is not one that runs under an account of its own.
\<close>

theorem verbs_are_delegated:
  assumes "wf_db db" and "stored_caller db key" and "well_formed_call call" and "\<not> ak_is_master key"
    and "h \<in> set (db_hooks db)" and "verb \<in> verbs"
    and "holds verb (snd (serve E key client_ip call db)) k (hk_id h)" and "\<not> holds verb db k (hk_id h)"
  shows "ak_can_manage_keys key \<and> holds pm_can_manage db (ak_id key) (hk_id h)
    \<and> holds verb db (ak_id key) (hk_id h) \<and> \<not> privileged h"
proof -
  note writes = serve_writes[OF assms(1-3), of E client_ip]
  have "hook_exists (hk_id h) db" using assms(5) by (simp add: hook_exists_def)
  from writes_verbs[OF writes assms(4,6) this assms(7)] assms(8)
    writes_privileged[OF writes assms(1,4,5)] assms(6,7)
  show ?thesis by blast
qed

text \<open>\<open>admin_key\<close> lets \<open>ci_key\<close> manage \<open>deploy\<close>.\<close>

definition ci_manages :: api_call where
  "ci_manages = SetPermissions 3 \<lparr>hpi_hook_id = None, hpi_hook_name = Some ''deploy'', hpi_can_execute = True,
     hpi_can_manage = True, hpi_can_view_execution = False\<rparr>"

lemma demo_deploy: "resolve_hook demo_externals demo_db ''deploy'' = Inr deploy_hook"
  by (simp add: resolve_hook_def resolve_hook_including_deleted_def demo_externals_def is_ascii_digit_def
      find_hook_by_name_def demo_db_def)

lemma admin_administers: "administers demo_db admin_key 3"
proof -
  have "ci_key \<in> set (db_keys demo_db)" "ak_parent_key_id ci_key = Some (ak_id admin_key)"
    by (simp_all add: demo_db_def) (simp add: ci_key_def plain_key_def)
  then have "(ak_id admin_key, ak_id ci_key) \<in> parent_rel demo_db" unfolding parent_rel_def by fastforce
  then show ?thesis by (simp add: administers_def)
qed

lemma ci_manages_granted: "holds pm_can_manage (snd (serve demo_env admin_key (V4 7) ci_manages demo_db)) 3 10"
proof -
  have ci: "find_key demo_db 3 = Some ci_key" by (simp add: find_key_def demo_db_def)
  have vis: "key_visibility demo_db admin_key ci_key = Some Full"
    using full_visibility_iff admin_administers by simp
  have perms: "hook_permission demo_db 2 10 = Some (hd (db_perms demo_db))"
    "hook_permission demo_db 3 10 = Some (db_perms demo_db ! 1)" "manages_any_hook demo_db 2"
    by (simp_all add: hook_permission_def manages_any_hook_def demo_db_def)
  show ?thesis
    by (simp add: ci_manages_def update_key_hook_permissions_def ci vis require_def ok_or_def hook_identifier_def
        demo_deploy has_permission_admin_standing_def perms is_permission_reduction_def
        guard_delegated_hook_grant_def guard_hook_manage_conjunction_def
        guard_master_for_privileged_hook_def effective_run_as_user_def commit_def upsert_perm_def)
      (simp add: holds_def demo_db_def take_verbs_def)
qed

theorem verbs_are_delegated_witness:
  "holds pm_can_manage (snd (serve demo_env admin_key (V4 7) ci_manages demo_db)) 3 10
   \<and> holds pm_can_manage demo_db 2 10 \<and> \<not> holds pm_can_manage demo_db 3 10"
proof -
  have before: "\<not> holds pm_can_manage demo_db 3 10" by (simp add: holds_def demo_db_def)
  have "deploy_hook \<in> set (db_hooks demo_db)" by (simp add: demo_db_def)
  from verbs_are_delegated[OF demo_db_wf demo_callers(2) _ _ this, of ci_manages pm_can_manage demo_env "V4 7" 3]
  show ?thesis using ci_manages_granted before by (simp add: ci_manages_def verbs_def)
qed

text \<open>
  C12. What a hook runs (its script, its argument template and the account) changes at the call of a key
  that is not master only when that key manages keys and manages the hook by its own row, and neither
  the hook before nor the hook after runs under an account of its own; the hook itself stays.
\<close>

theorem dispatch_needs_the_conjunction:
  assumes "wf_db db" and "stored_caller db key" and "well_formed_call call" and "\<not> ak_is_master key"
    and "h \<in> set (db_hooks db)"
  shows "\<exists>h'\<in>set (db_hooks (snd (serve E key client_ip call db))). hk_id h' = hk_id h
    \<and> (dispatch h' \<noteq> dispatch h \<longrightarrow> holds_conjunction db key (hk_id h) \<and> \<not> privileged h \<and> \<not> privileged h')"
proof -
  from writes_hooks[OF serve_writes[OF assms(1-3)] assms(1,4,5)] obtain h' where
    "h' \<in> set (db_hooks (snd (serve E key client_ip call db)))" "hk_id h' = hk_id h" "ordinary_change db key h h'"
    by blast
  then show ?thesis using custody_dispatch by (metis ordinary_change_def)
qed

definition new_script :: update_hook_payload where
  "new_script = \<lparr>uhp_name = None, uhp_description = None, uhp_script_path = Some ''/opt/scripts/b'',
     uhp_default_timeout_seconds = None, uhp_run_as_user = None, uhp_owner_key_id = None, uhp_auth_mode = None,
     uhp_hmac_secret = None, uhp_signature_header = None, uhp_signature_prefix = None,
     uhp_canonical_template = None, uhp_sample_payload_json = None, uhp_args_template = None\<rparr>"

theorem dispatch_needs_the_conjunction_witness:
  "\<exists>h'\<in>set (db_hooks (snd (serve demo_env admin_key (V4 7) (UpdateHook ''deploy'' new_script) demo_db))).
     hk_id h' = 10 \<and> (dispatch h' \<noteq> dispatch deploy_hook \<longrightarrow> holds_conjunction demo_db admin_key 10
       \<and> \<not> privileged deploy_hook \<and> \<not> privileged h')"
proof -
  have "deploy_hook \<in> set (db_hooks demo_db)" by (simp add: demo_db_def)
  from dispatch_needs_the_conjunction[OF demo_db_wf demo_callers(2) _ _ this,
      of "UpdateHook ''deploy'' new_script" demo_env "V4 7"]
  show ?thesis by simp
qed

end
