(* ===== verification/Key_Tree.thy ===== *)
theory Key_Tree
  imports Call_Properties
begin

text \<open>
  The tree of keys: that the walk over \<open>parent_key_id\<close> ends and finds exactly what is below a key, what
  the deletion of a key leaves, and that it can always be brought about.
\<close>

section \<open>The walk\<close>

text \<open>The loop of \<open>descendant\_key\_ids\<close> cut off after a number of rounds.\<close>

fun descend_within :: "nat \<Rightarrow> database \<Rightarrow> uuid \<Rightarrow> uuid list \<Rightarrow> uuid list \<Rightarrow> uuid list option" where
  "descend_within rounds db root seen frontier =
     (if frontier = [] then Some seen
      else case rounds of
        0 \<Rightarrow> None
      | Suc rounds \<Rightarrow> (case insert_new root seen (children_of db frontier) of
          (seen', fresh) \<Rightarrow> descend_within rounds db root seen' fresh))"

declare descend_within.simps [simp del]

lemma descend_within_enough:
  "card (ak_id ` set (db_keys db) - set seen) < n \<Longrightarrow>
     descend_within n db root seen frontier = Some (descend db root seen frontier)"
proof (induction n arbitrary: seen frontier)
  case (Suc n)
  show ?case
  proof (cases "frontier = []")
    case True
    then show ?thesis by (simp add: descend_within.simps descend.simps)
  next
    case False
    obtain seen' fresh where p: "insert_new root seen (children_of db frontier) = (seen', fresh)" by fastforce
    have rest: "descend_within n db root seen' fresh = Some (descend db root seen' fresh)"
    proof (cases fresh)
      case Nil
      then show ?thesis by (simp add: descend_within.simps descend.simps)
    next
      case (Cons x xs)
      let ?ids = "ak_id ` set (db_keys db)"
      have "set seen' = set seen \<union> set fresh" "set fresh \<subseteq> ?ids - set seen"
        using insert_new_spec[OF p] children_of_ids[of db frontier] by auto
      with Cons have "?ids - set seen' \<subset> ?ids - set seen" by auto
      then have "card (?ids - set seen') < card (?ids - set seen)" by (intro psubset_card_mono) auto
      with Suc show ?thesis by simp
    qed
    with False p show ?thesis by (simp add: descend_within.simps[of "Suc n"] descend.simps[of db root seen frontier])
  qed
qed simp

lemma insert_new_distinct:
  "distinct (root # seen) \<Longrightarrow> insert_new root seen is = (seen', fresh) \<Longrightarrow> distinct (root # seen')"
  by (induction root seen "is" arbitrary: seen' fresh rule: insert_new.induct) (auto split: if_splits prod.splits)

lemma descend_distinct: "distinct (root # seen) \<Longrightarrow> distinct (root # descend db root seen frontier)"
proof (induction db root seen frontier rule: descend.induct)
  case (1 db root seen frontier)
  obtain seen' fresh where p: "insert_new root seen (children_of db frontier) = (seen', fresh)" by fastforce
  with 1 insert_new_distinct[OF "1.prems" p] show ?case by (subst descend.simps) auto
qed

text \<open>
  C15. The walk that finds the descendants of a key ends on every table, also where parent links form a
  cycle: as many rounds as there are keys, and one more, are enough; it lists each key below the root
  once, exactly those that a chain of parent links leads to.
\<close>

theorem descendants_terminate:
  "descend_within (Suc (length (db_keys db))) db root [] [root] = Some (descendant_key_ids db root)
   \<and> set (descendant_key_ids db root) = (parent_rel db)\<^sup>+ `` {root} - {root}
   \<and> distinct (root # descendant_key_ids db root)"
proof -
  have "card (ak_id ` set (db_keys db) - set []) < Suc (length (db_keys db))"
    using card_image_le[of "set (db_keys db)" ak_id] card_length[of "db_keys db"] by simp
  from descend_within_enough[OF this, of root "[root]"] show ?thesis
    using descend_distinct[of root "[]" db "[root]"] by (simp add: descendant_key_ids_def set_descendant_key_ids[unfolded descendant_key_ids_def])
qed

section \<open>What a deletion leaves\<close>

lemma deletion_success:
  assumes "delete_api_key E key ip i rs db = (Inr u, db')"
  obtains subtree doomed inventory s counts a t where
    "collect_subtree_inventory db i = (subtree, doomed, inventory)"
    "filter (\<lambda>e. oe_id e \<notin> set (map fst rs)) inventory = []"
    "check_reassignments (ev_ext E) db subtree rs = Inr ()"
    "apply_resolutions (ev_ext E) key (ev_now E 0) rs (0, 0) db = (Inr counts, s)"
    "create_audit_log E 1 key ip ''KEY_DELETE'' a t (snd (delete_keys subtree s)) = (Inr u, db')"
proof -
  obtain subtree doomed inventory where coll: "collect_subtree_inventory db i = (subtree, doomed, inventory)"
    by (rule prod_cases3)
  from assms show thesis unfolding delete_api_key_def Let_def attempt_ok coll prod.case
    by (auto simp: split_beta early_return require_ok intro: that[OF coll])
qed

text \<open>
  C13. Deleting a key removes exactly its subtree from the key table and that subtree's permission rows,
  and destroys nothing else: every hook stays and is either as the resolutions say, every parameter and
  every execution stays (an execution at most loses the reference to a deleted key), and no live hook
  is left with an owner in the subtree.
\<close>

theorem deletion_destroys_no_data:
  assumes "wf_db db" and "distinct (map fst rs)" and "delete_api_key E key client_ip i rs db = (Inr u, db')"
  shows "db_keys db' = filter (\<lambda>k. (i, ak_id k) \<notin> (parent_rel db)\<^sup>*) (db_keys db)
    \<and> db_perms db' = filter (\<lambda>p. (i, pm_api_key_id p) \<notin> (parent_rel db)\<^sup>*) (db_perms db)
    \<and> db_hooks db' = map (settled (ev_ext E) key (ev_now E 0) rs) (db_hooks db)
    \<and> db_params db' = db_params db
    \<and> map (\<lambda>e. e\<lparr>ex_api_key_id := None\<rparr>) (db_execs db') = map (\<lambda>e. e\<lparr>ex_api_key_id := None\<rparr>) (db_execs db)
    \<and> (\<forall>h\<in>set (db_hooks db'). \<not> hk_is_deleted h \<longrightarrow>
         (\<forall>owner. hk_owner_key_id h = Some owner \<longrightarrow> (i, owner) \<notin> (parent_rel db)\<^sup>*))"
proof -
  from assms(3) obtain subtree doomed inventory s counts a t where
    coll: "collect_subtree_inventory db i = (subtree, doomed, inventory)"
    and full: "filter (\<lambda>e. oe_id e \<notin> set (map fst rs)) inventory = []"
    and "check_reassignments (ev_ext E) db subtree rs = Inr ()"
    and run: "apply_resolutions (ev_ext E) key (ev_now E 0) rs (0, 0) db = (Inr counts, s)"
    and log: "create_audit_log E 1 key client_ip ''KEY_DELETE'' a t (snd (delete_keys subtree s)) = (Inr u, db')"
    by (rule deletion_success)
  have s: "s = db\<lparr>db_hooks := map (settled (ev_ext E) key (ev_now E 0) rs) (db_hooks db)\<rparr>"
    using apply_resolutions_spec[OF assms(1,2) run] .
  have below: "j \<in> set subtree \<longleftrightarrow> (i, j) \<in> (parent_rel db)\<^sup>*" for j
    by (auto simp: inventory_subtree(1)[OF coll] set_descendant_key_ids rtrancl_eq_or_trancl)
  have rows: "db_keys db' = db_keys (snd (delete_keys subtree s))" "db_perms db' = db_perms (snd (delete_keys subtree s))"
    "db_hooks db' = db_hooks (snd (delete_keys subtree s))" "db_params db' = db_params (snd (delete_keys subtree s))"
    "db_execs db' = db_execs (snd (delete_keys subtree s))"
    using log by (auto simp: create_audit_log_def early_return dest!: insert_audit_shape)
  have "hk_is_deleted (settled (ev_ext E) key (ev_now E 0) rs h)"
    if "h \<in> set (db_hooks db)" "hk_owner_key_id (settled (ev_ext E) key (ev_now E 0) rs h) = Some owner"
      "(i, owner) \<in> (parent_rel db)\<^sup>*" for h owner
    using deletion_settled[OF assms(1,2) coll full \<open>check_reassignments _ _ _ _ = _\<close> that(1,2)] that(3) below by blast
  then show ?thesis
    unfolding rows by (auto simp: delete_keys_def s below)
qed

section \<open>A deletion can be brought about\<close>

lemma deletion_possible:
  assumes "wf_db db" and "forest db" and "stored_caller db key" and "can_log E key db" and "distinct (map fst rs)"
    and "ak_is_master key \<or> ak_can_manage_keys key" and "i \<noteq> ak_id key"
    and target: "find_key db i = Some target" "administers db key i" "\<not> ak_is_master target"
    and coll: "collect_subtree_inventory db i = (subtree, doomed, inventory)"
    and ids: "set (map fst rs) = set (map oe_id inventory)" and "check_reassignments (ev_ext E) db subtree rs = Inr ()"
  shows "\<exists>u. fst (delete_api_key E key client_ip i rs db) = Inr u"
proof -
  have load: "load_administrable_key db key i = Inr target" using target by (simp add: early_return)
  have guards: "guard_master_to_administer key target ''delete'' = Inr ()"
    "refuse_master_lifecycle_action target ''delete'' = Inr ()"
    using target(3) by (simp_all add: early_return)
  have stray: "List.find (\<lambda>k. k \<notin> set (map oe_id inventory)) (map fst rs) = None"
    unfolding find_None_iff using ids by auto
  have "filter (\<lambda>e. oe_id e \<notin> set (map fst rs)) inventory = []" using ids by (auto simp: filter_empty_conv)
  then have allowed: "require (filter (\<lambda>e. oe_id e \<notin> set (map fst rs)) inventory = []) e = Inr ()"
    "require (ak_is_master key \<or> ak_can_manage_keys key) e = Inr ()" "require (i \<noteq> ak_id key) e = Inr ()" for e
    using assms(6,7) by (simp_all add: require_def)
  have "succeeds (delete_api_key E key client_ip i rs db)"
    unfolding delete_api_key_def Let_def load guards coll prod.case stray option.case allowed assms(13) attempt_simps
    by (rule deletion_finishes[OF assms(1-5,7) load coll])
  then show ?thesis by (simp add: succeeds_def)
qed

text \<open>Every entity of the inventory into the trash.\<close>

definition trash_all :: "owned_entity list \<Rightarrow> resolutions" where
  "trash_all inventory = map (\<lambda>e. (oe_id e, Delete)) inventory"

lemma trash_all_reassigns_nothing: "check_reassignments X db subtree (trash_all inventory) = Inr ()"
  by (auto simp: check_reassignments_ok trash_all_def)

lemma distinct_map_filter_ids:
  assumes "\<And>h e. f h = Some e \<Longrightarrow> oe_id e = hk_id h" and "distinct (map hk_id hs)"
  shows "distinct (map oe_id (List.map_filter f hs)) \<and> set (map oe_id (List.map_filter f hs)) \<subseteq> set (map hk_id hs)"
  using assms(2)
proof (induction hs)
  case (Cons h hs)
  then show ?case using assms(1)[of h] by (cases "f h") (auto simp: List.map_filter_simps)
qed (simp add: List.map_filter_simps)

lemma inventory_distinct:
  assumes "wf_db db" and "collect_subtree_inventory db i = (subtree, doomed, inventory)"
  shows "distinct (map oe_id inventory)"
proof -
  let ?hs = "sort_key hk_name (filter (\<lambda>h. case hk_owner_key_id h of
      Some owner \<Rightarrow> owner \<in> set subtree | None \<Rightarrow> False) (db_hooks db))"
  have inv: "inventory = List.map_filter
      (\<lambda>h. map_option (\<lambda>owner. \<lparr>oe_entity_type = ''hook'', oe_id = hk_id h, oe_name = hk_name h,
                                oe_current_owner = owner\<rparr>) (hk_owner_key_id h)) ?hs"
    using assms(2) unfolding collect_subtree_inventory_def Let_def prod.inject by (elim conjE) (hypsubst, rule refl)
  have "distinct (map hk_id (db_hooks db))" using assms(1) by (simp add: wf_db_def wf_hooks_def)
  then have "inj_on hk_id (set ?hs)" and "distinct ?hs" by (auto simp: distinct_map intro: inj_on_subset)
  then have "distinct (map hk_id ?hs)" by (simp add: distinct_map)
  then show ?thesis unfolding inv by (intro conjunct1[OF distinct_map_filter_ids]) auto
qed

lemma deletion_keys:
  assumes "wf_db db" and "distinct (map fst rs)" and "delete_api_key E key client_ip i rs db = (Inr u, db')"
    and coll: "collect_subtree_inventory db i = (subtree, p)"
  shows "db_keys db' = filter (\<lambda>k. ak_id k \<notin> set subtree) (db_keys db)"
proof -
  from assms(3) obtain subtree' doomed inventory s counts a t where
    "collect_subtree_inventory db i = (subtree', doomed, inventory)"
    and run: "apply_resolutions (ev_ext E) key (ev_now E 0) rs (0, 0) db = (Inr counts, s)"
    and log: "create_audit_log E 1 key client_ip ''KEY_DELETE'' a t (snd (delete_keys subtree' s)) = (Inr u, db')"
    by (rule deletion_success)
  moreover have "db_keys s = db_keys db" using apply_resolutions_spec[OF assms(1,2) run] by simp
  ultimately show ?thesis
    using coll by (auto simp: create_audit_log_def early_return delete_keys_def dest!: insert_audit_shape)
qed

text \<open>
  C14. Deletion is never blocked: a key that may administer another, non-master key and is not that key
  itself can always delete it together with its subtree, for instance by sending everything the subtree
  owns to the trash; the call then answers with success and none of the subtree's keys is left.
\<close>

theorem subtree_can_be_deleted:
  assumes "wf_db db" and "forest db" and "stored_caller db key" and "fresh_ids 2 E db"
    and "ak_is_master key \<or> ak_can_manage_keys key" and "i \<noteq> ak_id key"
    and "find_key db i = Some target" and "administers db key i" and "\<not> ak_is_master target"
  shows "\<exists>rs. distinct (map fst rs) \<and> fst (serve E key client_ip (DeleteKey i rs) db)
    \<and> (\<forall>k\<in>set (db_keys (snd (serve E key client_ip (DeleteKey i rs) db))). (i, ak_id k) \<notin> (parent_rel db)\<^sup>*)"
proof -
  obtain subtree doomed inventory where coll: "collect_subtree_inventory db i = (subtree, doomed, inventory)"
    by (rule prod_cases3)
  define rs where "rs = trash_all inventory"
  have rs: "distinct (map fst rs)" "set (map fst rs) = set (map oe_id inventory)"
    using inventory_distinct[OF assms(1) coll] by (simp_all add: rs_def trash_all_def comp_def)
  have log: "can_log E key db" using fresh_can_log[OF assms(4) _ assms(3)] by simp
  obtain u where u: "fst (delete_api_key E key client_ip i rs db) = Inr u"
    using deletion_possible[OF assms(1-3) log rs(1) assms(5-9) coll rs(2)] trash_all_reassigns_nothing
    by (auto simp: rs_def)
  then have run: "delete_api_key E key client_ip i rs db = (Inr u, snd (delete_api_key E key client_ip i rs db))"
    by (metis prod.collapse)
  have "db_keys (snd (delete_api_key E key client_ip i rs db)) = filter (\<lambda>k. ak_id k \<notin> set subtree) (db_keys db)"
    using deletion_keys[OF assms(1) rs(1) run coll] .
  moreover have "j \<in> set subtree \<longleftrightarrow> (i, j) \<in> (parent_rel db)\<^sup>*" for j
    by (auto simp: inventory_subtree(1)[OF coll] set_descendant_key_ids rtrancl_eq_or_trancl)
  ultimately show ?thesis using rs(1) u by (intro exI[of _ rs]) (auto simp: fst_outcome)
qed

section \<open>On the demo deployment\<close>

lemma demo_parents [simp]: "db_keys demo_db = [root_key, admin_key, ci_key]" "ak_parent_key_id ci_key = Some 2"
  by (simp_all add: demo_db_def) (simp add: ci_key_def plain_key_def)

lemma demo_tree: "parent_rel demo_db = {(1, 2), (2, 3)}"
  by (auto simp: parent_rel_iff)

lemma demo_forest: "forest demo_db"
proof -
  have "acyclic (parent_rel demo_db)"
    unfolding demo_tree by (rule acyclic_subset[OF wf_acyclic[OF wf_measure[of unat]]]) auto
  then show ?thesis by (auto simp: forest_def key_exists_def)
qed

text \<open>\<open>ci\_key\<close> owns nothing and has no children; its permission row goes with it.\<close>

lemma ci_inventory: "collect_subtree_inventory demo_db 3 = ([3], [\<lparr>dk_id = 3, dk_name = ''ci''\<rparr>], [])"
proof -
  have "descendant_key_ids demo_db 3 = []"
    by (simp add: descendant_key_ids_def descend.simps children_of_def)
  then show ?thesis
    by (simp add: collect_subtree_inventory_def List.map_filter_simps) (simp add: demo_db_def demo_keys_def deploy_hook_def)
qed

theorem deletion_destroys_no_data_witness:
  "db_keys (snd (delete_api_key demo_env admin_key (V4 7) 3 [] demo_db)) = [root_key, admin_key]
   \<and> db_hooks (snd (delete_api_key demo_env admin_key (V4 7) 3 [] demo_db)) = db_hooks demo_db"
proof -
  let ?d = "delete_api_key demo_env admin_key (V4 7) 3 [] demo_db"
  have "can_log demo_env admin_key demo_db" using fresh_can_log[OF demo_fresh(2) _ demo_callers(2)] by simp
  then obtain u where "fst ?d = Inr u"
    using deletion_possible[OF demo_db_wf demo_forest demo_callers(2), of demo_env "[]" 3 ci_key "[3]" _ "[]" "V4 7"]
      admin_administers ci_inventory by (auto simp: find_key_def)
  then have run: "?d = (Inr u, snd ?d)" by (metis prod.collapse)
  have "(3, 1) \<notin> (parent_rel demo_db)\<^sup>*" "(3, 2) \<notin> (parent_rel demo_db)\<^sup>*" "(3, 3) \<in> (parent_rel demo_db)\<^sup>*"
    by (auto simp: demo_tree elim: converse_rtranclE)
  then show ?thesis
    using deletion_destroys_no_data[OF demo_db_wf _ run] by (simp add: settled_def[abs_def])
qed

theorem subtree_can_be_deleted_witness:
  "\<exists>rs. fst (serve demo_env root_key (V4 7) (DeleteKey 2 rs) demo_db)
    \<and> (\<forall>k\<in>set (db_keys (snd (serve demo_env root_key (V4 7) (DeleteKey 2 rs) demo_db))). (2, ak_id k) \<notin> (parent_rel demo_db)\<^sup>*)"
proof -
  have "find_key demo_db 2 = Some admin_key" by (simp add: find_key_def)
  from subtree_can_be_deleted[OF demo_db_wf demo_forest demo_callers(3) demo_fresh(2) _ _ this, of "V4 7"]
  show ?thesis by (auto simp: administers_def)
qed

end
