(* ===== verification/Config_Env.thy ===== *)
theory Config_Env
  imports Authentication
begin

text \<open>
  \<open>src/config.rs\<close>, second part: the configuration as the process reads it from its environment, the
  listening address, and the syntax of \<open>TRUSTED_PROXIES\<close>.  An environment is a function from variable
  names to values, \<open>None\<close> for a variable that is unset or not Unicode.
\<close>

type_synonym variables = "string \<Rightarrow> string option"

section \<open>Numbers\<close>

text \<open>\<open>str::parse\<close> for an unsigned type with that largest value: digits, after an optional plus sign.\<close>

definition parse_unsigned :: "nat \<Rightarrow> string \<Rightarrow> nat option" where
  "parse_unsigned largest s =
     (let digits = (if s \<noteq> [] \<and> hd s = CHR ''+'' then tl s else s)
      in if digits = [] then None else filter_opt (\<lambda>n. n \<le> largest) (decimal_value 0 digits))"

definition u64_max :: nat where
  "u64_max = 18446744073709551615"

definition parse_or_warn :: "(string \<Rightarrow> 'a option) \<Rightarrow> string option \<Rightarrow> 'a \<Rightarrow> 'a" where
  "parse_or_warn parse var fallback =
     (case var of
        None \<Rightarrow> fallback
      | Some raw \<Rightarrow> unwrap_or (parse (trim raw)) fallback)"

section \<open>Lists\<close>

definition parse_script_roots :: "string \<Rightarrow> string list" where
  "parse_script_roots raw =
     filter (\<lambda>entry. hd entry = CHR ''/'')
       (filter (\<lambda>s. s \<noteq> []) (map trim (split_on (CHR '','') raw)))"

record trusted_proxy_error =
  tpe_entry :: string
  tpe_reason :: string

definition hostname_rejection :: "string \<Rightarrow> string option" where
  "hostname_rejection candidate =
     (if candidate = [] then Some ''it is empty''
      else if length candidate > 253 then Some ''it exceeds the 253-character DNS name limit''
      else if CHR ''/'' \<in> set candidate
      then Some ''it contains '/', so it was read as a CIDR range, but the address or prefix length is not valid''
      else if CHR '':'' \<in> set candidate
      then Some ''it contains ':', so it was read as an IPv6 address, but it is not a valid one''
      else if \<not> (is_ascii_alphanumeric (hd candidate) \<and> is_ascii_alphanumeric (last candidate))
      then Some ''a hostname must start and end with a letter or a digit''
      else if list_all (\<lambda>c. is_ascii_digit c \<or> c = CHR ''.'') candidate
      then Some ''it contains only digits and dots, so it was read as an IPv4 address, but it is not a valid one''
      else if \<not> list_all (\<lambda>c. is_ascii_alphanumeric c \<or> c = CHR ''-'' \<or> c = CHR ''.'' \<or> c = CHR ''_'') candidate
      then Some (''a hostname may contain only letters, digits, '-', '.' and '' @ single_quoted ''_'')
      else None)"

text \<open>\<open>IpNetwork::from(addr)\<close>: the host route.\<close>

fun host_route :: "ip \<Rightarrow> network" where
  "host_route (V4 w) = Network (V4 w) 32"
| "host_route (V6 w) = Network (V6 w) 128"

definition parse_proxy :: "externals \<Rightarrow> string \<Rightarrow> trusted_proxy_error + proxy_spec" where
  "parse_proxy X entry =
     (case x_network_parse X entry of
        Some network \<Rightarrow> Inr (ProxyNetwork network)
      | None \<Rightarrow>
          (case parse_ip entry of
             Some addr \<Rightarrow> Inr (ProxyNetwork (host_route addr))
           | None \<Rightarrow>
               (case hostname_rejection entry of
                  None \<Rightarrow> Inr (ProxyHostname entry)
                | Some reason \<Rightarrow> Inl \<lparr>tpe_entry = entry, tpe_reason = reason\<rparr>)))"

text \<open>\<open>collect\<close> into a \<open>Result\<close>: the first error ends it.\<close>

fun parse_proxies :: "externals \<Rightarrow> string list \<Rightarrow> trusted_proxy_error + proxy_spec list" where
  "parse_proxies X [] = Inr []"
| "parse_proxies X (entry # r) =
     check (parse_proxy X entry) (\<lambda>spec. check (parse_proxies X r) (\<lambda>specs. Inr (spec # specs)))"

definition parse_trusted_proxies :: "externals \<Rightarrow> string \<Rightarrow> trusted_proxy_error + proxy_spec list" where
  "parse_trusted_proxies X raw =
     parse_proxies X (filter (\<lambda>s. s \<noteq> []) (map trim (split_on (CHR '','') raw)))"

section \<open>The configuration\<close>

definition config_from_env :: "externals \<Rightarrow> variables \<Rightarrow> trusted_proxy_error + runtime_config" where
  "config_from_env X env =
     (let allowed_env_vars = (case env ''ALLOWED_ENV_VARS'' of
            Some raw \<Rightarrow> parse_env_var_list raw | None \<Rightarrow> cf_allowed_env_vars default_config);
          allowed_script_roots = parse_script_roots (unwrap_or (env ''ALLOWED_SCRIPT_ROOTS'') []) in
      check (parse_trusted_proxies X (unwrap_or (env ''TRUSTED_PROXIES'') [])) (\<lambda>trusted_proxies.
      Inr \<lparr>cf_allowed_env_vars = allowed_env_vars,
        cf_log_retention_days = parse_or_warn (\<lambda>s. map_option sint (parse_i64 s)) (env ''LOG_RETENTION_DAYS'')
          (cf_log_retention_days default_config),
        cf_deleted_hook_retention_days = max 0 (parse_or_warn (\<lambda>s. map_option sint (parse_i64 s))
          (env ''DELETED_HOOK_RETENTION_DAYS'') (cf_deleted_hook_retention_days default_config)),
        cf_retention_sweep_seconds = max 1 (parse_or_warn (parse_unsigned u64_max)
          (env ''RETENTION_SWEEP_SECONDS'') (cf_retention_sweep_seconds default_config)),
        cf_max_output_bytes = parse_or_warn (parse_unsigned u64_max) (env ''MAX_OUTPUT_BYTES'')
          (cf_max_output_bytes default_config),
        cf_signature_max_age_seconds =
          (let age = parse_or_warn parse_i64 (env ''SIGNATURE_MAX_AGE_SECONDS'')
                 (cf_signature_max_age_seconds default_config)
           in if sint age < 1 then 1 else age),
        cf_require_signed_requests = parse_bool_or_warn (env ''REQUIRE_SIGNED_REQUESTS'')
          (cf_require_signed_requests default_config),
        cf_allowed_script_roots = allowed_script_roots,
        cf_trusted_proxies = trusted_proxies\<rparr>))"

section \<open>The listening address\<close>

definition DEFAULT_BIND_HOST :: ip where
  "DEFAULT_BIND_HOST = V4 0"

definition DEFAULT_BIND_PORT :: nat where
  "DEFAULT_BIND_PORT = 3000"

definition parse_bind_addr :: "string option \<Rightarrow> string option \<Rightarrow> ip \<times> nat" where
  "parse_bind_addr host port =
     ((case filter_opt (\<lambda>h. h \<noteq> []) (map_option trim host) of
         Some raw \<Rightarrow> unwrap_or (parse_ip raw) DEFAULT_BIND_HOST
       | None \<Rightarrow> DEFAULT_BIND_HOST),
      (case filter_opt (\<lambda>p. p \<noteq> []) (map_option trim port) of
         Some raw \<Rightarrow> unwrap_or (parse_unsigned 65535 raw) DEFAULT_BIND_PORT
       | None \<Rightarrow> DEFAULT_BIND_PORT))"

definition resolve_bind_addr :: "variables \<Rightarrow> ip \<times> nat" where
  "resolve_bind_addr env =
     parse_bind_addr (case env ''BIND_HOST'' of Some h \<Rightarrow> Some h | None \<Rightarrow> env ''HOST'') (env ''PORT'')"

section \<open>What the process can be configured to\<close>

lemma parse_proxy_accepts:
  "parse_proxy X entry = Inr spec \<longleftrightarrow>
     (\<exists>n. x_network_parse X entry = Some n \<and> spec = ProxyNetwork n)
   \<or> (x_network_parse X entry = None \<and> (\<exists>a. parse_ip entry = Some a \<and> spec = ProxyNetwork (host_route a)))
   \<or> (x_network_parse X entry = None \<and> parse_ip entry = None \<and> hostname_rejection entry = None
        \<and> spec = ProxyHostname entry)"
  by (auto simp: parse_proxy_def split: option.splits)

lemma parse_proxies_accepts: "parse_proxies X entries = Inr specs \<longleftrightarrow> map (parse_proxy X) entries = map Inr specs"
proof (induction entries arbitrary: specs)
  case (Cons entry entries)
  show ?case by (cases specs) (auto simp: check_ok Cons.IH)
qed auto

lemma parse_i64_bound: "parse_i64 s = Some w \<Longrightarrow> - (2 ^ 63) \<le> sint w \<and> sint w < 2 ^ 63"
  using sint_bounds64 by blast

lemma configured_below: "(\<And>s v. parse s = Some v \<Longrightarrow> P v) \<Longrightarrow> P fallback \<Longrightarrow> P (parse_or_warn parse var fallback)"
  by (auto simp: parse_or_warn_def unwrap_or_def split: option.splits)

lemma parse_unsigned_bound: "parse_unsigned m s = Some n \<Longrightarrow> n \<le> m"
  by (auto simp: parse_unsigned_def Let_def filter_opt_Some_iff split: if_splits)

text \<open>
  C19. Whatever the environment holds, a configuration that the process starts with is within its bounds:
  the sweep has a positive period, trashed hooks never a negative age, the signature window is at least
  one second, every script root is an absolute path and no variable name, root or proxy is blank; and a
  malformed number or boolean gives the default instead.
\<close>

theorem configuration_within_bounds:
  assumes "config_from_env X env = Inr cfg"
  shows "1 \<le> cf_retention_sweep_seconds cfg \<and> cf_retention_sweep_seconds cfg \<le> u64_max
    \<and> 0 \<le> cf_deleted_hook_retention_days cfg \<and> cf_deleted_hook_retention_days cfg < 2 ^ 63
    \<and> cf_max_output_bytes cfg \<le> u64_max
    \<and> 1 \<le> sint (cf_signature_max_age_seconds cfg)
    \<and> (\<forall>root\<in>set (cf_allowed_script_roots cfg). \<exists>r. root = CHR ''/'' # r)
    \<and> [] \<notin> set (cf_allowed_env_vars cfg)"
proof -
  let ?int = "\<lambda>s. map_option sint (parse_i64 s)"
  have cfg: "cf_retention_sweep_seconds cfg = max 1 (parse_or_warn (parse_unsigned u64_max) (env ''RETENTION_SWEEP_SECONDS'') 3600)"
    "cf_deleted_hook_retention_days cfg = max 0 (parse_or_warn ?int (env ''DELETED_HOOK_RETENTION_DAYS'') 92)"
    "cf_max_output_bytes cfg = parse_or_warn (parse_unsigned u64_max) (env ''MAX_OUTPUT_BYTES'') (1024 * 1024)"
    "cf_signature_max_age_seconds cfg = (let age = parse_or_warn parse_i64 (env ''SIGNATURE_MAX_AGE_SECONDS'') 300
       in if sint age < 1 then 1 else age)"
    "cf_allowed_script_roots cfg = parse_script_roots (unwrap_or (env ''ALLOWED_SCRIPT_ROOTS'') [])"
    "cf_allowed_env_vars cfg = (case env ''ALLOWED_ENV_VARS'' of
       Some raw \<Rightarrow> parse_env_var_list raw | None \<Rightarrow> cf_allowed_env_vars default_config)"
    using assms by (auto simp: config_from_env_def Let_def check_ok default_config_def)
  have "parse_or_warn ?int (env ''DELETED_HOOK_RETENTION_DAYS'') 92 < 2 ^ 63"
    by (rule configured_below) (auto dest: parse_i64_bound)
  moreover have "parse_or_warn (parse_unsigned u64_max) (env v) d \<le> u64_max" if "d \<le> u64_max" for v d
    by (rule configured_below) (auto simp: that dest: parse_unsigned_bound)
  moreover have "\<exists>r. root = CHR ''/'' # r" if "root \<in> set (cf_allowed_script_roots cfg)" for root
  proof -
    have "root \<noteq> [] \<and> hd root = CHR ''/''" using that by (simp add: cfg parse_script_roots_def)
    then show ?thesis by (cases root) auto
  qed
  moreover have "[] \<notin> set (cf_allowed_env_vars cfg)"
    by (auto simp: cfg parse_env_var_list_def default_config_def split: option.splits)
  ultimately show ?thesis by (auto simp: cfg Let_def u64_max_def)
qed

theorem configuration_within_bounds_witness:
  "\<exists>cfg. config_from_env demo_externals
       (\<lambda>v. if v = ''SIGNATURE_MAX_AGE_SECONDS'' then Some ''-5'' else if v = ''RETENTION_SWEEP_SECONDS'' then Some ''x''
         else if v = ''TRUSTED_PROXIES'' then Some ''0.0.0.0/0,'' else None) = Inr cfg
     \<and> 1 \<le> sint (cf_signature_max_age_seconds cfg) \<and> cf_retention_sweep_seconds cfg \<ge> 1
     \<and> cf_trusted_proxies cfg = [ProxyNetwork (Network (V4 0) 0)]"
proof -
  let ?env = "\<lambda>v. if v = ''SIGNATURE_MAX_AGE_SECONDS'' then Some ''-5'' else if v = ''RETENTION_SWEEP_SECONDS'' then Some ''x''
      else if v = ''TRUSTED_PROXIES'' then Some ''0.0.0.0/0,'' else None"
  have proxies: "parse_trusted_proxies demo_externals ''0.0.0.0/0,'' = Inr [ProxyNetwork (Network (V4 0) 0)]"
    by (simp add: parse_trusted_proxies_def parse_proxy_def trim_visible graphic_def demo_externals_def)
  obtain cfg where cfg: "config_from_env demo_externals ?env = Inr cfg"
    by (simp add: config_from_env_def Let_def proxies)
  then have "cf_trusted_proxies cfg = [ProxyNetwork (Network (V4 0) 0)]"
    by (auto simp: config_from_env_def Let_def proxies)
  with cfg configuration_within_bounds[OF cfg] show ?thesis by blast
qed

end
