(* ===== verification/Trusted_Proxies.thy ===== *)
theory Trusted_Proxies
  imports Config_Env
begin

text \<open>
  The proxies whose forwarding headers are believed (\<open>TrustedProxies\<close> in \<open>src/config.rs\<close>): the static
  networks, and the hostnames with the cache of what they last resolved to.  The resolver and the clock
  are parameters of each call: when the cache entry of a name is looked at, when its lookup ends, and
  what it answers.
\<close>

section \<open>The state\<close>

definition TRUSTED_PROXY_DNS_TTL :: nat where
  "TRUSTED_PROXY_DNS_TTL = 30 * NANOS_PER_SEC"

definition TRUSTED_PROXY_DNS_NEGATIVE_TTL :: nat where
  "TRUSTED_PROXY_DNS_NEGATIVE_TTL = 5 * NANOS_PER_SEC"

record hostname_entry =
  he_networks :: "network list"
  he_resolved :: bool
  he_at :: instant

text \<open>\<open>ResolvedProxies\<close>; the map is a list of entries with distinct names.\<close>

record resolved_proxies =
  rp_hosts :: "(string \<times> hostname_entry) list"
  rp_merged :: "network list"

record trusted_proxies =
  tp_spec :: "proxy_spec list"
  tp_networks :: "network list"
  tp_hostnames :: "string list"
  tp_ttl :: nat
  tp_negative_ttl :: nat
  tp_cache :: resolved_proxies

text \<open>One call's view of the outside: \<open>lk\_check\<close>, \<open>lk\_done\<close> and \<open>lk\_answer\<close> of each name.\<close>

record lookup =
  lk_first :: "string \<Rightarrow> instant" \<comment> \<open>the clock under the read lock\<close>
  lk_second :: "string \<Rightarrow> instant" \<comment> \<open>the clock under the write lock\<close>
  lk_check :: "string \<Rightarrow> instant" \<comment> \<open>the clock in \<open>refresh_stale\<close>\<close>
  lk_done :: "string \<Rightarrow> instant"
  lk_answer :: "string \<Rightarrow> ip list option" \<comment> \<open>\<open>None\<close> when the lookup fails\<close>

section \<open>Operations\<close>

definition is_fresh :: "nat \<Rightarrow> nat \<Rightarrow> instant \<Rightarrow> hostname_entry \<Rightarrow> bool" where
  "is_fresh positive negative now entry \<longleftrightarrow>
     now - he_at entry < (if he_resolved entry then positive else negative)"

definition trusted_proxies_new :: "proxy_spec list \<Rightarrow> trusted_proxies" where
  "trusted_proxies_new spec =
     (let networks = List.map_filter (\<lambda>e. case e of ProxyNetwork n \<Rightarrow> Some n | ProxyHostname _ \<Rightarrow> None) spec;
          hostnames = List.map_filter (\<lambda>e. case e of ProxyHostname h \<Rightarrow> Some h | ProxyNetwork _ \<Rightarrow> None) spec
      in \<lparr>tp_spec = spec, tp_networks = networks, tp_hostnames = hostnames, tp_ttl = TRUSTED_PROXY_DNS_TTL,
          tp_negative_ttl = TRUSTED_PROXY_DNS_NEGATIVE_TTL,
          tp_cache = \<lparr>rp_hosts = [], rp_merged = networks\<rparr>\<rparr>)"

definition trusted_proxies_from_raw :: "externals \<Rightarrow> string \<Rightarrow> trusted_proxy_error + trusted_proxies" where
  "trusted_proxies_from_raw X raw =
     check (parse_trusted_proxies X raw) (\<lambda>spec. Inr (trusted_proxies_new spec))"

definition entry_fresh :: "trusted_proxies \<Rightarrow> resolved_proxies \<Rightarrow> instant \<Rightarrow> string \<Rightarrow> bool" where
  "entry_fresh tp cache now hostname \<longleftrightarrow>
     (case map_of (rp_hosts cache) hostname of
        Some entry \<Rightarrow> is_fresh (tp_ttl tp) (tp_negative_ttl tp) now entry | None \<Rightarrow> False)"

definition all_fresh :: "trusted_proxies \<Rightarrow> resolved_proxies \<Rightarrow> (string \<Rightarrow> instant) \<Rightarrow> bool" where
  "all_fresh tp cache now \<longleftrightarrow> list_all (\<lambda>h. entry_fresh tp cache (now h) h) (tp_hostnames tp)"

text \<open>\<open>resolve\_hostname\<close>: no address at all counts as a failure.\<close>

definition resolve_hostname :: "ip list option \<Rightarrow> network list \<times> bool" where
  "resolve_hostname answer =
     (case answer of
        Some addrs \<Rightarrow>
          let networks = map (\<lambda>a. host_route (normalize_ip a)) addrs
          in if networks = [] then (networks, False) else (networks, True)
      | None \<Rightarrow> ([], False))"

text \<open>The loop over the names; the answer is the names that failed and whether an entry changed.\<close>

fun refresh_names ::
  "trusted_proxies \<Rightarrow> lookup \<Rightarrow> bool \<Rightarrow> string list \<Rightarrow> resolved_proxies \<Rightarrow>
     string list \<times> bool \<times> resolved_proxies" where
  "refresh_names tp L force [] cache = ([], False, cache)"
| "refresh_names tp L force (hostname # r) cache =
     (if \<not> force \<and> entry_fresh tp cache (lk_check L hostname) hostname
      then let failed = (case map_of (rp_hosts cache) hostname of
                 Some entry \<Rightarrow> if \<not> he_resolved entry then [hostname] else [] | None \<Rightarrow> []);
               (failed', changed, cache) = refresh_names tp L force r cache
           in (failed @ failed', changed, cache)
      else let (networks, resolved) = resolve_hostname (lk_answer L hostname);
               entry = \<lparr>he_networks = networks, he_resolved = resolved, he_at = lk_done L hostname\<rparr>;
               cache = cache\<lparr>rp_hosts := AList.update hostname entry (rp_hosts cache)\<rparr>;
               (failed', changed, cache) = refresh_names tp L force r cache
           in ((if \<not> resolved then [hostname] else []) @ failed', True, cache))"

definition refresh_stale ::
  "trusted_proxies \<Rightarrow> lookup \<Rightarrow> bool \<Rightarrow> resolved_proxies \<Rightarrow> string list \<times> resolved_proxies" where
  "refresh_stale tp L force cache =
     (let (failed, changed, cache) = refresh_names tp L force (tp_hostnames tp) cache
      in (failed,
          if changed
          then cache\<lparr>rp_merged := tp_networks tp @ concat (map (\<lambda>(_, entry). he_networks entry) (rp_hosts cache))\<rparr>
          else cache))"

definition proxies_resolved :: "lookup \<Rightarrow> trusted_proxies \<Rightarrow> network list \<times> trusted_proxies" where
  "proxies_resolved L tp =
     (if tp_hostnames tp = [] then (tp_networks tp, tp)
      else let cache = tp_cache tp
           in if all_fresh tp cache (lk_first L) then (rp_merged cache, tp)
              else if all_fresh tp cache (lk_second L) then (rp_merged cache, tp)
              else let (_, cache) = refresh_stale tp L False cache
                   in (rp_merged cache, tp\<lparr>tp_cache := cache\<rparr>))"

definition proxies_prime :: "lookup \<Rightarrow> trusted_proxies \<Rightarrow> string list \<times> trusted_proxies" where
  "proxies_prime L tp =
     (if tp_hostnames tp = [] then ([], tp)
      else let (failed, cache) = refresh_stale tp L True (tp_cache tp)
           in (failed, tp\<lparr>tp_cache := cache\<rparr>))"

section \<open>The cache\<close>

text \<open>The entry that a lookup of a name leaves.\<close>

definition made :: "lookup \<Rightarrow> string \<Rightarrow> hostname_entry" where
  "made L h = \<lparr>he_networks = fst (resolve_hostname (lk_answer L h)), he_resolved = snd (resolve_hostname (lk_answer L h)),
     he_at = lk_done L h\<rparr>"

lemma unresolved_contributes_nothing: "n \<in> set (he_networks (made L h)) \<Longrightarrow> he_resolved (made L h)"
  by (auto simp: made_def resolve_hostname_def Let_def split: option.splits if_splits)

lemma refresh_names_cons:
  "refresh_names tp L force (hostname # r) cache =
     (if \<not> force \<and> entry_fresh tp cache (lk_check L hostname) hostname
      then case refresh_names tp L force r cache of (failed, changed, cache') \<Rightarrow>
        ((case map_of (rp_hosts cache) hostname of
            Some entry \<Rightarrow> if \<not> he_resolved entry then [hostname] else [] | None \<Rightarrow> []) @ failed, changed, cache')
      else case refresh_names tp L force r (cache\<lparr>rp_hosts := AList.update hostname (made L hostname) (rp_hosts cache)\<rparr>) of
        (failed, changed, cache') \<Rightarrow>
          ((if \<not> he_resolved (made L hostname) then [hostname] else []) @ failed, True, cache'))"
  by (simp add: made_def split_beta Let_def)

text \<open>Every entry afterwards was looked up by this call, or was there and fresh when the call looked at it.\<close>

lemma refresh_names_spec:
  assumes "refresh_names tp L force hs cache = (failed, changed, cache')" and "distinct (map fst (rp_hosts cache))"
  shows "distinct (map fst (rp_hosts cache')) \<and> rp_merged cache' = rp_merged cache \<and> (\<not> changed \<longrightarrow> cache' = cache)
    \<and> (\<forall>(h, e)\<in>set (rp_hosts cache'). h \<in> set hs \<and> e = made L h
        \<or> (h, e) \<in> set (rp_hosts cache)
          \<and> (h \<in> set hs \<longrightarrow> is_fresh (tp_ttl tp) (tp_negative_ttl tp) (lk_check L h) e))"
  using assms
proof (induction hs arbitrary: cache failed changed cache')
  case (Cons hostname hs)
  show ?case
  proof (cases "\<not> force \<and> entry_fresh tp cache (lk_check L hostname) hostname")
    case True
    then obtain e where e: "map_of (rp_hosts cache) hostname = Some e"
      "is_fresh (tp_ttl tp) (tp_negative_ttl tp) (lk_check L hostname) e"
      by (auto simp: entry_fresh_def split: option.splits)
    from True Cons.prems obtain f where "refresh_names tp L force hs cache = (f, changed, cache')"
      by (auto simp: refresh_names_cons simp del: refresh_names.simps split: prod.splits)
    from Cons.IH[OF this Cons.prems(2)] e show ?thesis
      using Cons.prems(2) by (fastforce dest: map_of_is_SomeI)
  next
    case False
    let ?c = "cache\<lparr>rp_hosts := AList.update hostname (made L hostname) (rp_hosts cache)\<rparr>"
    from False Cons.prems obtain f ch where run: "refresh_names tp L force hs ?c = (f, ch, cache')" and "changed"
      by (auto simp: refresh_names_cons simp del: refresh_names.simps split: prod.splits if_splits)
    have d: "distinct (map fst (rp_hosts ?c))" using Cons.prems(2) by (simp add: distinct_update)
    have "h = hostname \<and> e = made L hostname \<or> h \<noteq> hostname \<and> (h, e) \<in> set (rp_hosts cache)"
      if "(h, e) \<in> set (rp_hosts ?c)" for h e
    proof -
      have "map_of (rp_hosts ?c) h = Some e" using that d by (simp add: map_of_is_SomeI)
      then show ?thesis by (auto simp: update_conv' dest: map_of_SomeD split: if_splits)
    qed
    with Cons.IH[OF run d] \<open>changed\<close> show ?thesis by fastforce
  qed
qed auto

section \<open>Any sequence of calls\<close>

datatype proxy_call = Resolve lookup | Prime lookup

fun call_lookup :: "proxy_call \<Rightarrow> lookup" where
  "call_lookup (Resolve L) = L"
| "call_lookup (Prime L) = L"

fun proxy_step :: "proxy_call \<Rightarrow> trusted_proxies \<Rightarrow> trusted_proxies" where
  "proxy_step (Resolve L) tp = snd (proxies_resolved L tp)"
| "proxy_step (Prime L) tp = snd (proxies_prime L tp)"

definition proxies_after :: "proxy_spec list \<Rightarrow> proxy_call list \<Rightarrow> trusted_proxies" where
  "proxies_after spec calls = fold proxy_step calls (trusted_proxies_new spec)"

text \<open>What a cache may hold after the lookups \<open>Ls\<close>.\<close>

definition cache_of :: "trusted_proxies \<Rightarrow> lookup set \<Rightarrow> resolved_proxies \<Rightarrow> bool" where
  "cache_of tp Ls cache \<longleftrightarrow> distinct (map fst (rp_hosts cache))
     \<and> (\<forall>(h, e)\<in>set (rp_hosts cache). h \<in> set (tp_hostnames tp) \<and> (\<exists>L\<in>Ls. e = made L h))
     \<and> set (rp_merged cache) = set (tp_networks tp) \<union> (\<Union>(h, e)\<in>set (rp_hosts cache). set (he_networks e))"

lemma refresh_stale_cache:
  assumes "cache_of tp Ls cache" and "refresh_stale tp L force cache = (failed, cache')"
  shows "cache_of tp (insert L Ls) cache'
    \<and> (\<forall>(h, e)\<in>set (rp_hosts cache'). e = made L h \<or> is_fresh (tp_ttl tp) (tp_negative_ttl tp) (lk_check L h) e)"
proof -
  obtain changed c where run: "refresh_names tp L force (tp_hostnames tp) cache = (failed, changed, c)"
    and c': "cache' = (if changed then c\<lparr>rp_merged := tp_networks tp
        @ concat (map (\<lambda>(_, entry). he_networks entry) (rp_hosts c))\<rparr> else c)"
    using assms(2) by (auto simp: refresh_stale_def split: prod.splits)
  have d: "distinct (map fst (rp_hosts cache))" using assms(1) by (simp add: cache_of_def)
  note spec = refresh_names_spec[OF run d]
  have hosts: "rp_hosts cache' = rp_hosts c" by (simp add: c')
  have merged: "set (rp_merged cache') = set (tp_networks tp) \<union> (\<Union>(h, e)\<in>set (rp_hosts cache'). set (he_networks e))"
    using spec assms(1) by (auto simp: c' cache_of_def)
  show ?thesis
    unfolding cache_of_def merged using spec assms(1) unfolding hosts cache_of_def by fastforce
qed

lemma cache_of_frame: "cache_of (tp\<lparr>tp_cache := c\<rparr>) Ls d = cache_of tp Ls d"
  by (simp add: cache_of_def)

lemma entry_fresh_frame: "entry_fresh (tp\<lparr>tp_cache := c\<rparr>) d now h = entry_fresh tp d now h"
  by (cases "map_of (rp_hosts d) h") (simp_all add: entry_fresh_def)

lemma all_fresh_frame: "all_fresh (tp\<lparr>tp_cache := c\<rparr>) d now = all_fresh tp d now"
  by (simp add: all_fresh_def entry_fresh_frame)

lemma cache_of_mono: "cache_of tp Ls c \<Longrightarrow> Ls \<subseteq> Ls' \<Longrightarrow> cache_of tp Ls' c"
  by (fastforce simp: cache_of_def)

lemma proxy_step_cache:
  assumes "cache_of tp Ls (tp_cache tp)"
  shows "cache_of tp (insert (call_lookup c) Ls) (tp_cache (proxy_step c tp))
    \<and> (\<exists>cache. proxy_step c tp = tp\<lparr>tp_cache := cache\<rparr>)"
proof -
  have same: "\<exists>cache. tp = tp\<lparr>tp_cache := cache\<rparr>" by (rule exI[of _ "tp_cache tp"]) simp
  have old: "cache_of tp (insert L Ls) (tp_cache tp)" for L using assms by (rule cache_of_mono) auto
  show ?thesis
  proof (cases c)
    case (Resolve L)
    with same old refresh_stale_cache[OF assms, of L False] show ?thesis
      by (auto simp: proxies_resolved_def Let_def split_beta) (metis prod.collapse)
  next
    case (Prime L)
    with same old refresh_stale_cache[OF assms, of L True] show ?thesis
      by (auto simp: proxies_prime_def Let_def split_beta) (metis prod.collapse)
  qed
qed

lemma proxies_after_cache:
  "\<exists>cache. proxies_after spec calls = (trusted_proxies_new spec)\<lparr>tp_cache := cache\<rparr>
     \<and> cache_of (trusted_proxies_new spec) (call_lookup ` set calls) cache"
proof (induction calls rule: rev_induct)
  case Nil
  have "proxies_after spec [] = (trusted_proxies_new spec)\<lparr>tp_cache := tp_cache (trusted_proxies_new spec)\<rparr>"
    by (simp add: proxies_after_def)
  moreover have "cache_of (trusted_proxies_new spec) {} (tp_cache (trusted_proxies_new spec))"
    by (simp add: cache_of_def trusted_proxies_new_def Let_def)
  ultimately show ?case by (intro exI[of _ "tp_cache (trusted_proxies_new spec)"]) simp
next
  case (snoc c calls)
  then obtain cache where tp: "proxies_after spec calls = (trusted_proxies_new spec)\<lparr>tp_cache := cache\<rparr>"
    and ok: "cache_of (trusted_proxies_new spec) (call_lookup ` set calls) cache" by blast
  have step: "proxies_after spec (calls @ [c]) = proxy_step c (proxies_after spec calls)"
    by (simp add: proxies_after_def)
  from proxy_step_cache[of "proxies_after spec calls" "call_lookup ` set calls" c] ok
  obtain cache' where "proxies_after spec (calls @ [c]) = (trusted_proxies_new spec)\<lparr>tp_cache := cache'\<rparr>"
    "cache_of (trusted_proxies_new spec) (insert (call_lookup c) (call_lookup ` set calls)) cache'"
    unfolding step tp cache_of_frame by fastforce
  then show ?case by auto
qed

lemma static_networks: "set (tp_networks (trusted_proxies_new spec)) = {n. ProxyNetwork n \<in> set spec}"
  by (force simp: trusted_proxies_new_def Let_def List.map_filter_def split: proxy_spec.splits)

lemma configured_names: "set (tp_hostnames (trusted_proxies_new spec)) = {h. ProxyHostname h \<in> set spec}"
  by (force simp: trusted_proxies_new_def Let_def List.map_filter_def split: proxy_spec.splits)

lemma ttls [simp]: "tp_ttl (trusted_proxies_new spec) = TRUSTED_PROXY_DNS_TTL"
  "tp_negative_ttl (trusted_proxies_new spec) = TRUSTED_PROXY_DNS_NEGATIVE_TTL"
  by (simp_all add: trusted_proxies_new_def Let_def)

lemma all_fresh_entry:
  assumes "all_fresh tp cache now" and "distinct (map fst (rp_hosts cache))" and "(h, e) \<in> set (rp_hosts cache)"
    and "h \<in> set (tp_hostnames tp)"
  shows "is_fresh (tp_ttl tp) (tp_negative_ttl tp) (now h) e"
  using assms by (auto simp: all_fresh_def list_all_iff entry_fresh_def map_of_is_SomeI dest!: bspec[of _ _ h])

text \<open>
  C18. A network whose forwarding headers are believed is one the operator wrote down, or an address that
  a configured hostname resolved to: in this very call, or in a lookup that had ended less than thirty
  seconds before the call looked at it.  So a name that stops resolving, or resolves elsewhere, is
  trusted for at most that long, and one whose lookup fails contributes nothing, after any sequence of
  calls.
\<close>

theorem trusted_networks_are_fresh:
  assumes "proxies_resolved L (proxies_after spec calls) = (networks, tp')" and "n \<in> set networks"
  shows "ProxyNetwork n \<in> set spec
    \<or> (\<exists>h L'. ProxyHostname h \<in> set spec \<and> L' \<in> insert L (call_lookup ` set calls)
         \<and> n \<in> set (fst (resolve_hostname (lk_answer L' h)))
         \<and> (L' = L \<or> (\<exists>now\<in>{lk_first L h, lk_second L h, lk_check L h}. now - lk_done L' h < 30 * NANOS_PER_SEC)))"
proof -
  let ?tp = "trusted_proxies_new spec"
  obtain cache where tp: "proxies_after spec calls = ?tp\<lparr>tp_cache := cache\<rparr>"
    and ok: "cache_of ?tp (call_lookup ` set calls) cache"
    using proxies_after_cache by blast
  have from_entry: ?thesis
    if "(h, made L' h) \<in> set (rp_hosts c)" and "n \<in> set (he_networks (made L' h))"
      and "cache_of ?tp Ls c" and "L' \<in> insert L (call_lookup ` set calls)"
      and "L' = L \<or> (\<exists>now\<in>{lk_first L h, lk_second L h, lk_check L h}.
        is_fresh TRUSTED_PROXY_DNS_TTL TRUSTED_PROXY_DNS_NEGATIVE_TTL now (made L' h))" for h L' c Ls
  proof -
    have "ProxyHostname h \<in> set spec" using that(1,3) configured_names unfolding cache_of_def by blast
    moreover have "he_resolved (made L' h)" using that(2) by (rule unresolved_contributes_nothing)
    ultimately show ?thesis
      using that(2,4,5) by (auto simp: is_fresh_def TRUSTED_PROXY_DNS_TTL_def made_def)
  qed
  show ?thesis
  proof (cases "n \<in> set (tp_networks ?tp)")
    case True
    then show ?thesis using static_networks by blast
  next
    case False
    then have hosts: "tp_hostnames ?tp \<noteq> []" and names: "tp_hostnames (?tp\<lparr>tp_cache := cache\<rparr>) = tp_hostnames ?tp"
      using assms by (auto simp: proxies_resolved_def tp)
    consider (fresh) now where "now \<in> {lk_first L, lk_second L}" "all_fresh ?tp cache now" "networks = rp_merged cache"
      | (stale) c failed where "refresh_stale (?tp\<lparr>tp_cache := cache\<rparr>) L False cache = (failed, c)" "networks = rp_merged c"
      using assms(1) hosts by (auto simp: proxies_resolved_def tp all_fresh_frame split: if_splits prod.splits)
    then show ?thesis
    proof cases
      case fresh
      with assms(2) False ok obtain h e where e: "(h, e) \<in> set (rp_hosts cache)" "n \<in> set (he_networks e)"
        by (auto simp: cache_of_def)
      with ok obtain L' where L': "e = made L' h" "L' \<in> call_lookup ` set calls" "h \<in> set (tp_hostnames ?tp)"
        by (fastforce simp: cache_of_def)
      have "is_fresh TRUSTED_PROXY_DNS_TTL TRUSTED_PROXY_DNS_NEGATIVE_TTL (now h) e"
        using all_fresh_entry[OF fresh(2) _ e(1) L'(3)] ok by (simp add: cache_of_def)
      with fresh(1) e L' ok show ?thesis by (intro from_entry) auto
    next
      case stale
      from refresh_stale_cache[OF _ stale(1)] ok
      have c: "cache_of ?tp (insert L (call_lookup ` set calls)) c"
        "\<forall>(h, e)\<in>set (rp_hosts c). e = made L h \<or> is_fresh TRUSTED_PROXY_DNS_TTL TRUSTED_PROXY_DNS_NEGATIVE_TTL (lk_check L h) e"
        by (simp_all add: cache_of_frame)
      with assms(2) False stale(2) obtain h e where e: "(h, e) \<in> set (rp_hosts c)" "n \<in> set (he_networks e)"
        by (auto simp: cache_of_def)
      with c(1) obtain L' where L': "e = made L' h" "L' \<in> insert L (call_lookup ` set calls)"
        by (fastforce simp: cache_of_def)
      have "e = made L h \<or> is_fresh TRUSTED_PROXY_DNS_TTL TRUSTED_PROXY_DNS_NEGATIVE_TTL (lk_check L h) e"
        using c(2) e(1) by blast
      then show ?thesis
      proof
        assume "e = made L h"
        with e show ?thesis by (intro from_entry[OF _ _ c(1), of h L]) auto
      next
        assume "is_fresh TRUSTED_PROXY_DNS_TTL TRUSTED_PROXY_DNS_NEGATIVE_TTL (lk_check L h) e"
        with e L' show ?thesis by (intro from_entry[OF _ _ c(1), of h L']) auto
      qed
    qed
  qed
qed

text \<open>One container name, looked up once, and asked for again after ten seconds.\<close>

definition demo_lookup :: "instant \<Rightarrow> lookup" where
  "demo_lookup t = \<lparr>lk_first = (\<lambda>_. t), lk_second = (\<lambda>_. t), lk_check = (\<lambda>_. t), lk_done = (\<lambda>_. t),
     lk_answer = (\<lambda>_. Some [V4 9])\<rparr>"

lemma demo_trusted:
  "fst (proxies_resolved (demo_lookup 10000000000) (proxies_after [ProxyHostname ''traefik''] [Resolve (demo_lookup 0)]))
     = [Network (V4 9) 32]"
  by (simp add: proxies_resolved_def proxies_after_def trusted_proxies_new_def List.map_filter_simps all_fresh_def
      entry_fresh_def refresh_stale_def demo_lookup_def resolve_hostname_def is_fresh_def
      TRUSTED_PROXY_DNS_TTL_def NANOS_PER_SEC_def)

theorem trusted_networks_are_fresh_witness:
  "\<exists>h L'. ProxyHostname h \<in> set [ProxyHostname ''traefik'']
     \<and> Network (V4 9) 32 \<in> set (fst (resolve_hostname (lk_answer L' h)))
     \<and> L' \<in> {demo_lookup 10000000000, demo_lookup 0}"
proof -
  let ?r = "proxies_resolved (demo_lookup 10000000000) (proxies_after [ProxyHostname ''traefik''] [Resolve (demo_lookup 0)])"
  have "?r = (fst ?r, snd ?r)" by simp
  moreover have "Network (V4 9) 32 \<in> set (fst ?r)" by (simp add: demo_trusted)
  ultimately show ?thesis
    using trusted_networks_are_fresh[of "demo_lookup 10000000000" "[ProxyHostname ''traefik'']" "[Resolve (demo_lookup 0)]"]
    by fastforce
qed

end
