(* ===== verification/Start_Up.thy ===== *)
theory Start_Up
  imports Trusted_Proxies System_Properties
begin

text \<open>
  How the process starts (\<open>src/main.rs\<close>): the configuration, the bootstrap of the master key, the pin,
  and the state the requests then run on (\<open>src/state.rs\<close>).  Connecting and migrating are a parameter:
  the database they end with, \<open>None\<close> when they fail.
\<close>

section \<open>Bootstrapping the master\<close>

datatype boot_error =
    ProxyConfiguration trusted_proxy_error
  | MasterKeySetting initial_master_key_error
  | NoDatabase
  | CipherKey crypto_error
  | SealFailed crypto_error
  | InsertFailed db_err
  | PinFailed master_pin_error

definition master_row :: "env \<Rightarrow> string option \<Rightarrow> string \<Rightarrow> string \<Rightarrow> string \<Rightarrow> api_key" where
  "master_row E subnet plaintext_key key_id sealed =
     \<lparr>ak_id = ev_uuid E 0, ak_name = ''System Master'', ak_key_hash = hash_key (ev_ext E) plaintext_key,
      ak_prefix = take 8 plaintext_key, ak_key_id = Some key_id, ak_signing_secret = Some sealed,
      ak_hmac_mode = HmacCanonicalV1, ak_bound_ips = Some (unwrap_or subnet ''0.0.0.0/0,::/0''),
      ak_max_concurrent_jobs = 10, ak_is_master = True, ak_can_manage_keys = True,
      ak_can_manage_hooks = True, ak_parent_key_id = None, ak_created_at = ev_now E 0,
      ak_updated_at = ev_now E 0, ak_canonical_template = None\<rparr>"

definition bootstrap_master_key ::
  "env \<Rightarrow> string option \<Rightarrow> secret_cipher \<Rightarrow> string option \<Rightarrow> database \<Rightarrow> (boot_error + unit) \<times> database" where
  "bootstrap_master_key E subnet cipher initial_master_key db =
     (if List.find ak_is_master (db_keys db) \<noteq> None then (Inr (), db)
      else let plaintext_key = unwrap_or initial_master_key (generate_random_key E 0);
               key_id = generate_key_id E 1;
               signing_secret = generate_signing_secret (ev_ext E) (ev_rand E 2)
           in case seal (ev_ext E) cipher (ev_rand E 3) signing_secret of
                Inl e \<Rightarrow> (Inl (SealFailed e), db)
              | Inr sealed \<Rightarrow>
                  (case insert_key (master_row E subnet plaintext_key key_id sealed) db of
                     Inl e \<Rightarrow> (Inl (InsertFailed e), db)
                   | Inr db \<Rightarrow> (Inr (), db)))"

section \<open>Priming the proxies\<close>

text \<open>
  The background task of \<open>prime\_trusted\_proxies\<close>: a first resolution, and a second one after the grace
  period when a name failed.  The answer is the names it reports as unresolved in the end.
\<close>

definition prime_trusted_proxies :: "lookup \<Rightarrow> lookup \<Rightarrow> trusted_proxies \<Rightarrow> string list \<times> trusted_proxies" where
  "prime_trusted_proxies L L' tp =
     (if tp_spec tp = [] then ([], tp)
      else let (unresolved, tp) = proxies_prime L tp
           in if unresolved = [] then ([], tp) else proxies_prime L' tp)"

section \<open>Start\<close>

text \<open>\<open>AppState::new\<close>: nothing pinned, an empty replay guard over the configured window.\<close>

definition app_state_new :: "runtime_config \<Rightarrow> instant \<Rightarrow> auth_state" where
  "app_state_new cfg now =
     \<lparr>au_pin = None, au_replay = replay_guard_new (sint (cf_signature_max_age_seconds cfg)) now\<rparr>"

definition start ::
  "env \<Rightarrow> variables \<Rightarrow> database option \<Rightarrow> bool \<Rightarrow> instant \<Rightarrow>
     (boot_error + runtime_config \<times> secret_cipher \<times> auth_state) \<times> database option" where
  "start E vars migrated has_index now =
     attempt (map_err ProxyConfiguration (config_from_env (ev_ext E) vars)) migrated (\<lambda>cfg.
     attempt (map_err MasterKeySetting (validate_initial_master_key (vars ''INITIAL_MASTER_KEY''))) migrated
       (\<lambda>initial_master_key.
     case migrated of
       None \<Rightarrow> (Inl NoDatabase, None)
     | Some db \<Rightarrow>
         attempt (map_err CipherKey (cipher_from_env (ev_ext E) (vars ''SIGNING_SECRET_KEY'')
             (vars ''VAULT_ENCRYPTION_KEY''))) (Some db) (\<lambda>cipher.
         case bootstrap_master_key E (vars ''BOOTSTRAP_SUBNET'') cipher initial_master_key db of
           (Inl e, db) \<Rightarrow> (Inl e, Some db)
         | (Inr _, db) \<Rightarrow>
             let au = app_state_new cfg now in
             (case pin_at_boot has_index db (au_pin au) of
                (Inl e, pin) \<Rightarrow> (Inl (PinFailed e), Some db)
              | (Inr _, pin) \<Rightarrow> (Inr (cfg, cipher, au\<lparr>au_pin := pin\<rparr>), Some db)))))"

section \<open>The pin along a history\<close>

lemma bearer_pinned: "au_pin au = Some p \<Longrightarrow> au_pin (snd (authenticate_bearer_key E t rq h pk ip db au)) = Some p"
  by (rule bearer_pin[OF refl])

lemma auth_middleware_pin:
  assumes "au_pin au = Some p"
  shows "au_pin (snd (auth_middleware E t trusted rq db au)) = Some p"
  unfolding auth_middleware_def Let_def
  by (intro state_attempt[where P = "\<lambda>au. au_pin au = Some p"] state_and_then[where P = "\<lambda>au. au_pin au = Some p"]
      state_pair[where P = "\<lambda>au. au_pin au = Some p"] bearer_pinned assms)

lemma invocation_pin:
  assumes "au_pin au = Some p"
  shows "au_pin (snd (invocation_auth_middleware E t trusted rq db au)) = Some p"
proof (cases "header_str (rq_headers rq) API_KEY_HEADER")
  case None
  with assms show ?thesis
    by (auto simp: invocation_auth_middleware_def Let_def attempt_def split: sum.splits option.splits)
next
  case (Some presented)
  let ?a = "\<lambda>ip. authenticate_bearer_key E t rq (invocation_target E db rq) presented ip db au"
  have "au_pin (snd (?a ip)) = Some p" for ip by (rule bearer_pinned[OF assms])
  with Some show ?thesis
    by (auto simp: invocation_auth_middleware_def Let_def attempt_def split_beta split: sum.splits)
qed

lemma admin_request_pin:
  "au_pin (snd s) = Some p \<Longrightarrow> au_pin (snd (snd (admin_request E E' t trusted rq call s))) = Some p"
  using auth_middleware_pin[of "snd s" p E t trusted rq "fst s"]
  by (auto simp: admin_request_def split_beta split: sum.splits)

lemma react_pin: "au_pin (snd s) = Some p \<Longrightarrow> au_pin (snd (react e s)) = Some p"
proof (cases e)
  case (Invocation E E' H t trusted rq ident L)
  moreover assume "au_pin (snd s) = Some p"
  ultimately show ?thesis using invocation_pin[of "snd s" p E t trusted rq "fst s"]
    by (auto simp: invocation_request_def split_beta split: sum.splits)
qed (auto simp: admin_request_pin split: option.splits)

lemma history_pin: "au_pin (snd s) = Some p \<Longrightarrow> au_pin (snd (history es s)) = Some p"
  by (induction es s rule: history.induct) (auto intro: react_pin)

section \<open>What a start establishes\<close>

lemma bootstrap_forest:
  assumes "forest db" and "insert_key r db = Inr db'" and "ak_parent_key_id r = None"
  shows "forest db'"
proof -
  from insert_key_rows[OF assms(2)] have rows: "db_keys db' = db_keys db @ [r]" by simp
  then have "parent_rel db' = parent_rel db" using assms(3) by (auto simp: parent_rel_def)
  with assms rows show ?thesis by (auto simp: forest_def key_exists_def)
qed

lemma pin_at_boot_ok:
  "pin_at_boot has_index db None = (Inr i, pin) \<longleftrightarrow> has_index \<and> pin = Some i \<and> (\<exists>m. masters db = [m] \<and> i = ak_id m)"
  by (auto simp: pin_at_boot_def resolve_inner_def masters_def cell_set_def attempt_def
      split: sum.splits list.splits)

lemma start_ok:
  assumes "start E vars (Some db) has_index now = (Inr (cfg, cipher, au), db')"
  obtains d initial i where "db' = Some d" "config_from_env (ev_ext E) vars = Inr cfg"
    "bootstrap_master_key E (vars ''BOOTSTRAP_SUBNET'') cipher initial db = (Inr (), d)"
    "pin_at_boot has_index d None = (Inr i, au_pin au)"
    "au_replay au = au_replay (app_state_new cfg now)"
proof -
  from assms obtain c k initial where cfg: "config_from_env (ev_ext E) vars = Inr c"
    and rest: "(case bootstrap_master_key E (vars ''BOOTSTRAP_SUBNET'') k initial db of
           (Inl e, db) \<Rightarrow> (Inl e, Some db)
         | (Inr _, db) \<Rightarrow>
             (case pin_at_boot has_index db (au_pin (app_state_new c now)) of
                (Inl e, pin) \<Rightarrow> (Inl (PinFailed e), Some db)
              | (Inr _, pin) \<Rightarrow> (Inr (c, k, (app_state_new c now)\<lparr>au_pin := pin\<rparr>), Some db)))
         = (Inr (cfg, cipher, au), db')"
    unfolding start_def attempt_ok option.case Let_def map_err_ok by (elim exE conjE) blast
  obtain r d where boot: "bootstrap_master_key E (vars ''BOOTSTRAP_SUBNET'') k initial db = (r, d)" by fastforce
  obtain q pin where pin: "pin_at_boot has_index d None = (q, pin)" by fastforce
  from rest show thesis
    unfolding boot prod.case using cfg pin boot that
    by (cases r; cases q) (auto simp: app_state_new_def)
qed

lemma bootstrap_sound:
  assumes "wf_db db" and "forest db" and "bootstrap_master_key E subnet cipher initial db = (Inr (), d)"
  shows "wf_db d \<and> forest d \<and> (masters db \<noteq> [] \<longrightarrow> d = db) \<and> (masters db = [] \<longrightarrow>
    (\<exists>m. d = db\<lparr>db_keys := db_keys db @ [m]\<rparr> \<and> ak_is_master m \<and> ak_can_manage_keys m \<and> ak_can_manage_hooks m))"
proof (cases "masters db = []")
  case False
  then have "List.find ak_is_master (db_keys db) \<noteq> None" by (auto simp: masters_def find_None_iff filter_empty_conv)
  with assms False show ?thesis by (simp add: bootstrap_master_key_def)
next
  case True
  then have none: "List.find ak_is_master (db_keys db) = None" by (auto simp: masters_def find_None_iff filter_empty_conv)
  with assms(3) obtain p k s where ins: "insert_key (master_row E subnet p k s) db = Inr d"
    by (auto simp: bootstrap_master_key_def Let_def split: sum.splits)
  have "ak_parent_key_id (master_row E subnet p k s) = None" by (simp add: master_row_def)
  with ins assms(1,2) have "wf_db d" "forest d" using insert_key_wf bootstrap_forest by blast+
  moreover have "d = db\<lparr>db_keys := db_keys db @ [master_row E subnet p k s]\<rparr>" using insert_key_shape[OF ins] .
  ultimately show ?thesis using True by (auto simp: master_row_def)
qed

text \<open>
  C2. A process that has started serves with exactly one master: the one the database had, with the
  database untouched, or a new one minted because it had none; the process is pinned to its id.  From then
  on, over any history of requests and sweeps, the constraints and the key forest hold, there is still
  exactly one master, it is that row but for its address binding, and the pin has not moved.
\<close>

theorem start_establishes_the_master:
  assumes "wf_db db" and "forest db"
    and "start E vars (Some db) has_index now = (Inr (cfg, cipher, au), Some db')"
    and "\<forall>e\<in>set es. well_formed_event e"
  shows "\<exists>m. masters db' = [m] \<and> au_pin au = Some (ak_id m)
    \<and> (masters db \<noteq> [] \<longrightarrow> db' = db) \<and> (masters db = [] \<longrightarrow> db_keys db' = db_keys db @ [m])
    \<and> wf_db (fst (history es (db', au))) \<and> forest (fst (history es (db', au)))
    \<and> map frozen (masters (fst (history es (db', au)))) = [frozen m]
    \<and> au_pin (snd (history es (db', au))) = Some (ak_id m)"
proof -
  from assms(3) obtain initial i where boot: "bootstrap_master_key E (vars ''BOOTSTRAP_SUBNET'') cipher initial db = (Inr (), db')"
    and pin: "pin_at_boot has_index db' None = (Inr i, au_pin au)"
    by (rule start_ok) simp
  from pin obtain m where m: "masters db' = [m]" "au_pin au = Some (ak_id m)" unfolding pin_at_boot_ok by blast
  note sound = bootstrap_sound[OF assms(1,2) boot]
  have "db_keys db' = db_keys db @ [m]" if "masters db = []"
  proof -
    from sound that obtain m' where d: "db_keys db' = db_keys db @ [m']" "ak_is_master m'" by auto
    then have "masters db' = masters db @ [m']" by (simp add: masters_def)
    with d m that show ?thesis by simp
  qed
  moreover have "wf_db (fst (db', au))" "forest (fst (db', au))" using sound by simp_all
  note kept = history_keeps[OF this assms(4)]
  moreover have "au_pin (snd (history es (db', au))) = Some (ak_id m)" using m(2) by (intro history_pin) simp
  ultimately show ?thesis using m sound by auto
qed

text \<open>The first start, on an empty database.\<close>

definition empty_db :: database where
  "empty_db = \<lparr>db_keys = [], db_hooks = [], db_params = [], db_perms = [], db_execs = [], db_audit = []\<rparr>"

theorem start_establishes_the_master_witness:
  "\<exists>cfg cipher au db' m. start demo_env (\<lambda>_. None) (Some empty_db) True 0 = (Inr (cfg, cipher, au), Some db')
     \<and> db_keys db' = [m] \<and> ak_is_master m \<and> au_pin (snd (history [Sweep demo_externals cfg 0 0] (db', au))) = Some (ak_id m)"
proof -
  have empty: "wf_db empty_db" "forest empty_db" "masters empty_db = []"
    by (simp_all add: empty_db_def wf_db_def wf_tables_def forest_def parent_rel_def masters_def acyclic_def)
  have proxies: "parse_trusted_proxies demo_externals [] = Inr []"
    by (simp add: parse_trusted_proxies_def trim_visible)
  obtain cfg cipher au db' where go: "start demo_env (\<lambda>_. None) (Some empty_db) True 0 = (Inr (cfg, cipher, au), Some db')"
    by (simp add: start_def config_from_env_def Let_def proxies validate_initial_master_key_def cipher_from_env_def
        bootstrap_master_key_def empty_db_def insert_key_def master_row_def app_state_new_def
        pin_at_boot_def resolve_inner_def cell_set_def map_err_def)
  from start_establishes_the_master[OF empty(1,2) go, of "[Sweep demo_externals cfg 0 0]"] obtain m where
    "masters db' = [m]" "db_keys db' = db_keys empty_db @ [m]"
    "au_pin (snd (history [Sweep demo_externals cfg 0 0] (db', au))) = Some (ak_id m)"
    using empty(3) by auto
  then show ?thesis using go by (auto simp: masters_def empty_db_def split: if_splits)
qed

end
