(* ===== verification/Reports.thy ===== *)
theory Reports
  imports Executions Hooks Trusted_Proxies Authentication Demo_Data
begin

text \<open>
  The read-only endpoints over the stored rows: the audit listing (\<open>src/api/audit.rs\<close>), the settings page
  (\<open>src/api/system.rs\<close>) and the probes (\<open>src/api/health.rs\<close>); and what the listings of \<open>Executions\<close> and
  \<open>Hooks\<close> show, compared with reading one row.
\<close>

section \<open>The audit log\<close>

record audit_log_query =
  aq_action :: "string option"
  aq_client_ip :: "string option"
  aq_api_key :: "string option"
  aq_since :: "string option"
  aq_until :: "string option"
  aq_limit :: "nat option"
  aq_offset :: "nat option"

definition list_audit_logs ::
  "externals \<Rightarrow> api_key \<Rightarrow> audit_log_query \<Rightarrow> database \<Rightarrow> audit_log list result" where
  "list_audit_logs X key query db =
     check (require (ak_is_master key) (Forbidden ''Only master keys can view audit logs'')) (\<lambda>_.
     let by_action = (case filled (aq_action query) of
           Some action \<Rightarrow> (\<lambda>l. al_action l = action) | None \<Rightarrow> (\<lambda>_. True));
         by_ip = (case filled (aq_client_ip query) of
           Some client_ip \<Rightarrow> (\<lambda>l. x_sql_like X (''%'' @ client_ip @ ''%'') (al_client_ip l))
         | None \<Rightarrow> (\<lambda>_. True));
         by_key = (case filled (aq_api_key query) of
           Some raw \<Rightarrow> (\<lambda>l. case al_api_key_id l of
               Some i \<Rightarrow> i \<in> set (resolve_api_key_filter X db raw) | None \<Rightarrow> False)
         | None \<Rightarrow> (\<lambda>_. True)) in
     check (case filled (aq_since query) of
        Some since \<Rightarrow> check (parse_instant X ''since'' since) (\<lambda>t. Inr (\<lambda>l. t \<le> al_timestamp l))
      | None \<Rightarrow> Inr (\<lambda>_. True)) (\<lambda>by_since.
     check (case filled (aq_until query) of
        Some until \<Rightarrow> check (parse_instant X ''until'' until) (\<lambda>t. Inr (\<lambda>l. al_timestamp l < t))
      | None \<Rightarrow> Inr (\<lambda>_. True)) (\<lambda>by_until.
     Inr (take (unwrap_or (aq_limit query) DEFAULT_PAGE_LIMIT)
           (drop (unwrap_or (aq_offset query) 0)
             (sort_key (\<lambda>l. - al_timestamp l)
               (filter (\<lambda>l. by_action l \<and> by_ip l \<and> by_key l \<and> by_since l \<and> by_until l) (db_audit db))))))))"

section \<open>Settings\<close>

record settings_response =
  sr_allowed_env_vars :: "string list"
  sr_allowed_script_roots :: "string list"
  sr_trusted_proxies :: "string list"
  sr_log_retention_days :: int
  sr_deleted_hook_retention_days :: int
  sr_retention_sweep_seconds :: nat
  sr_max_output_bytes :: nat
  sr_signature_max_age_seconds :: "64 word"
  sr_require_signed_requests :: bool
  sr_keyless_hooks_allowed :: bool
  sr_signing_secrets_encrypted :: bool
  sr_hook_count :: nat
  sr_api_key_count :: nat
  sr_execution_count :: nat

text \<open>\<open>ProxySpec::fmt\<close>; the text of a network is the \<open>ipnetwork\<close> crate's, a parameter.\<close>

fun proxy_spec_text :: "(network \<Rightarrow> string) \<Rightarrow> proxy_spec \<Rightarrow> string" where
  "proxy_spec_text network_text (ProxyNetwork network) = network_text network"
| "proxy_spec_text network_text (ProxyHostname name) = name"

definition get_settings ::
  "(network \<Rightarrow> string) \<Rightarrow> runtime_config \<Rightarrow> secret_cipher \<Rightarrow> api_key \<Rightarrow> database \<Rightarrow> settings_response result" where
  "get_settings network_text cfg cipher key db =
     check (require (ak_is_master key) (Forbidden ''Only master keys can view system settings'')) (\<lambda>_.
     Inr \<lparr>sr_allowed_env_vars = cf_allowed_env_vars cfg,
          sr_allowed_script_roots = cf_allowed_script_roots cfg,
          sr_trusted_proxies = map (proxy_spec_text network_text) (cf_trusted_proxies cfg),
          sr_log_retention_days = cf_log_retention_days cfg,
          sr_deleted_hook_retention_days = cf_deleted_hook_retention_days cfg,
          sr_retention_sweep_seconds = cf_retention_sweep_seconds cfg,
          sr_max_output_bytes = cf_max_output_bytes cfg,
          sr_signature_max_age_seconds = cf_signature_max_age_seconds cfg,
          sr_require_signed_requests = cf_require_signed_requests cfg,
          sr_keyless_hooks_allowed = (\<not> cf_require_signed_requests cfg),
          sr_signing_secrets_encrypted = is_encrypting cipher,
          sr_hook_count = length (db_hooks db),
          sr_api_key_count = length (db_keys db),
          sr_execution_count = length (db_execs db)\<rparr>)"

section \<open>Probes\<close>

definition health_check :: "nat \<times> json" where
  "health_check =
     (200, JObject [(''status'', JString ''ok''), (''service'', JString ''simply_hook_executor'')])"

text \<open>The database answers or not (\<open>reachable\<close>); the pin is the process's.\<close>

definition readiness_check :: "bool \<Rightarrow> auth_state \<Rightarrow> nat \<times> json" where
  "readiness_check reachable au =
     (if \<not> reachable
      then (503, JObject [(''status'', JString ''unavailable''), (''database'', JString ''down'')])
      else if au_pin au = None
      then (503, JObject [(''status'', JString ''unavailable''), (''database'', JString ''up'')])
      else (200, JObject [(''status'', JString ''ready''), (''database'', JString ''up'')]))"

lemma ready_iff: "fst (readiness_check reachable au) = 200 \<longleftrightarrow> reachable \<and> (\<exists>p. au_pin au = Some p)"
  by (auto simp: readiness_check_def)

section \<open>Pages\<close>

text \<open>A page of a sorted table: its rows are rows of the table, in order, each once.\<close>

lemma page_subset: "set (take n (drop m (sort_key f xs))) \<subseteq> set xs"
  using set_take_subset[of n "drop m (sort_key f xs)"] set_drop_subset[of m "sort_key f xs"] by auto

lemma page_sorted: "sorted (map f (take n (drop m (sort_key f xs))))"
  unfolding take_map[symmetric] drop_map[symmetric]
  by (intro sorted_wrt_take sorted_wrt_drop sorted_sort_key)

lemma page_distinct:
  assumes "distinct (map g xs)"
  shows "distinct (map g (take n (drop m (sort_key f xs))))"
proof -
  have "distinct (map g (sort_key f xs))" using assms by (simp add: distinct_map)
  then show ?thesis unfolding take_map[symmetric] drop_map[symmetric] by (intro distinct_take distinct_drop)
qed

lemma page_all: "length xs \<le> n \<Longrightarrow> set (take n (drop 0 (sort_key f xs))) = set xs"
  by simp

section \<open>The audit log is the master's, in order, without gaps\<close>

lemma audit_listing:
  assumes "list_audit_logs X key query db = Inr logs"
  shows "ak_is_master key" and "set logs \<subseteq> set (db_audit db)" and "sorted (map (\<lambda>l. - al_timestamp l) logs)"
proof -
  from assms obtain ok n m where master: "ak_is_master key"
    and logs: "logs = take n (drop m (sort_key (\<lambda>l. - al_timestamp l) (filter ok (db_audit db))))"
    by (auto simp: list_audit_logs_def Let_def early_return)
  show "ak_is_master key" by (rule master)
  show "set logs \<subseteq> set (db_audit db)"
    using page_subset[of n m "\<lambda>l. - al_timestamp l" "filter ok (db_audit db)"] logs by auto
  show "sorted (map (\<lambda>l. - al_timestamp l) logs)" unfolding logs by (rule page_sorted)
qed

section \<open>Listing executions and reading one\<close>

lemma member_remdups_adj_sort: "x \<in> set (remdups_adj (sort xs)) \<longleftrightarrow> x \<in> set xs"
  by simp

lemma granted_iff:
  assumes "wf_db db"
  shows "i \<in> set (granted_hook_ids db k verb) \<longleftrightarrow> (\<exists>p. hook_permission db k i = Some p \<and> verb p)"
  by (auto simp: granted_hook_ids_def hook_permission_iff[OF assms] image_iff)

lemma owned_iff:
  assumes "wf_db db"
  shows "i \<in> set (owned_hook_ids db k) \<longleftrightarrow> (\<exists>h. find_hook db i = Some h \<and> hk_owner_key_id h = Some k)"
  by (auto simp: owned_hook_ids_def find_hook_iff_row[OF assms])

lemma execution_visible_iff:
  "wf_db db \<Longrightarrow> execution_visible db key e \<longleftrightarrow> may_read_execution db key e"
  by (auto simp: execution_visible_def may_read_execution_def execution_visible_hook_ids_def
      member_remdups_adj_sort granted_iff owned_iff split: option.splits)

lemma get_execution_ok:
  assumes "wf_db db"
  shows "get_execution X key i db = Inr v \<longleftrightarrow> (\<exists>e\<in>set (db_execs db). ex_id e = i \<and> execution_visible db key e
    \<and> v = execution_view_new X e (hook_name_of db (ex_hook_id e)) (key_name_of db (ex_api_key_id e)))"
  by (auto simp: get_execution_def early_return execution_visible_iff[OF assms] find_exec_def
      execs.find_iff[OF assms])

definition unfiltered :: "execution_query \<Rightarrow> bool" where
  "unfiltered q \<longleftrightarrow> filled (eq_hook q) = None \<and> filled (eq_status q) = None \<and> filled (eq_api_key q) = None
     \<and> filled (eq_since q) = None \<and> filled (eq_until q) = None \<and> unwrap_or (eq_offset q) 0 = 0"

lemma list_executions_ok:
  assumes "list_executions X key query db = Inr views"
  obtains ok where
    "views = map (\<lambda>e. execution_view_new X e (hook_name_of db (ex_hook_id e)) (key_name_of db (ex_api_key_id e)))
       (take (unwrap_or (eq_limit query) DEFAULT_PAGE_LIMIT) (drop (unwrap_or (eq_offset query) 0)
         (sort_key (\<lambda>e. - ex_timestamp e) (filter (\<lambda>e. execution_visible db key e \<and> ok e) (db_execs db)))))"
    and "unfiltered query \<Longrightarrow> ok = (\<lambda>_. True)"
proof -
  from assms obtain h st k si u where
    "views = map (\<lambda>e. execution_view_new X e (hook_name_of db (ex_hook_id e)) (key_name_of db (ex_api_key_id e)))
       (take (unwrap_or (eq_limit query) DEFAULT_PAGE_LIMIT) (drop (unwrap_or (eq_offset query) 0)
         (sort_key (\<lambda>e. - ex_timestamp e)
           (filter (\<lambda>e. execution_visible db key e \<and> h e \<and> st e \<and> k e \<and> si e \<and> u e) (db_execs db)))))"
    and "unfiltered query \<Longrightarrow> h = (\<lambda>_. True) \<and> st = (\<lambda>_. True) \<and> k = (\<lambda>_. True) \<and> si = (\<lambda>_. True) \<and> u = (\<lambda>_. True)"
    unfolding list_executions_def check_ok Let_def sum.inject
    by (elim exE conjE) (rule that, erule sym, simp add: unfiltered_def)
  then show thesis using that[of "\<lambda>e. h e \<and> st e \<and> k e \<and> si e \<and> u e"] by (simp add: fun_eq_iff)
qed

text \<open>
  C39. Listing executions shows exactly what reading them one by one shows.  Under any filter and page, each
  listed view is what \<open>get\_execution\<close> answers for its id, no record appears twice, the page is no longer
  than the limit, and the views are in order of time, latest first; and a listing without filters whose
  limit covers the table holds every record the caller can read.
\<close>

theorem executions_listed_iff_readable:
  assumes "wf_db db" and "list_executions X key query db = Inr views"
  shows "(\<forall>v\<in>set views. get_execution X key (ev_id v) db = Inr v) \<and> distinct (map ev_id views)
    \<and> sorted (map (\<lambda>v. - ev_timestamp v) views)
    \<and> length views \<le> unwrap_or (eq_limit query) DEFAULT_PAGE_LIMIT
    \<and> (unfiltered query \<and> length (db_execs db) \<le> unwrap_or (eq_limit query) DEFAULT_PAGE_LIMIT
       \<longrightarrow> (\<forall>i v. get_execution X key i db = Inr v \<longrightarrow> v \<in> set views))"
proof -
  let ?view = "\<lambda>e. execution_view_new X e (hook_name_of db (ex_hook_id e)) (key_name_of db (ex_api_key_id e))"
  let ?n = "unwrap_or (eq_limit query) DEFAULT_PAGE_LIMIT" and ?m = "unwrap_or (eq_offset query) 0"
  from assms(2) obtain ok where views: "views = map ?view (take ?n (drop ?m (sort_key (\<lambda>e. - ex_timestamp e)
      (filter (\<lambda>e. execution_visible db key e \<and> ok e) (db_execs db)))))"
    and plain: "unfiltered query \<Longrightarrow> ok = (\<lambda>_. True)" by (rule list_executions_ok) (rule that)
  let ?rows = "filter (\<lambda>e. execution_visible db key e \<and> ok e) (db_execs db)"
  let ?page = "take ?n (drop ?m (sort_key (\<lambda>e. - ex_timestamp e) ?rows))"
  have id: "ev_id \<circ> ?view = ex_id" and time: "(\<lambda>v. - ev_timestamp v) \<circ> ?view = (\<lambda>e. - ex_timestamp e)"
    by (simp_all add: fun_eq_iff execution_view_new_def)
  have "get_execution X key (ev_id v) db = Inr v" if "v \<in> set views" for v
  proof -
    from that obtain e where "e \<in> set ?page" "v = ?view e" by (auto simp: views)
    with page_subset[of ?n ?m _ ?rows] show ?thesis
      unfolding get_execution_ok[OF assms(1)] by (auto simp: execution_view_new_def)
  qed
  moreover have "distinct (map ev_id views)"
    unfolding views map_map id using assms(1) by (intro page_distinct distinct_map_filter) (simp add: wf_db_def wf_execs_def)
  moreover have "sorted (map (\<lambda>v. - ev_timestamp v) views)" unfolding views map_map time by (rule page_sorted)
  moreover have "length views \<le> ?n" by (simp add: views)
  moreover have "v \<in> set views" if "unfiltered query" "length (db_execs db) \<le> ?n" "get_execution X key i db = Inr v" for i v
  proof -
    have rows: "length ?rows \<le> ?n" using that(2) length_filter_le[of _ "db_execs db"] by (rule order_trans[rotated])
    have "?m = 0" "ok = (\<lambda>_. True)" using that(1) plain by (simp_all add: unfiltered_def)
    with page_all[OF rows, of "\<lambda>e. - ex_timestamp e"] show ?thesis
      using that(3) unfolding get_execution_ok[OF assms(1)] by (auto simp: views)
  qed
  ultimately show ?thesis by blast
qed

section \<open>Listing hooks and reading one\<close>

definition sees_hook :: "database \<Rightarrow> api_key \<Rightarrow> bool option \<Rightarrow> hook \<Rightarrow> bool" where
  "sees_hook db key deleted h \<longleftrightarrow> h \<in> set (db_hooks db) \<and> (unwrap_or deleted False \<or> \<not> hk_is_deleted h)
     \<and> guard_visibility db key h = Inr ()"

lemma visible_ids_iff:
  assumes "wf_db db" and "h \<in> set (db_hooks db)"
  shows "(case visible_hook_ids db key of Some ids \<Rightarrow> hk_id h \<in> set ids | None \<Rightarrow> True)
    \<longleftrightarrow> guard_visibility db key h = Inr ()"
proof -
  have "find_hook db (hk_id h) = Some h" using assms by (simp add: find_hook_iff_row)
  then show ?thesis
    by (auto simp: visible_hook_ids_def guard_visibility_ok granted_iff[OF assms(1)] owned_iff[OF assms(1)])
qed

lemma list_hooks_ok:
  assumes "wf_db db" and "list_hooks key deleted db = Inr details"
  shows "details = map (build_hook_detail db key) (sort_key hk_name (filter (sees_hook db key deleted) (db_hooks db)))"
    and "guard_master_for_deleted_view key (unwrap_or deleted False) = Inr ()"
proof -
  let ?all = "filter (\<lambda>h. unwrap_or deleted False \<or> \<not> hk_is_deleted h) (db_hooks db)"
  let ?ok = "\<lambda>h. case visible_hook_ids db key of Some ids \<Rightarrow> hk_id h \<in> set ids | None \<Rightarrow> True"
  from assms(2) show "guard_master_for_deleted_view key (unwrap_or deleted False) = Inr ()"
    by (auto simp: list_hooks_def Let_def early_return)
  from assms(2) have "details = map (build_hook_detail db key) (filter ?ok (sort_key hk_name ?all))"
    by (auto simp: list_hooks_def Let_def early_return split: option.splits if_splits)
  also have "filter ?ok (sort_key hk_name ?all) = sort_key hk_name (filter ?ok ?all)" by (rule filter_sort)
  also have "filter ?ok ?all = filter (sees_hook db key deleted) (db_hooks db)"
    unfolding filter_filter by (rule filter_cong) (auto simp: sees_hook_def visible_ids_iff[OF assms(1)])
  finally show "details = map (build_hook_detail db key) (sort_key hk_name (filter (sees_hook db key deleted) (db_hooks db)))" .
qed

lemma get_hook_ok:
  "get_hook X key s deleted db = Inr d \<longleftrightarrow> guard_master_for_deleted_view key (unwrap_or deleted False) = Inr ()
     \<and> (\<exists>h. resolve_hook_including_deleted X db s = Inr h \<and> sees_hook db key deleted h \<and> d = build_hook_detail db key h)"
proof -
  have "h \<in> set (db_hooks db)" if "resolve_hook_including_deleted X db s = Inr h" for h
    using that by (auto simp: resolve_hook_including_deleted_def early_return bind_eq_Some_conv
        dest: find_hookD find_hook_by_nameD split: option.splits)
  then show ?thesis
    by (auto simp: get_hook_def Let_def early_return resolve_hook_def sees_hook_def split: if_splits)
qed

text \<open>
  C40. Listing hooks and reading a hook agree: a caller gets an entry for an id from the listing exactly when
  it gets the same entry by that id, and, unless the name reads as an id, the same holds of its name.
  Deleted hooks are shown by both or by neither, no hook is listed twice, and the list is in order of names.
\<close>

theorem hooks_listed_iff_visible:
  assumes "wf_db db" and "list_hooks key deleted db = Inr details"
  shows "distinct (map hd_id details) \<and> sorted (map hd_name details)
    \<and> (x_uuid_parse X s = Some i
        \<longrightarrow> (d \<in> set details \<and> hd_id d = i \<longleftrightarrow> get_hook X key s deleted db = Inr d \<and> hd_id d = i))
    \<and> (x_uuid_parse X s = None \<longrightarrow> (d \<in> set details \<and> hd_name d = s \<longleftrightarrow> get_hook X key s deleted db = Inr d))"
proof -
  note list = list_hooks_ok[OF assms]
  have id: "hd_id (build_hook_detail db key h) = hk_id h" "hd_name (build_hook_detail db key h) = hk_name h" for h
    by (simp_all add: build_hook_detail_def Let_def split: prod.splits)
  have maps: "map hd_id details = map hk_id (sort_key hk_name (filter (sees_hook db key deleted) (db_hooks db)))"
    "map hd_name details = map hk_name (sort_key hk_name (filter (sees_hook db key deleted) (db_hooks db)))"
    by (simp_all add: list(1) id)
  have ids: "distinct (map hk_id (db_hooks db))" and names: "distinct (map hk_name (db_hooks db))"
    using assms(1) by (simp_all add: wf_db_def wf_hooks_def)
  have "distinct (map hd_id details)" using ids by (simp add: maps(1) distinct_map inj_on_def)
  moreover have "sorted (map hd_name details)" by (simp add: maps(2))
  moreover have shown: "d \<in> set details \<longleftrightarrow> (\<exists>h. sees_hook db key deleted h \<and> d = build_hook_detail db key h)"
    by (auto simp: list(1) sees_hook_def)
  moreover have "d \<in> set details \<and> hd_id d = i \<longleftrightarrow> get_hook X key s deleted db = Inr d \<and> hd_id d = i"
    if "x_uuid_parse X s = Some i"
  proof -
    have "resolve_hook_including_deleted X db s = Inr h" if "sees_hook db key deleted h" "hk_id h = i" for h
    proof -
      from that have "find_hook db i = Some h" by (simp add: sees_hook_def find_hook_iff_row[OF assms(1)])
      with \<open>x_uuid_parse X s = Some i\<close> show ?thesis by (simp add: resolve_hook_including_deleted_def)
    qed
    then show ?thesis unfolding shown get_hook_ok using list(2) by (auto simp: id)
  qed
  moreover have "d \<in> set details \<and> hd_name d = s \<longleftrightarrow> get_hook X key s deleted db = Inr d"
    if "x_uuid_parse X s = None"
  proof -
    have "resolve_hook_including_deleted X db s = Inr h \<longleftrightarrow> h \<in> set (db_hooks db) \<and> hk_name h = s" for h
      using that by (simp add: resolve_hook_including_deleted_def ok_or_ok find_hook_by_name_def find_key_iff[OF names])
    then show ?thesis unfolding shown get_hook_ok using list(2) by (auto simp: id sees_hook_def)
  qed
  ultimately show ?thesis by blast
qed

section \<open>Instances\<close>

definition demo_run :: "uuid \<Rightarrow> time \<Rightarrow> execution" where
  "demo_run i t = \<lparr>ex_id = i, ex_hook_id = 10, ex_api_key_id = Some 3, ex_status = Success, ex_exit_code = Some 0,
     ex_stdout = ''ok'', ex_stderr = [], ex_parameters_json = ''{}'', ex_duration_ms = 5, ex_timestamp = t\<rparr>"

definition busy_db :: database where
  "busy_db = demo_db\<lparr>db_execs := [demo_run 40 7, demo_run 41 9]\<rparr>"

lemma busy_wf: "wf_db busy_db"
  using demo_db_wf by (auto simp: busy_db_def wf_db_def wf_tables_def demo_run_def demo_db_def demo_keys_def
      hook_exists_def key_exists_def nullable_fk_def)

definition all_executions :: execution_query where
  "all_executions = \<lparr>eq_hook = None, eq_status = None, eq_api_key = None, eq_since = None, eq_until = None,
     eq_limit = None, eq_offset = None\<rparr>"

theorem executions_listed_iff_readable_witness:
  "\<exists>views v. list_executions demo_externals ci_key all_executions busy_db = Inr views
     \<and> get_execution demo_externals ci_key 41 busy_db = Inr v \<and> v \<in> set views \<and> ev_timestamp v = 9"
proof -
  obtain views where views: "list_executions demo_externals ci_key all_executions busy_db = Inr views"
    by (simp add: list_executions_def all_executions_def filled_def)
  have plain: "unfiltered all_executions" "length (db_execs busy_db) \<le> unwrap_or (eq_limit all_executions) DEFAULT_PAGE_LIMIT"
    by (simp_all add: unfiltered_def all_executions_def filled_def busy_db_def DEFAULT_PAGE_LIMIT_def)
  obtain v where v: "get_execution demo_externals ci_key 41 busy_db = Inr v" "ev_timestamp v = 9"
    by (simp add: get_execution_def busy_db_def find_exec_def demo_run_def may_read_execution_def ok_or_def
        execution_view_new_def)
  with executions_listed_iff_readable[OF busy_wf views] plain have "v \<in> set views" by blast
  with views v show ?thesis by blast
qed

theorem hooks_listed_iff_visible_witness:
  "\<exists>details d. list_hooks ci_key None demo_db = Inr details
     \<and> get_hook demo_externals ci_key ''deploy'' None demo_db = Inr d \<and> d \<in> set details"
proof -
  obtain details where details: "list_hooks ci_key None demo_db = Inr details"
    by (cases "list_hooks ci_key None demo_db")
      (auto simp: list_hooks_def guard_master_for_deleted_view_def Let_def split: option.splits if_splits)
  have deploy: "x_uuid_parse demo_externals ''deploy'' = None" by code_simp
  then have "resolve_hook_including_deleted demo_externals demo_db ''deploy'' = Inr deploy_hook"
    by (simp add: resolve_hook_including_deleted_def find_hook_by_name_def demo_db_def deploy_hook_def ok_or_def)
  moreover have "sees_hook demo_db ci_key None deploy_hook"
    by (simp add: sees_hook_def guard_visibility_ok hook_permission_def demo_db_def deploy_hook_def ban_hook_def)
  ultimately obtain d where "get_hook demo_externals ci_key ''deploy'' None demo_db = Inr d"
    unfolding get_hook_ok by (simp add: guard_master_for_deleted_view_def)
  with hooks_listed_iff_visible[OF demo_db_wf details, of demo_externals "''deploy''" _ d] deploy details
  show ?thesis by blast
qed

end
