(* ===== verification/Router.thy ===== *)
theory Router
  imports Reports System_Properties
begin

text \<open>
  The route table (\<open>create\_app\<close> in \<open>src/lib.rs\<close>) with the middleware in front of each route, the way a
  request takes through it, and the extractors of \<open>src/extract.rs\<close>.  Which template a path fits is the
  \<open>axum\<close> crate's, a parameter.
\<close>

section \<open>The table\<close>

datatype endpoint =
    Ep_get_me
  | Ep_create_hook | Ep_list_hooks | Ep_get_hook | Ep_update_hook | Ep_delete_hook | Ep_restore_hook
  | Ep_list_hook_parameters | Ep_create_hook_parameter | Ep_update_hook_parameter | Ep_delete_hook_parameter
  | Ep_create_api_key | Ep_list_api_keys | Ep_update_api_key | Ep_delete_api_key
  | Ep_rotate_api_key | Ep_regenerate_key | Ep_regenerate_secret
  | Ep_update_key_hook_permissions | Ep_revoke_key_hook_permission
  | Ep_list_executions | Ep_purge_executions | Ep_get_execution | Ep_delete_execution
  | Ep_list_audit_logs | Ep_get_settings | Ep_purge_deleted_hooks
  | Ep_execute_hook_endpoint | Ep_test_hook | Ep_webhook_execute
  | Ep_health_check | Ep_readiness_check

datatype layer = AuthMiddleware | InvocationAuthMiddleware | Unlayered

type_synonym route = "string \<times> string"

definition admin_routes :: "(route \<times> endpoint) list" where
  "admin_routes =
    [((''GET'', ''/auth/me''), Ep_get_me),
     ((''POST'', ''/hooks''), Ep_create_hook),
     ((''GET'', ''/hooks''), Ep_list_hooks),
     ((''GET'', ''/hooks/{identifier}''), Ep_get_hook),
     ((''PUT'', ''/hooks/{identifier}''), Ep_update_hook),
     ((''PATCH'', ''/hooks/{identifier}''), Ep_update_hook),
     ((''DELETE'', ''/hooks/{identifier}''), Ep_delete_hook),
     ((''POST'', ''/hooks/{identifier}/restore''), Ep_restore_hook),
     ((''GET'', ''/hooks/{identifier}/parameters''), Ep_list_hook_parameters),
     ((''POST'', ''/hooks/{identifier}/parameters''), Ep_create_hook_parameter),
     ((''PUT'', ''/hooks/{identifier}/parameters/{param_id}''), Ep_update_hook_parameter),
     ((''DELETE'', ''/hooks/{identifier}/parameters/{param_id}''), Ep_delete_hook_parameter),
     ((''POST'', ''/keys''), Ep_create_api_key),
     ((''GET'', ''/keys''), Ep_list_api_keys),
     ((''PUT'', ''/keys/{id}''), Ep_update_api_key),
     ((''PATCH'', ''/keys/{id}''), Ep_update_api_key),
     ((''DELETE'', ''/keys/{id}''), Ep_delete_api_key),
     ((''POST'', ''/keys/{id}/rotate''), Ep_rotate_api_key),
     ((''POST'', ''/keys/{id}/regenerate-key''), Ep_regenerate_key),
     ((''POST'', ''/keys/{id}/regenerate-secret''), Ep_regenerate_secret),
     ((''POST'', ''/keys/{id}/permissions''), Ep_update_key_hook_permissions),
     ((''DELETE'', ''/keys/{id}/permissions/{hook_identifier}''), Ep_revoke_key_hook_permission),
     ((''GET'', ''/executions''), Ep_list_executions),
     ((''DELETE'', ''/executions''), Ep_purge_executions),
     ((''GET'', ''/executions/{id}''), Ep_get_execution),
     ((''DELETE'', ''/executions/{id}''), Ep_delete_execution),
     ((''GET'', ''/audit-logs''), Ep_list_audit_logs),
     ((''GET'', ''/settings''), Ep_get_settings),
     ((''POST'', ''/system/purge-hooks''), Ep_purge_deleted_hooks)]"

definition hook_invocation_routes :: "(route \<times> endpoint) list" where
  "hook_invocation_routes =
    [((''POST'', ''/hooks/{identifier}/execute''), Ep_execute_hook_endpoint),
     ((''POST'', ''/hooks/{identifier}/test''), Ep_test_hook)]"

definition webhook_routes :: "(route \<times> endpoint) list" where
  "webhook_routes = [((''POST'', ''/{identifier}''), Ep_webhook_execute)]"

definition probe_routes :: "(route \<times> endpoint) list" where
  "probe_routes =
    [((''GET'', ''/health''), Ep_health_check),
     ((''GET'', ''/ready''), Ep_readiness_check),
     ((''GET'', ''/healthz''), Ep_health_check),
     ((''GET'', ''/readyz''), Ep_readiness_check)]"

definition layered :: "layer \<Rightarrow> (route \<times> endpoint) list \<Rightarrow> (route \<times> layer \<times> endpoint) list" where
  "layered l routes = map (\<lambda>(r, e). (r, l, e)) routes"

definition nest :: "string \<Rightarrow> (route \<times> layer \<times> endpoint) list \<Rightarrow> (route \<times> layer \<times> endpoint) list" where
  "nest base routes = map (\<lambda>((m, p), le). ((m, base @ p), le)) routes"

definition create_app :: "(route \<times> layer \<times> endpoint) list" where
  "create_app =
     layered Unlayered probe_routes
       @ nest ''/api'' (layered AuthMiddleware admin_routes
           @ layered InvocationAuthMiddleware hook_invocation_routes)
       @ nest ''/webhook'' (layered InvocationAuthMiddleware webhook_routes)"

section \<open>A request through the table\<close>

text \<open>
  What becomes of a request: \<open>Unrouted\<close> is left to the static files or answered by the router itself;
  \<open>Refused\<close> by the middleware; \<open>Reached\<close> the handler, with the key and address it is given, if any.
\<close>

datatype routed =
    Unrouted
  | Refused app_error
  | Reached endpoint "(ip \<times> api_key option) option"

definition find_route ::
  "(route \<Rightarrow> request \<Rightarrow> bool) \<Rightarrow> request \<Rightarrow> (layer \<times> endpoint) option" where
  "find_route fits rq = map_option snd (List.find (\<lambda>(r, _). fits r rq) create_app)"

definition take_route ::
  "(route \<Rightarrow> request \<Rightarrow> bool) \<Rightarrow> env \<Rightarrow> instant \<Rightarrow> network list \<Rightarrow> request \<Rightarrow> database \<Rightarrow> auth_state \<Rightarrow>
     routed \<times> auth_state" where
  "take_route fits E t trusted rq db au =
     (case find_route fits rq of
        None \<Rightarrow> (Unrouted, au)
      | Some (Unlayered, e) \<Rightarrow> (Reached e None, au)
      | Some (AuthMiddleware, e) \<Rightarrow>
          (case auth_middleware E t trusted rq db au of
             (Inl err, au) \<Rightarrow> (Refused err, au)
           | (Inr (client_ip, key), au) \<Rightarrow> (Reached e (Some (client_ip, Some key)), au))
      | Some (InvocationAuthMiddleware, e) \<Rightarrow>
          (case invocation_auth_middleware E t trusted rq db au of
             (Inl err, au) \<Rightarrow> (Refused err, au)
           | (Inr (client_ip, key), au) \<Rightarrow> (Reached e (Some (client_ip, key)), au)))"

section \<open>Extractors\<close>

text \<open>A rejection of the crate's extractor is its status and text; the body or part it reads is \<open>Inr\<close>.\<close>

type_synonym rejection = "nat \<times> string"

definition envelope :: "rejection \<Rightarrow> app_error" where
  "envelope r = BodyRejected (fst r) (snd r)"

definition strict_json :: "rejection + 'a \<Rightarrow> 'a result" where
  "strict_json r = map_err envelope r"

definition strict_path :: "rejection + 'a \<Rightarrow> 'a result" where
  "strict_path r = map_err envelope r"

definition strict_query :: "rejection + 'a \<Rightarrow> 'a result" where
  "strict_query r = map_err envelope r"

definition strict_bytes :: "rejection + bytes \<Rightarrow> bytes result" where
  "strict_bytes r = map_err envelope r"

definition optional_strict_json :: "(bytes \<Rightarrow> string + 'a) \<Rightarrow> 'a \<Rightarrow> rejection + bytes \<Rightarrow> 'a result" where
  "optional_strict_json from_slice default_value r =
     check (map_err envelope r) (\<lambda>bytes.
     if bytes = [] then Inr default_value
     else map_err (\<lambda>e. InvalidInput (''Failed to deserialize the JSON body into the target type: '' @ e))
            (from_slice bytes))"

section \<open>Which layer guards which endpoint\<close>

definition is_probe :: "endpoint \<Rightarrow> bool" where
  "is_probe e \<longleftrightarrow> e \<in> {Ep_health_check, Ep_readiness_check}"

definition is_invocation :: "endpoint \<Rightarrow> bool" where
  "is_invocation e \<longleftrightarrow> e \<in> {Ep_execute_hook_endpoint, Ep_test_hook, Ep_webhook_execute}"

text \<open>The endpoint that serves a call that writes.\<close>

fun endpoint_of :: "api_call \<Rightarrow> endpoint" where
  "endpoint_of (CreateKey p) = Ep_create_api_key"
| "endpoint_of (UpdateKey i p) = Ep_update_api_key"
| "endpoint_of (DeleteKey i rs) = Ep_delete_api_key"
| "endpoint_of (RotateKey i) = Ep_rotate_api_key"
| "endpoint_of (RegenerateKey i) = Ep_regenerate_key"
| "endpoint_of (RegenerateSecret i) = Ep_regenerate_secret"
| "endpoint_of (SetPermissions i p) = Ep_update_key_hook_permissions"
| "endpoint_of (RevokePermission i h) = Ep_revoke_key_hook_permission"
| "endpoint_of (CreateHook p) = Ep_create_hook"
| "endpoint_of (UpdateHook h p) = Ep_update_hook"
| "endpoint_of (DeleteHook h hard) = Ep_delete_hook"
| "endpoint_of (RestoreHook h) = Ep_restore_hook"
| "endpoint_of (PurgeHooks age) = Ep_purge_deleted_hooks"
| "endpoint_of (CreateParameter h p) = Ep_create_hook_parameter"
| "endpoint_of (UpdateParameter h i p) = Ep_update_hook_parameter"
| "endpoint_of (DeleteParameter h i) = Ep_delete_hook_parameter"
| "endpoint_of (DeleteExecution i) = Ep_delete_execution"
| "endpoint_of (PurgeExecutions age) = Ep_purge_executions"

definition layer_of :: "endpoint \<Rightarrow> layer" where
  "layer_of e = (if is_probe e then Unlayered
     else if is_invocation e then InvocationAuthMiddleware else AuthMiddleware)"

lemmas route_tables = create_app_def admin_routes_def hook_invocation_routes_def webhook_routes_def
  probe_routes_def layered_def nest_def

lemma table_layers: "list_all (\<lambda>(r, l, e). l = layer_of e) create_app"
  by (simp add: route_tables layer_of_def is_probe_def is_invocation_def)

lemma route_layer: "find_route fits rq = Some (l, e) \<Longrightarrow> l = layer_of e"
  using table_layers by (auto simp: find_route_def list_all_iff dest!: find_SomeD)

lemma table_distinct: "distinct (map fst create_app)"
  by code_simp

section \<open>Nothing but the probes is reached without credentials\<close>

text \<open>The key is a stored row, found by the hash of the key in the request's header.\<close>

definition presents :: "env \<Rightarrow> request \<Rightarrow> database \<Rightarrow> api_key \<Rightarrow> bool" where
  "presents E rq db k \<longleftrightarrow> stored_caller db k
     \<and> (\<exists>presented. header_str (rq_headers rq) API_KEY_HEADER = Some presented \<and> ak_key_hash k = key_hash_of E presented)"

definition keyless_admitted :: "env \<Rightarrow> request \<Rightarrow> database \<Rightarrow> bool" where
  "keyless_admitted E rq db \<longleftrightarrow> header_str (rq_headers rq) API_KEY_HEADER = None
     \<and> (\<exists>identifier target. hook_identifier_from_path (rq_path rq) = Some identifier
          \<and> resolve_hook (ev_ext E) db identifier = Inr target \<and> authenticate_keyless E rq target = Inr ()
          \<and> hk_auth_mode target \<in> {NoAuth, HmacOnly})"

lemma bearer_hash:
  assumes "authenticate_bearer_key E t rq h presented client_ip db au = (Inr key, au')"
  shows "ak_key_hash key = key_hash_of E presented"
proof -
  from assms obtain found where found: "find_key_by_hash db (key_hash_of E presented) = Some found"
    and key: "key = fst (pin_authenticate db found (au_pin au))" by (auto simp: bearer_ok)
  have "ak_key_hash key = ak_key_hash found" unfolding key by (subst pin_authenticate_key) simp
  with find_by_hash_row[OF found] show ?thesis by simp
qed

lemma auth_presents:
  "auth_middleware E t trusted rq db au = (Inr (client_ip, k), au') \<Longrightarrow> presents E rq db k"
  by (auto simp: presents_def auth_middleware_def Let_def early_return dest: bearer_caller bearer_hash)

lemma invocation_presents:
  "invocation_auth_middleware E t trusted rq db au = (Inr (client_ip, Some k), au') \<Longrightarrow> presents E rq db k"
  by (auto simp: presents_def invocation_auth_middleware_def Let_def early_return map_err_ok
      split: option.splits prod.splits dest: bearer_caller bearer_hash)

lemma invocation_admits:
  "invocation_auth_middleware E t trusted rq db au = (Inr (client_ip, None), au') \<Longrightarrow> keyless_admitted E rq db"
  by (auto simp: keyless_admitted_def invocation_auth_middleware_def Let_def early_return map_err_ok keyless_ok
      split: option.splits prod.splits)

definition admitted :: "env \<Rightarrow> request \<Rightarrow> database \<Rightarrow> api_key option \<Rightarrow> bool" where
  "admitted E rq db key = (case key of Some k \<Rightarrow> presents E rq db k | None \<Rightarrow> keyless_admitted E rq db)"

lemma invocation_admitted:
  "invocation_auth_middleware E t trusted rq db au = (Inr (client_ip, key), au') \<Longrightarrow> admitted E rq db key"
  by (cases key) (auto simp: admitted_def dest: invocation_presents invocation_admits)

text \<open>
  C4. However the router matches paths, no handler is reached without what its route demands.  The two probe
  handlers are the only ones that see no middleware.  Every other handler that administers or reads gets a
  stored key, the one whose hash the request's header has.  The three invocation handlers get such a key or,
  with no key in the request at all, run only because the hook that the path names admits it.  No call that
  changes a key, a hook or a permission is an invocation or a probe.
\<close>

theorem handlers_behind_their_layer:
  assumes "take_route fits E t trusted rq db au = (Reached e caller, au')"
  shows "(is_probe e \<longleftrightarrow> caller = None)
    \<and> (\<not> is_probe e \<and> \<not> is_invocation e \<longrightarrow> (\<exists>client_ip k. caller = Some (client_ip, Some k) \<and> presents E rq db k))
    \<and> (is_invocation e \<longrightarrow> (\<exists>client_ip key. caller = Some (client_ip, key) \<and> admitted E rq db key))
    \<and> \<not> is_probe (endpoint_of call) \<and> \<not> is_invocation (endpoint_of call)"
proof -
  from assms obtain l where r: "find_route fits rq = Some (l, e)"
    by (auto simp: take_route_def split: option.splits layer.splits prod.splits sum.splits)
  have "\<not> is_probe (endpoint_of call) \<and> \<not> is_invocation (endpoint_of call)"
    by (cases call) (simp_all add: is_probe_def is_invocation_def)
  moreover have "\<not> (is_probe e \<and> is_invocation e)" by (auto simp: is_probe_def is_invocation_def)
  ultimately show ?thesis
    using assms route_layer[OF r] unfolding take_route_def r
    by (cases l) (auto simp: layer_of_def auth_presents invocation_admitted
        split: prod.splits sum.splits option.splits if_splits)
qed

text \<open>A request of a steward for the list of hooks.\<close>

theorem handlers_behind_their_layer_witness:
  "\<exists>client_ip k. take_route (\<lambda>r _. r = (''GET'', ''/api/hooks'')) demo_env 0 [] steward_request site_db demo_auth
     = (Reached Ep_list_hooks (Some (client_ip, Some k)), demo_auth) \<and> presents demo_env steward_request site_db k"
proof -
  have "find_route (\<lambda>r _. r = (''GET'', ''/api/hooks'')) steward_request = Some (AuthMiddleware, Ep_list_hooks)"
    by (simp add: find_route_def route_tables)
  then have go: "take_route (\<lambda>r _. r = (''GET'', ''/api/hooks'')) demo_env 0 [] steward_request site_db demo_auth
     = (Reached Ep_list_hooks (Some (V4 7, Some steward)), demo_auth)"
    by (simp add: take_route_def steward_authenticates)
  from handlers_behind_their_layer[OF go] have "presents demo_env steward_request site_db steward"
    by (simp add: is_probe_def is_invocation_def)
  with go show ?thesis by blast
qed

end
