(* ===== verification/Row_Types.thy ===== *)
theory Row_Types
  imports Failures Start_Up
begin

text \<open>
  What a stored row always satisfies.  The schema knows little of it: these are the checks that the handlers
  make before they write, and every handler keeps them for the rows it writes and for those it leaves.
\<close>

section \<open>Well-typed rows\<close>

definition key_typed :: "externals \<Rightarrow> api_key \<Rightarrow> bool" where
  "key_typed X k \<longleftrightarrow> 1 \<le> ak_max_concurrent_jobs k \<and> ak_max_concurrent_jobs k \<le> MAX_CONCURRENT_JOBS
     \<and> (\<forall>b. ak_bound_ips k = Some b \<longrightarrow> validate_bound_ips X b = Inr ())
     \<and> ak_canonical_template k \<noteq> Some []
     \<and> (ak_can_manage_keys k \<longrightarrow> ak_hmac_mode k = HmacCanonicalV1 \<and> ak_canonical_template k = None)
     \<and> (ak_key_id k = None \<longleftrightarrow> ak_signing_secret k = None)"

definition hook_typed :: "hook \<Rightarrow> bool" where
  "hook_typed h \<longleftrightarrow> hk_name h \<noteq> [] \<and> 1 \<le> hk_default_timeout_seconds h
     \<and> hk_default_timeout_seconds h \<le> MAX_TIMEOUT_SECONDS
     \<and> (\<forall>u. hk_run_as_user h = Some u \<longrightarrow> validate_run_as_user u = Inr ())
     \<and> (hk_auth_mode h = HmacOnly \<longrightarrow> hk_hmac_secret h \<noteq> None)
     \<and> Some [] \<notin> {hk_signature_header h, hk_signature_prefix h, hk_canonical_template h,
          hk_sample_payload_json h, hk_args_template h}
     \<and> (if hk_is_deleted h then hk_deleted_at h \<noteq> None \<and> hk_deleted_by h \<noteq> None
        else hk_deleted_at h = None \<and> hk_deleted_by h = None)"

text \<open>
  A path that some list of roots accepts: without NUL or a step to the parent, and absolute.
\<close>

definition path_typed :: "hook \<Rightarrow> bool" where
  "path_typed h \<longleftrightarrow> NUL \<notin> set (hk_script_path h) \<and> is_absolute_path (hk_script_path h)
     \<and> ParentDir \<notin> set (path_components (hk_script_path h))"

definition rows_typed :: "externals \<Rightarrow> database \<Rightarrow> bool" where
  "rows_typed X db \<longleftrightarrow> (\<forall>k\<in>set (db_keys db). key_typed X k)
     \<and> (\<forall>h\<in>set (db_hooks db). hook_typed h \<and> path_typed h)
     \<and> (\<forall>p\<in>set (db_params db). is_valid_param_key (hp_param_key p))"

section \<open>Writes\<close>

lemma replace_row_subset: "set (replace_row f r rs) \<subseteq> insert r (set rs)"
  by (auto simp: replace_row_def)

lemma typed_audit [simp]: "rows_typed X (snd (create_audit_log E n key ip a t d db)) = rows_typed X db"
  by (simp add: rows_typed_def)

lemma typed_insert_key: "insert_key r db = Inr d \<Longrightarrow> rows_typed X db \<Longrightarrow> key_typed X r \<Longrightarrow> rows_typed X d"
  by (auto simp: rows_typed_def dest!: write_shapes)

lemma typed_update_key: "update_key r db = Inr d \<Longrightarrow> rows_typed X db \<Longrightarrow> key_typed X r \<Longrightarrow> rows_typed X d"
  using replace_row_subset[of ak_id r "db_keys db"] by (auto simp: rows_typed_def dest!: write_shapes)

lemma typed_insert_hook:
  "insert_hook r db = Inr d \<Longrightarrow> rows_typed X db \<Longrightarrow> hook_typed r \<Longrightarrow> path_typed r \<Longrightarrow> rows_typed X d"
  by (auto simp: rows_typed_def dest!: write_shapes)

lemma typed_update_hook:
  "update_hook_row r db = Inr d \<Longrightarrow> rows_typed X db \<Longrightarrow> hook_typed r \<Longrightarrow> path_typed r \<Longrightarrow> rows_typed X d"
  using replace_row_subset[of hk_id r "db_hooks db"] by (auto simp: rows_typed_def dest!: write_shapes)

lemma typed_insert_param:
  "insert_param r db = Inr d \<Longrightarrow> rows_typed X db \<Longrightarrow> is_valid_param_key (hp_param_key r) \<Longrightarrow> rows_typed X d"
  by (auto simp: rows_typed_def dest!: write_shapes)

lemma typed_update_param:
  "update_param r db = Inr d \<Longrightarrow> rows_typed X db \<Longrightarrow> is_valid_param_key (hp_param_key r) \<Longrightarrow> rows_typed X d"
  using replace_row_subset[of hp_id r "db_params db"] by (auto simp: rows_typed_def dest!: write_shapes)

lemma typed_upsert: "upsert_perm upd r db = Inr d \<Longrightarrow> rows_typed X db \<Longrightarrow> rows_typed X d"
  by (auto simp: rows_typed_def upsert_perm_def split: if_splits)

lemma typed_deletes:
  "rows_typed X db \<Longrightarrow> rows_typed X (snd (delete_keys gone db))"
  "rows_typed X db \<Longrightarrow> rows_typed X (snd (delete_hooks P db))"
  "rows_typed X db \<Longrightarrow> rows_typed X (delete_param i db)"
  "rows_typed X db \<Longrightarrow> rows_typed X (snd (delete_execs Q db))"
  "rows_typed X db \<Longrightarrow> rows_typed X (snd (delete_perms k h db))"
  by (auto simp: rows_typed_def delete_shapes Let_def)

lemma typed_deleted:
  "delete_keys gone db = (n, d) \<Longrightarrow> rows_typed X db \<Longrightarrow> rows_typed X d"
  "delete_hooks P db = (n, d) \<Longrightarrow> rows_typed X db \<Longrightarrow> rows_typed X d"
  "delete_execs Q db = (n, d) \<Longrightarrow> rows_typed X db \<Longrightarrow> rows_typed X d"
  "delete_perms k h db = (n, d) \<Longrightarrow> rows_typed X db \<Longrightarrow> rows_typed X d"
  using typed_deletes[of X db] by (metis snd_conv)+

lemma typed_key: "find_key db i = Some k \<Longrightarrow> rows_typed X db \<Longrightarrow> key_typed X k"
  by (auto simp: rows_typed_def find_key_def dest: find_SomeD)

lemma typed_hook: "find_hook db i = Some h \<Longrightarrow> rows_typed X db \<Longrightarrow> hook_typed h \<and> path_typed h"
  by (auto simp: rows_typed_def dest: find_hookD)

lemma typed_resolved:
  assumes "resolve_hook_including_deleted Y db identifier = Inr h" and "rows_typed X db"
  shows "hook_typed h \<and> path_typed h"
  using assms by (auto simp: resolve_hook_including_deleted_def rows_typed_def early_return bind_eq_Some_conv
      dest: find_hookD find_hook_by_nameD split: option.splits)

lemma resolve_live: "resolve_hook Y db identifier = Inr h \<Longrightarrow> resolve_hook_including_deleted Y db identifier = Inr h"
  by (auto simp: resolve_hook_def early_return split: if_splits)

lemma typed_administrable:
  "load_administrable_key db c i = Inr k \<Longrightarrow> rows_typed X db \<Longrightarrow> key_typed X k"
  by (auto simp: load_administrable_ok typed_key)

section \<open>Handlers of keys\<close>

lemma create_api_key_typed:
  assumes "rows_typed (ev_ext E) db"
  shows "rows_typed (ev_ext E) (snd (create_api_key E key ip p db))"
  unfolding create_api_key_def Let_def
  by (intro keeps_state[where P = "rows_typed (ev_ext E)"] assms)
    (auto simp: key_typed_def MAX_CONCURRENT_JOBS_def early_return filter_opt_def split: option.splits if_splits
      elim!: typed_insert_key[OF _ assms])

lemma rotate_api_key_typed:
  assumes "rows_typed (ev_ext E) db"
  shows "rows_typed (ev_ext E) (snd (rotate_api_key E key ip i db))"
  unfolding rotate_api_key_def Let_def
  by (intro keeps_state[where P = "rows_typed (ev_ext E)"] assms)
    (auto dest!: typed_administrable[OF _ assms] simp: key_typed_def elim!: typed_update_key[OF _ assms])

lemma regenerate_typed:
  assumes "rows_typed (ev_ext E) db"
  shows "rows_typed (ev_ext E) (snd (regenerate_key E key ip i db))"
    and "rows_typed (ev_ext E) (snd (regenerate_secret E key ip i db))"
  unfolding regenerate_key_def regenerate_secret_def Let_def
  by (intro keeps_state[where P = "rows_typed (ev_ext E)"] assms;
      auto dest!: typed_administrable[OF _ assms] simp: key_typed_def elim!: typed_update_key[OF _ assms])+

lemma key_update_typed:
  assumes "key_typed X k" and "\<And>b. ukp_bound_ips p = Some b \<Longrightarrow> validate_bound_ips X b = Inr ()"
    and "\<And>j. ukp_max_concurrent_jobs p = Some j \<Longrightarrow> 1 \<le> j \<and> j \<le> 1000"
    and "guard_canonical_v1_for_key_management (unwrap_or (ukp_can_manage_keys p) (ak_can_manage_keys k))
      (ak_hmac_mode k) (case ukp_canonical_template p of
         Some t \<Rightarrow> if t \<noteq> [] then Some t else None | None \<Rightarrow> ak_canonical_template k) = Inr ()"
  shows "key_typed X (apply_key_update p now k)"
  using assms unfolding guard_canonical_ok
  by (cases "ukp_max_concurrent_jobs p")
    (auto simp: key_typed_def apply_key_update_def MAX_CONCURRENT_JOBS_def split: option.splits if_splits)

lemma update_api_key_typed:
  assumes "rows_typed (ev_ext E) db"
  shows "rows_typed (ev_ext E) (snd (update_api_key E key ip i p db))"
  unfolding update_api_key_def Let_def
  by (intro keeps_state[where P = "rows_typed (ev_ext E)"] assms; (simp only: typed_audit)?;
      (assumption | (erule typed_update_key[OF _ assms], rule key_update_typed, erule typed_administrable[OF _ assms],
         auto split: option.splits simp: validate_concurrency_ok)))

lemma permissions_typed:
  assumes "rows_typed X db"
  shows "rows_typed X (snd (update_key_hook_permissions E key ip i q db))"
    and "rows_typed X (snd (revoke_key_hook_permission E key ip i identifier db))"
  unfolding update_key_hook_permissions_def revoke_key_hook_permission_def Let_def
  by (intro keeps_state[where P = "rows_typed X"] assms; (simp only: typed_audit)?;
      erule typed_upsert[OF _ assms] typed_deleted(4)[OF _ assms])+

lemma resolve_entity_typed: "hook_typed h \<Longrightarrow> hook_typed (resolve_entity Y key now r h)"
  by (cases r) (auto simp: hook_typed_def split: if_splits)

lemma resolve_entity_path: "path_typed (resolve_entity Y key now r h) = path_typed h"
  by (cases r) (auto simp: path_typed_def)

lemma apply_resolutions_typed:
  "rows_typed X db \<Longrightarrow> rows_typed X (snd (apply_resolutions Y key now rs c db))"
proof (induction Y key now rs c db rule: apply_resolutions.induct)
  case (2 Y key now entity_id resolution r deleted reassigned db)
  show ?case
  proof (cases "find_hook db entity_id")
    case (Some model)
    let ?w = "update_hook_row (resolve_entity Y key now resolution model) db"
    have "rows_typed X d" if "?w = Inr d" for d
      using typed_hook[OF Some 2(3)] by (intro typed_update_hook[OF that 2(3)]) (simp_all add: resolve_entity_typed resolve_entity_path)
    with 2 Some show ?thesis by (cases ?w) (auto simp: commit_def)
  qed (use 2 in simp)
qed simp

lemma delete_api_key_typed:
  assumes "rows_typed X db"
  shows "rows_typed X (snd (delete_api_key E key ip i rs db))"
  unfolding delete_api_key_def Let_def
  by (intro keeps_state[where P = "rows_typed X"] assms apply_resolutions_typed; (simp only: typed_audit)?;
      (assumption | erule typed_deleted(1), assumption))

lemmas key_handlers_typed = create_api_key_typed update_api_key_typed delete_api_key_typed rotate_api_key_typed
  regenerate_typed permissions_typed

section \<open>Handlers of hooks\<close>

lemma sealed_typed:
  assumes "validate_and_seal_hmac_secret E n mode given existing = Inr sealed" and "mode = HmacOnly"
  shows "sealed \<noteq> None"
  using assms by (auto simp: validate_and_seal_hmac_secret_def seal_hook_secret_def split: option.splits sum.splits if_splits)

lemma user_typed: "normalize_run_as_user key raw = Inr (Some u) \<Longrightarrow> validate_run_as_user u = Inr ()"
  by (auto simp: normalize_run_as_user_def early_return split: option.splits if_splits)

lemma accepted_path: "validate_script_path path roots = Inr () \<Longrightarrow>
    NUL \<notin> set path \<and> is_absolute_path path \<and> ParentDir \<notin> set (path_components path)"
  by (auto simp: validate_script_path_def split: if_splits)

lemma insert_declared_typed:
  assumes "rows_typed X db" and "\<forall>p\<in>set ps. is_valid_param_key (pi_param_key p)"
  shows "rows_typed X (snd (insert_declared E n i ps db))"
  using assms
proof (induction E n i ps db rule: insert_declared.induct)
  case (2 E n hook_id param r db)
  let ?row = "\<lparr>hp_id = ev_uuid E n, hp_hook_id = hook_id, hp_param_key = pi_param_key param,
    hp_description = pi_description param, hp_default_value = pi_default_value param,
    hp_is_required = unwrap_or (pi_is_required param) True, hp_created_at = ev_now E n\<rparr>"
  have "rows_typed X d" if "insert_param ?row db = Inr d" for d
    using 2 by (intro typed_insert_param[OF that]) simp_all
  with 2 show ?case by (auto split: sum.split db_err.split)
qed simp

lemma new_hook_typed:
  assumes "trim (chp_name p) \<noteq> []" and "1 \<le> timeout" "timeout \<le> 86400"
    and "normalize_run_as_user key (chp_run_as_user p) = Inr user"
    and "validate_script_path (chp_script_path p) roots = Inr ()"
    and "validate_and_seal_hmac_secret E n mode given existing = Inr sealed"
  shows "hook_typed (new_hook E key p (trim (chp_name p)) user timeout mode sealed)"
    and "path_typed (new_hook E key p (trim (chp_name p)) user timeout mode sealed)"
  using assms sealed_typed[OF assms(6)] accepted_path[OF assms(5)] user_typed[of key "chp_run_as_user p"]
  by (auto simp: hook_typed_def path_typed_def new_hook_def MAX_TIMEOUT_SECONDS_def non_empty_def filter_opt_def
      split: option.splits if_splits)

lemma grant_typed:
  assumes "rows_typed X db"
  shows "rows_typed X (snd (grant_full_hook_permission E n k h db))"
  unfolding grant_full_hook_permission_def
  by (intro keeps_state[where P = "rows_typed X"] assms) (erule typed_upsert[OF _ assms])

lemma declared_typed:
  "(case List.find (\<lambda>param. \<not> is_valid_param_key (pi_param_key param)) ps of
      Some param \<Rightarrow> Inl (f param) | None \<Rightarrow> Inr ()) = Inr u \<Longrightarrow> \<forall>p\<in>set ps. is_valid_param_key (pi_param_key p)"
  by (auto simp: find_None_iff split: option.splits)

lemma create_hook_typed:
  assumes "rows_typed X db"
  shows "rows_typed X (snd (create_hook E key ip p db))"
  unfolding create_hook_def Let_def
  by (intro keeps_state[where P = "rows_typed X"] assms insert_declared_typed grant_typed;
      (simp only: typed_audit)?; (assumption | erule declared_typed)?)
    (erule typed_insert_hook[OF _ assms]; rule new_hook_typed; (assumption | simp add: early_return))

lemma hook_update_typed:
  assumes "hook_typed h" and "require (map_option trim (uhp_name p) \<noteq> Some []) e = Inr w"
    and "(case uhp_default_timeout_seconds p of Some t \<Rightarrow> validate_timeout t | None \<Rightarrow> Inr ()) = Inr u"
    and "(case uhp_run_as_user p of Some raw \<Rightarrow> check (normalize_run_as_user key (Some raw)) (\<lambda>u. Inr (Some u))
       | None \<Rightarrow> Inr None) = Inr user"
    and "validate_and_seal_hmac_secret E n (unwrap_or (uhp_auth_mode p) (hk_auth_mode h)) given existing = Inr sealed"
  shows "hook_typed (apply_hook_update p (map_option trim (uhp_name p)) owner user sealed now h)"
proof -
  have "\<And>v. hk_run_as_user h = Some v \<Longrightarrow> validate_run_as_user v = Inr ()"
    using assms(1) by (simp add: hook_typed_def)
  then have "\<forall>v. unwrap_or user (hk_run_as_user h) = Some v \<longrightarrow> validate_run_as_user v = Inr ()"
    using assms(4) user_typed by (cases "uhp_run_as_user p") (auto simp: check_ok)
  moreover have "1 \<le> unwrap_or (uhp_default_timeout_seconds p) (hk_default_timeout_seconds h)"
    "unwrap_or (uhp_default_timeout_seconds p) (hk_default_timeout_seconds h) \<le> MAX_TIMEOUT_SECONDS"
    using assms(1,3) by (auto simp: hook_typed_def early_return MAX_TIMEOUT_SECONDS_def split: option.splits)
  moreover have "unwrap_or (map_option trim (uhp_name p)) (hk_name h) \<noteq> []"
    using assms(1,2) by (cases "uhp_name p") (auto simp: hook_typed_def early_return)
  moreover have "Some [] = cleared_or_kept c x \<longleftrightarrow> c = None \<and> Some [] = x" for c x
    by (auto simp: cleared_or_kept_def split: option.splits)
  ultimately show ?thesis
    using assms(1) sealed_typed[OF assms(5)] unfolding hook_typed_def
    by (intro conjI) (simp_all add: apply_hook_update_def)
qed

lemma path_update_typed:
  assumes "path_typed h"
    and "(case uhp_script_path p of Some q \<Rightarrow> script_error_to_app (validate_script_path q roots) | None \<Rightarrow> Inr ()) = Inr u"
  shows "path_typed (apply_hook_update p name owner user sealed now h)"
  using assms accepted_path
  by (cases "uhp_script_path p") (auto simp: path_typed_def apply_hook_update_def early_return)

lemma typed_live:
  "resolve_hook Y db identifier = Inr h \<Longrightarrow> rows_typed X db \<Longrightarrow> hook_typed h"
  "resolve_hook Y db identifier = Inr h \<Longrightarrow> rows_typed X db \<Longrightarrow> path_typed h"
  by (auto dest: resolve_live typed_resolved)

lemma update_hook_typed:
  assumes "rows_typed X db"
  shows "rows_typed X (snd (update_hook E key ip identifier p db))"
  unfolding update_hook_def Let_def
  by (intro keeps_state[where P = "rows_typed X"] assms; (simp only: typed_audit)?; assumption?)
    (erule typed_update_hook[OF _ assms],
      (rule hook_update_typed, erule typed_live(1)[OF _ assms], assumption+)[1],
      rule path_update_typed, erule typed_live(2)[OF _ assms], assumption)

lemma trashed_typed:
  "hook_typed h \<Longrightarrow> hook_typed (h\<lparr>hk_is_deleted := True, hk_deleted_at := Some t, hk_deleted_by := Some b, hk_updated_at := now\<rparr>)"
  "path_typed (h\<lparr>hk_is_deleted := True, hk_deleted_at := Some t, hk_deleted_by := Some b, hk_updated_at := now\<rparr>) = path_typed h"
  by (auto simp: hook_typed_def path_typed_def)

lemma soft_delete_typed:
  assumes "soft_delete i now by1 db = (n, d)" and "rows_typed X db"
  shows "rows_typed X d"
  using assms by (auto simp: soft_delete_def rows_typed_def trashed_typed)

lemma delete_hook_typed:
  assumes "rows_typed X db"
  shows "rows_typed X (snd (delete_hook E key ip identifier hard db))"
  unfolding delete_hook_def Let_def
  by (intro keeps_state[where P = "rows_typed X"] assms; (simp only: typed_audit)?;
      (erule typed_deleted(2)[OF _ assms] soft_delete_typed[OF _ assms])?)

lemma restore_hook_typed:
  assumes "rows_typed X db"
  shows "rows_typed X (snd (restore_hook E key ip identifier db))"
  unfolding restore_hook_def Let_def
  by (intro keeps_state[where P = "rows_typed X"] assms; (simp only: typed_audit)?; assumption?)
    (drule typed_resolved[OF _ assms], erule typed_update_hook[OF _ assms]; auto simp: hook_typed_def path_typed_def)

lemma updated_param_typed:
  "ok_or (filter_opt P (find_param db i)) e = Inr r \<Longrightarrow> rows_typed X db \<Longrightarrow>
     is_valid_param_key (hp_param_key (apply_param_update q r))"
  by (auto simp: ok_or_ok find_param_def filter_opt_def apply_param_update_def rows_typed_def dest: find_SomeD
      split: option.splits if_splits)

lemma parameters_typed:
  assumes "rows_typed X db"
  shows "rows_typed X (snd (create_hook_parameter E key ip identifier q db))"
    and "rows_typed X (snd (update_hook_parameter E key ip identifier i r db))"
    and "rows_typed X (snd (delete_hook_parameter E key ip identifier i db))"
  unfolding create_hook_parameter_def update_hook_parameter_def delete_hook_parameter_def Let_def
    apply (intro keeps_state[where P = "rows_typed X"] assms; (simp only: typed_audit)?; assumption?)
    apply (erule typed_insert_param[OF _ assms], simp add: early_return)
   apply (intro keeps_state[where P = "rows_typed X"] assms; (simp only: typed_audit)?; assumption?)
   apply (erule typed_update_param[OF _ assms], erule updated_param_typed[OF _ assms])
  apply (intro keeps_state[where P = "rows_typed X"] assms; (simp only: typed_audit)?)
  apply (rule typed_deletes(3)[OF assms])
  done

lemmas hook_handlers_typed = create_hook_typed update_hook_typed delete_hook_typed restore_hook_typed parameters_typed

section \<open>Every call and every history\<close>

lemma typed_then_audit:
  assumes "and_then (create_audit_log E n key ip a t e d) k = (r, d')" and "rows_typed X d"
    and "\<And>x s. snd (k x s) = s"
  shows "rows_typed X d'"
proof -
  have "rows_typed X (snd (and_then (create_audit_log E n key ip a t e d) k))"
    using assms(2,3) by (intro state_and_then[where P = "rows_typed X"]) simp_all
  with assms(1) show ?thesis by simp
qed

lemma purge_deleted_hooks_typed:
  assumes "rows_typed X db" and "purge_deleted_hooks E key ip age db = Some (r, d)"
  shows "rows_typed X d"
  using assms(2,1)
  by (auto simp: purge_deleted_hooks_def Let_def typed_deletes split: if_splits
      dest!: purge_hooks_shape elim!: typed_then_audit)

lemma purge_executions_typed:
  assumes "rows_typed X db" and "purge_executions E key ip age db = Some (r, d)"
  shows "rows_typed X d"
  using assms(2,1)
  by (auto simp: purge_executions_def Let_def typed_deletes split: if_splits
      dest!: purge_executions_shape elim!: typed_then_audit)

lemma delete_execution_typed:
  assumes "rows_typed X db"
  shows "rows_typed X (snd (delete_execution E key ip i db))"
  unfolding delete_execution_def Let_def
  by (intro keeps_state[where P = "rows_typed X"] assms; (simp only: typed_audit)?; (erule typed_deleted(3)[OF _ assms])?)

lemma serve_typed:
  assumes "rows_typed (ev_ext E) db"
  shows "rows_typed (ev_ext E) (snd (serve E key ip call db))"
  using assms
  by (cases call) (auto intro: key_handlers_typed hook_handlers_typed delete_execution_typed
      purge_deleted_hooks_typed purge_executions_typed split: option.split)

text \<open>The event reads networks as \<open>X\<close> does.\<close>

fun reads_with :: "externals \<Rightarrow> event \<Rightarrow> bool" where
  "reads_with X (AdminRequest E E' t trusted rq call) \<longleftrightarrow> ev_ext E' = X"
| "reads_with X _ \<longleftrightarrow> True"

lemma react_typed:
  assumes "rows_typed X (fst s)" and "reads_with X e"
  shows "rows_typed X (fst (react e s))"
proof (cases e)
  case (AdminRequest E E' t trusted rq call)
  with assms serve_typed[of E' "fst s"] show ?thesis
    by (auto simp: admin_request_def split_beta split: prod.splits sum.splits)
next
  case (Invocation E E' H t trusted rq ident L)
  have "rows_typed X d" if "snd (execute_hook_endpoint E' H key ident (rq_body rq) (L, fst s)) = (l, d)" for key l d
    using assms(1) that run_tables[of E' H key ident "rq_body rq" "(L, fst s)"]
    by (simp add: rows_typed_def execute_hook_endpoint_def)
  with assms(1) Invocation show ?thesis
    by (auto simp: invocation_request_def split_beta split: prod.splits sum.splits) 
next
  case (Sweep Y cfg now now')
  with assms(1) show ?thesis
    by (auto simp: swept_def typed_deletes dest!: retention_swept split: option.splits)
qed

text \<open>
  C3. Rows stay well typed.  Over any history of requests and sweeps, whatever the requests carry and whether
  they succeed, every stored key has a concurrency budget from 1 to 1000, an address binding that parses, and
  both or none of the signing pair, and a key that manages keys signs canonically; every hook has a name, a
  timeout from a second to a day, an absolute script path without a step to a parent, an account name the
  executor accepts, its secret when its mode needs one, and trash marks exactly when it is in the trash; and
  every declared parameter is an identifier.
\<close>

theorem rows_stay_typed:
  assumes "rows_typed X (fst s)" and "\<forall>e\<in>set es. reads_with X e"
  shows "rows_typed X (fst (history es s))"
  using assms
  by (induction es s rule: history.induct) (auto simp: react_typed)

theorem rows_stay_typed_witness:
  "rows_typed demo_externals (fst (history site_events site))"
proof -
  have "key_typed demo_externals k" if "k \<in> {root_key, admin_key, steward}" for k
    using that by (auto simp: key_typed_def demo_keys_def steward_def MAX_CONCURRENT_JOBS_def)
  moreover have "validate_run_as_user ''svc'' = Inr ()"
    "NUL \<notin> set ''/opt/ban.sh'' \<and> is_absolute_path ''/opt/ban.sh'' \<and> ParentDir \<notin> set (path_components ''/opt/ban.sh'')"
    by code_simp+
  then have "hook_typed h \<and> path_typed h" if "h \<in> set (db_hooks site_db)" for h
    using that by (auto simp: site_hooks hook_typed_def path_typed_def deploy_hook_def backup_hook_def ban_hook_def
        MAX_TIMEOUT_SECONDS_def)
  ultimately have "rows_typed demo_externals (fst site)"
    by (simp add: rows_typed_def site_def site_db_def demo_db_def)
  then show ?thesis by (rule rows_stay_typed) (simp add: site_events_def)
qed

end
