(* ===== verification/Migrations.thy ===== *)
theory Migrations
  imports Hook_Prelude
begin

text \<open>
  The schema migrations (\<open>src/migration\<close>) over a store of tables with their rows: each migration is the
  list of statements it issues, up and down, and \<open>run_migrations\<close> runs those that are pending.  A statement
  does what the SQL standard says; where SQLite and PostgreSQL differ, it succeeds only if it does on both
  (a column under an index or a foreign key is not dropped, a foreign key names a table that exists, a
  column added without a default may be null).
\<close>

section \<open>Stores\<close>

datatype column_type = Uuid | Text_Type | String_Type | Integer | Boolean | Date_Time

datatype cell = Null | Text string | Number int | Flag bool

text \<open>\<open>co_when\<close> marks a generated column: \<open>CASE WHEN c THEN 1 ELSE NULL END\<close> for a column \<open>c\<close>.\<close>

record column =
  co_name :: string
  co_type :: column_type
  co_not_null :: bool
  co_unique :: bool
  co_default :: "cell option"
  co_when :: "string option"

datatype on_delete = Cascade | Set_Null

record foreign_key =
  fk_column :: string
  fk_target :: string
  fk_on_delete :: on_delete

type_synonym row = "string \<rightharpoonup> cell"

record table_state =
  tb_columns :: "column list"
  tb_fks :: "foreign_key list"
  tb_rows :: "row list"

record index_state =
  ix_table :: string
  ix_columns :: "string list"
  ix_unique :: bool

record store =
  st_tables :: "string \<rightharpoonup> table_state"
  st_indexes :: "(string \<times> index_state) list"

definition column_names :: "table_state \<Rightarrow> string list" where
  "column_names t = map co_name (tb_columns t)"

section \<open>Statements\<close>

datatype ddl_error = Refused_Statement

datatype statement =
    Create_Table string "column list" "foreign_key list"
  | Drop_Table string
  | Add_Column string column
  | Drop_Column string string
  | Create_Index string string "string list" bool
  | Drop_Index string string
  | Update_Where string string cell string cell

definition cell_of :: "table_state \<Rightarrow> row \<Rightarrow> string \<Rightarrow> cell" where
  "cell_of t r c =
     (case Option.bind (List.find (\<lambda>d. co_name d = c) (tb_columns t)) co_when of
        Some cond \<Rightarrow> if r cond = Some (Flag True) then Number 1 else Null
      | None \<Rightarrow> (case r c of Some v \<Rightarrow> v | None \<Rightarrow> Null))"

text \<open>Rows that agree on the columns of a unique index, none of them null.\<close>

definition keys_distinct :: "table_state \<Rightarrow> string list \<Rightarrow> bool" where
  "keys_distinct t cs =
     distinct (filter (\<lambda>vs. Null \<notin> set vs) (map (\<lambda>r. map (cell_of t r) cs) (tb_rows t)))"

definition new_cell :: "column \<Rightarrow> cell" where
  "new_cell c = (case co_default c of Some v \<Rightarrow> v | None \<Rightarrow> Null)"

definition in_table :: "string \<Rightarrow> store \<Rightarrow> (table_state \<Rightarrow> ddl_error + store) \<Rightarrow> ddl_error + store" where
  "in_table n s f = (case st_tables s n of None \<Rightarrow> Inl Refused_Statement | Some t \<Rightarrow> f t)"

definition set_table :: "string \<Rightarrow> table_state \<Rightarrow> store \<Rightarrow> store" where
  "set_table n t s = s\<lparr>st_tables := (st_tables s)(n \<mapsto> t)\<rparr>"

definition column_in_use :: "string \<Rightarrow> string \<Rightarrow> table_state \<Rightarrow> store \<Rightarrow> bool" where
  "column_in_use n c t s \<longleftrightarrow> list_ex (\<lambda>(_, i). ix_table i = n \<and> c \<in> set (ix_columns i)) (st_indexes s)
     \<or> list_ex (\<lambda>f. fk_column f = c) (tb_fks t)
     \<or> list_ex (\<lambda>d. co_name d = c \<and> co_unique d \<or> co_when d = Some c) (tb_columns t)"

fun execute :: "statement \<Rightarrow> store \<Rightarrow> ddl_error + store" where
  "execute (Create_Table n cs fks) s =
     (case st_tables s n of
        Some t \<Rightarrow> Inr s
      | None \<Rightarrow> if list_all (\<lambda>f. st_tables s (fk_target f) \<noteq> None) fks
                then Inr (set_table n \<lparr>tb_columns = cs, tb_fks = fks, tb_rows = []\<rparr> s)
                else Inl Refused_Statement)"
| "execute (Drop_Table n) s =
     in_table n s (\<lambda>t. Inr (s\<lparr>st_tables := (st_tables s)(n := None),
        st_indexes := filter (\<lambda>(_, i). ix_table i \<noteq> n) (st_indexes s)\<rparr>))"
| "execute (Add_Column n c) s =
     in_table n s (\<lambda>t.
       if co_name c \<in> set (column_names t) \<or> co_not_null c \<and> co_default c = None
          \<or> co_when c \<notin> insert None (Some ` set (column_names t))
       then Inl Refused_Statement
       else Inr (set_table n (t\<lparr>tb_columns := tb_columns t @ [c],
              tb_rows := (if co_when c = None then map (\<lambda>r. r(co_name c \<mapsto> new_cell c)) (tb_rows t)
                          else tb_rows t)\<rparr>) s))"
| "execute (Drop_Column n c) s =
     in_table n s (\<lambda>t.
       if c \<notin> set (column_names t) \<or> column_in_use n c t s then Inl Refused_Statement
       else Inr (set_table n (t\<lparr>tb_columns := filter (\<lambda>d. co_name d \<noteq> c) (tb_columns t),
              tb_rows := map (\<lambda>r. r(c := None)) (tb_rows t)\<rparr>) s))"
| "execute (Create_Index i n cs unique) s =
     in_table n s (\<lambda>t.
       if \<not> set cs \<subseteq> set (column_names t) \<or> i \<in> fst ` set (st_indexes s) \<or> unique \<and> \<not> keys_distinct t cs
       then Inl Refused_Statement
       else Inr (s\<lparr>st_indexes := st_indexes s @ [(i, \<lparr>ix_table = n, ix_columns = cs, ix_unique = unique\<rparr>)]\<rparr>))"
| "execute (Drop_Index i n) s =
     (if list_ex (\<lambda>(j, x). j = i \<and> ix_table x = n) (st_indexes s)
      then Inr (s\<lparr>st_indexes := filter (\<lambda>(j, _). j \<noteq> i) (st_indexes s)\<rparr>)
      else Inl Refused_Statement)"
| "execute (Update_Where n c v cond w) s =
     in_table n s (\<lambda>t. Inr (set_table n
       (t\<lparr>tb_rows := map (\<lambda>r. if r cond = Some w then r(c \<mapsto> v) else r) (tb_rows t)\<rparr>) s))"

fun run_all :: "statement list \<Rightarrow> store \<Rightarrow> ddl_error + store" where
  "run_all [] s = Inr s"
| "run_all (x # r) s = check (execute x s) (run_all r)"

section \<open>Columns\<close>

definition nullable :: "string \<Rightarrow> column_type \<Rightarrow> column" where
  "nullable n ty = \<lparr>co_name = n, co_type = ty, co_not_null = False, co_unique = False, co_default = None,
     co_when = None\<rparr>"

definition required :: "string \<Rightarrow> column_type \<Rightarrow> column" where
  "required n ty = (nullable n ty)\<lparr>co_not_null := True\<rparr>"

definition defaulted :: "string \<Rightarrow> column_type \<Rightarrow> cell \<Rightarrow> column" where
  "defaulted n ty v = (required n ty)\<lparr>co_default := Some v\<rparr>"

definition unique_column :: "string \<Rightarrow> column_type \<Rightarrow> column" where
  "unique_column n ty = (required n ty)\<lparr>co_unique := True\<rparr>"

definition references :: "string \<Rightarrow> string \<Rightarrow> on_delete \<Rightarrow> foreign_key" where
  "references c target action = \<lparr>fk_column = c, fk_target = target, fk_on_delete = action\<rparr>"

lemmas column_shapes = unique_column_def defaulted_def required_def nullable_def

section \<open>The initial schema\<close>

definition create_api_keys :: statement where
  "create_api_keys = Create_Table ''api_keys''
     [unique_column ''id'' Uuid, required ''name'' String_Type, unique_column ''key_hash'' String_Type,
      required ''prefix'' String_Type,
      (nullable ''bound_ips'' Text_Type)\<lparr>co_default := Some (Text ''0.0.0.0/0,::/0'')\<rparr>,
      defaulted ''max_concurrent_jobs'' Integer (Number 10), defaulted ''is_master'' Boolean (Flag False),
      defaulted ''can_manage_keys'' Boolean (Flag False), defaulted ''can_manage_hooks'' Boolean (Flag False),
      required ''created_at'' Date_Time, required ''updated_at'' Date_Time] []"

definition create_hooks :: statement where
  "create_hooks = Create_Table ''hooks''
     [unique_column ''id'' Uuid, unique_column ''name'' String_Type, nullable ''description'' Text_Type,
      required ''script_path'' String_Type, defaulted ''default_timeout_seconds'' Integer (Number 30),
      required ''created_at'' Date_Time, required ''updated_at'' Date_Time] []"

definition create_hook_parameters :: statement where
  "create_hook_parameters = Create_Table ''hook_parameters''
     [unique_column ''id'' Uuid, required ''hook_id'' Uuid, required ''param_key'' String_Type,
      nullable ''description'' Text_Type, nullable ''default_value'' Text_Type,
      defaulted ''is_required'' Boolean (Flag True), required ''created_at'' Date_Time]
     [references ''hook_id'' ''hooks'' Cascade]"

definition create_api_key_hook_permissions :: statement where
  "create_api_key_hook_permissions = Create_Table ''api_key_hook_permissions''
     [unique_column ''id'' Uuid, required ''api_key_id'' Uuid, required ''hook_id'' Uuid,
      defaulted ''can_execute'' Boolean (Flag True), defaulted ''can_manage'' Boolean (Flag False),
      required ''created_at'' Date_Time]
     [references ''api_key_id'' ''api_keys'' Cascade, references ''hook_id'' ''hooks'' Cascade]"

definition create_executions :: statement where
  "create_executions = Create_Table ''executions''
     [unique_column ''id'' Uuid, required ''hook_id'' Uuid, nullable ''api_key_id'' Uuid,
      required ''status'' String_Type, nullable ''exit_code'' Integer, defaulted ''stdout'' Text_Type (Text []),
      defaulted ''stderr'' Text_Type (Text []), defaulted ''parameters_json'' Text_Type (Text ''{}''),
      defaulted ''duration_ms'' Integer (Number 0), required ''timestamp'' Date_Time]
     [references ''hook_id'' ''hooks'' Cascade, references ''api_key_id'' ''api_keys'' Set_Null]"

definition create_audit_logs :: statement where
  "create_audit_logs = Create_Table ''audit_logs''
     [unique_column ''id'' Uuid, nullable ''api_key_id'' Uuid, required ''api_key_name'' String_Type,
      required ''api_key_prefix'' String_Type, required ''client_ip'' String_Type, required ''action'' String_Type,
      nullable ''target_resource'' String_Type, nullable ''details'' Text_Type, required ''timestamp'' Date_Time]
     [references ''api_key_id'' ''api_keys'' Set_Null]"

record migration =
  mg_name :: string
  mg_up :: "statement list"
  mg_down :: "statement list"

definition initial_schema :: migration where
  "initial_schema = \<lparr>mg_name = ''m20230101_090000_initial_schema'',
     mg_up =
       [create_api_keys, Create_Index ''idx-api_keys-prefix'' ''api_keys'' [''prefix''] False,
        create_hooks,
        create_hook_parameters,
        Create_Index ''idx-hook_parameters-hook_id-param_key'' ''hook_parameters'' [''hook_id'', ''param_key''] True,
        create_api_key_hook_permissions,
        Create_Index ''idx-akhp-api_key_id-hook_id'' ''api_key_hook_permissions'' [''api_key_id'', ''hook_id''] True,
        create_executions,
        Create_Index ''idx-executions-timestamp'' ''executions'' [''timestamp''] False,
        Create_Index ''idx-executions-hook_id'' ''executions'' [''hook_id''] False,
        create_audit_logs,
        Create_Index ''idx-audit_logs-action'' ''audit_logs'' [''action''] False,
        Create_Index ''idx-audit_logs-timestamp'' ''audit_logs'' [''timestamp''] False],
     mg_down =
       [Drop_Table ''audit_logs'', Drop_Table ''executions'', Drop_Table ''api_key_hook_permissions'',
        Drop_Table ''hook_parameters'', Drop_Table ''hooks'', Drop_Table ''api_keys'']\<rparr>"

section \<open>The later migrations\<close>

definition add_run_as_user :: migration where
  "add_run_as_user = \<lparr>mg_name = ''m20230102_090000_add_run_as_user'',
     mg_up = [Add_Column ''hooks'' (nullable ''run_as_user'' String_Type)],
     mg_down = [Drop_Column ''hooks'' ''run_as_user'']\<rparr>"

definition add_signing_secret :: migration where
  "add_signing_secret = \<lparr>mg_name = ''m20230103_090000_add_signing_secret'',
     mg_up =
       [Add_Column ''api_keys'' (nullable ''key_id'' String_Type),
        Add_Column ''api_keys'' (nullable ''signing_secret'' Text_Type),
        Create_Index ''idx-api_keys-key_id'' ''api_keys'' [''key_id''] True],
     mg_down =
       [Drop_Index ''idx-api_keys-key_id'' ''api_keys'', Drop_Column ''api_keys'' ''key_id'',
        Drop_Column ''api_keys'' ''signing_secret'']\<rparr>"

definition add_hmac_mode :: migration where
  "add_hmac_mode = \<lparr>mg_name = ''m20230104_090000_add_hmac_mode'',
     mg_up = [Add_Column ''api_keys'' (defaulted ''hmac_mode'' String_Type (Text ''CANONICAL_V1''))],
     mg_down = [Drop_Column ''api_keys'' ''hmac_mode'']\<rparr>"

definition add_hook_soft_delete :: migration where
  "add_hook_soft_delete = \<lparr>mg_name = ''m20230105_090000_add_hook_soft_delete'',
     mg_up =
       [Add_Column ''hooks'' (defaulted ''is_deleted'' Boolean (Flag False)),
        Add_Column ''hooks'' (nullable ''deleted_at'' Date_Time),
        Add_Column ''hooks'' (nullable ''deleted_by'' Text_Type)],
     mg_down =
       [Drop_Column ''hooks'' ''deleted_by'', Drop_Column ''hooks'' ''deleted_at'',
        Drop_Column ''hooks'' ''is_deleted'']\<rparr>"

definition MARKER_COLUMN :: string where
  "MARKER_COLUMN = ''master_marker''"

definition MARKER_INDEX :: string where
  "MARKER_INDEX = ''idx_api_keys_master_marker''"

definition add_marker_column :: statement where
  "add_marker_column = Add_Column ''api_keys'' ((nullable MARKER_COLUMN Integer)\<lparr>co_when := Some ''is_master''\<rparr>)"

definition master_key_uniqueness :: migration where
  "master_key_uniqueness = \<lparr>mg_name = ''m20230106_090000_master_key_uniqueness'',
     mg_up = [add_marker_column, Create_Index MARKER_INDEX ''api_keys'' [MARKER_COLUMN] True],
     mg_down = [Drop_Index MARKER_INDEX ''api_keys'', Drop_Column ''api_keys'' MARKER_COLUMN]\<rparr>"

definition add_key_reference :: "string \<Rightarrow> string \<Rightarrow> statement" where
  "add_key_reference table column = Add_Column table (nullable column Uuid)"

definition key_lineage_and_resource_ownership :: migration where
  "key_lineage_and_resource_ownership =
     \<lparr>mg_name = ''m20230107_090000_key_lineage_and_resource_ownership'',
     mg_up =
       [add_key_reference ''api_keys'' ''parent_key_id'', add_key_reference ''api_keys'' ''owner_key_id'',
        add_key_reference ''hooks'' ''owner_key_id'',
        Create_Index ''idx_api_keys_parent_key_id'' ''api_keys'' [''parent_key_id''] False,
        Create_Index ''idx_api_keys_owner_key_id'' ''api_keys'' [''owner_key_id''] False,
        Create_Index ''idx_hooks_owner_key_id'' ''hooks'' [''owner_key_id''] False],
     mg_down =
       [Drop_Index ''idx_hooks_owner_key_id'' ''hooks'', Drop_Index ''idx_api_keys_owner_key_id'' ''api_keys'',
        Drop_Index ''idx_api_keys_parent_key_id'' ''api_keys'', Drop_Column ''hooks'' ''owner_key_id'',
        Drop_Column ''api_keys'' ''owner_key_id'', Drop_Column ''api_keys'' ''parent_key_id'']\<rparr>"

definition add_can_view_execution :: migration where
  "add_can_view_execution = \<lparr>mg_name = ''m20260809_090000_add_can_view_execution'',
     mg_up = [Add_Column ''api_key_hook_permissions'' (defaulted ''can_view_execution'' Boolean (Flag False))],
     mg_down = [Drop_Column ''api_key_hook_permissions'' ''can_view_execution'']\<rparr>"

definition drop_api_key_owner_key_id :: migration where
  "drop_api_key_owner_key_id = \<lparr>mg_name = ''m20260810_090000_drop_api_key_owner_key_id'',
     mg_up = [Drop_Index ''idx_api_keys_owner_key_id'' ''api_keys'', Drop_Column ''api_keys'' ''owner_key_id''],
     mg_down =
       [Add_Column ''api_keys'' (nullable ''owner_key_id'' Uuid),
        Create_Index ''idx_api_keys_owner_key_id'' ''api_keys'' [''owner_key_id''] False]\<rparr>"

definition add_hook_auth_mode :: migration where
  "add_hook_auth_mode = \<lparr>mg_name = ''m20260819_120414_add_hook_auth_mode'',
     mg_up =
       [Add_Column ''hooks'' (defaulted ''auth_mode'' String_Type (Text ''CANONICAL_V1'')),
        Add_Column ''hooks'' (nullable ''hmac_secret'' Text_Type),
        Add_Column ''hooks'' (nullable ''signature_header'' String_Type),
        Add_Column ''hooks'' (nullable ''signature_prefix'' String_Type),
        Add_Column ''hooks'' (nullable ''canonical_template'' Text_Type)],
     mg_down =
       [Drop_Column ''hooks'' ''canonical_template'', Drop_Column ''hooks'' ''signature_prefix'',
        Drop_Column ''hooks'' ''signature_header'', Drop_Column ''hooks'' ''hmac_secret'',
        Drop_Column ''hooks'' ''auth_mode'']\<rparr>"

definition consolidate_hmac_modes :: migration where
  "consolidate_hmac_modes = \<lparr>mg_name = ''m20260819_141730_consolidate_hmac_modes'',
     mg_up =
       [Update_Where ''api_keys'' ''hmac_mode'' (Text ''CANONICAL_V1'') ''hmac_mode'' (Text ''BODY_ONLY''),
        Add_Column ''api_keys'' (nullable ''canonical_template'' Text_Type)],
     mg_down = [Drop_Column ''api_keys'' ''canonical_template'']\<rparr>"

definition add_hook_sample_payload :: migration where
  "add_hook_sample_payload = \<lparr>mg_name = ''m20260820_090000_add_hook_sample_payload'',
     mg_up = [Add_Column ''hooks'' (nullable ''sample_payload_json'' Text_Type)],
     mg_down = [Drop_Column ''hooks'' ''sample_payload_json'']\<rparr>"

definition add_hook_args_template :: migration where
  "add_hook_args_template = \<lparr>mg_name = ''m20260821_090000_add_hook_args_template'',
     mg_up = [Add_Column ''hooks'' (nullable ''args_template'' Text_Type)],
     mg_down = [Drop_Column ''hooks'' ''args_template'']\<rparr>"

definition migrations :: "migration list" where
  "migrations =
    [initial_schema, add_run_as_user, add_signing_secret, add_hmac_mode, add_hook_soft_delete,
     master_key_uniqueness, key_lineage_and_resource_ownership, add_can_view_execution,
     drop_api_key_owner_key_id, add_hook_auth_mode, consolidate_hmac_modes, add_hook_sample_payload,
     add_hook_args_template]"

text \<open>\<open>Migrator::up(db, None)\<close>: the migrations not yet recorded, in order.\<close>

definition run_migrations :: "string list \<Rightarrow> store \<Rightarrow> ddl_error + store" where
  "run_migrations applied s =
     run_all (concat (map mg_up (filter (\<lambda>m. mg_name m \<notin> set applied) migrations))) s"

definition empty_store :: store where
  "empty_store = \<lparr>st_tables = (\<lambda>_. None), st_indexes = []\<rparr>"

lemmas migration_steps = initial_schema_def add_run_as_user_def add_signing_secret_def add_hmac_mode_def
  add_hook_soft_delete_def master_key_uniqueness_def key_lineage_and_resource_ownership_def
  add_can_view_execution_def drop_api_key_owner_key_id_def add_hook_auth_mode_def consolidate_hmac_modes_def
  add_hook_sample_payload_def add_hook_args_template_def

section \<open>Undoing a migration\<close>

text \<open>Every reference inside the schema is to a column that exists, and rows have cells for columns only.\<close>

definition table_fits :: "table_state \<Rightarrow> bool" where
  "table_fits t \<longleftrightarrow> (\<forall>r\<in>set (tb_rows t). dom r \<subseteq> set (column_names t))
     \<and> (\<forall>f\<in>set (tb_fks t). fk_column f \<in> set (column_names t))
     \<and> (\<forall>d\<in>set (tb_columns t). \<forall>c. co_when d = Some c \<longrightarrow> c \<in> set (column_names t))"

definition index_fits :: "store \<Rightarrow> index_state \<Rightarrow> bool" where
  "index_fits s x \<longleftrightarrow> (\<exists>t. st_tables s (ix_table x) = Some t \<and> set (ix_columns x) \<subseteq> set (column_names t))"

definition fits :: "store \<Rightarrow> bool" where
  "fits s \<longleftrightarrow> (\<forall>n t. st_tables s n = Some t \<longrightarrow> table_fits t) \<and> (\<forall>x\<in>snd ` set (st_indexes s). index_fits s x)"

lemma fits_table: "fits s \<Longrightarrow> st_tables s n = Some t \<Longrightarrow> table_fits t"
  by (simp add: fits_def)

lemma fits_index:
  "fits s \<Longrightarrow> st_tables s n = Some t \<Longrightarrow> (i, x) \<in> set (st_indexes s) \<Longrightarrow> ix_table x = n
     \<Longrightarrow> set (ix_columns x) \<subseteq> set (column_names t)"
  by (force simp: fits_def index_fits_def)

lemma in_table_ok: "in_table n s f = Inr s' \<longleftrightarrow> (\<exists>t. st_tables s n = Some t \<and> f t = Inr s')"
  by (auto simp: in_table_def split: option.splits)

lemma set_table_simps [simp]:
  "st_tables (set_table n t s) = (st_tables s)(n \<mapsto> t)" "st_indexes (set_table n t s) = st_indexes s"
  by (simp_all add: set_table_def)

lemma set_table_back: "st_tables s n = Some t \<Longrightarrow> set_table n t (set_table n t' s) = s"
  by (simp add: set_table_def fun_upd_idem)

lemma undo_add_column:
  assumes "execute (Add_Column n c) s = Inr s'" and "fits s" and "\<not> co_unique c"
  shows "execute (Drop_Column n (co_name c)) s' = Inr s"
proof -
  from assms(1) obtain t where t: "st_tables s n = Some t" and new: "co_name c \<notin> set (column_names t)"
    and src: "co_when c \<in> insert None (Some ` set (column_names t))" and s': "s' = set_table n (t\<lparr>tb_columns := tb_columns t @ [c],
              tb_rows := (if co_when c = None then map (\<lambda>r. r(co_name c \<mapsto> new_cell c)) (tb_rows t)
                          else tb_rows t)\<rparr>) s"
    by (auto simp: in_table_ok split: if_splits)
  then have gen: "co_when c \<noteq> Some (co_name c)" by auto
  let ?t = "t\<lparr>tb_columns := tb_columns t @ [c],
    tb_rows := (if co_when c = None then map (\<lambda>r. r(co_name c \<mapsto> new_cell c)) (tb_rows t) else tb_rows t)\<rparr>"
  have fit: "table_fits t" and ix: "\<And>i x. (i, x) \<in> set (st_indexes s) \<Longrightarrow> ix_table x = n \<Longrightarrow> co_name c \<notin> set (ix_columns x)"
    using fits_table[OF assms(2) t] fits_index[OF assms(2) t] new by blast+
  have "filter (\<lambda>d. co_name d \<noteq> co_name c) (tb_columns t) = tb_columns t"
    using new by (intro filter_True ballI) (metis column_names_def image_eqI set_map)
  moreover have "r(co_name c := None) = r" if "r \<in> set (tb_rows t)" for r
  proof -
    have "dom r \<subseteq> set (column_names t)" using fit that by (simp add: table_fits_def)
    with new have "co_name c \<notin> dom r" by blast
    then show ?thesis by (simp add: domIff fun_upd_idem)
  qed
  then have "map (\<lambda>r. r(co_name c := None)) (tb_rows t) = tb_rows t" by (simp add: map_idI)
  ultimately have "?t\<lparr>tb_columns := filter (\<lambda>d. co_name d \<noteq> co_name c) (tb_columns ?t),
      tb_rows := map (\<lambda>r. r(co_name c := None)) (tb_rows ?t)\<rparr> = t"
    by (simp add: comp_def)
  moreover have "\<not> column_in_use n (co_name c) ?t s'"
  proof -
    have "\<forall>f\<in>set (tb_fks t). fk_column f \<noteq> co_name c"
      and "\<forall>d\<in>set (tb_columns t). co_when d \<noteq> Some (co_name c)"
      using fit new by (auto simp: table_fits_def)
    moreover have "\<forall>d\<in>set (tb_columns t). co_name d \<noteq> co_name c"
      using new by (metis column_names_def image_eqI set_map)
    ultimately show ?thesis using ix gen assms(3) by (auto simp: column_in_use_def list_ex_iff s')
  qed
  ultimately show ?thesis using t by (simp add: in_table_def s' column_names_def set_table_back)
qed

lemma undo_create_index:
  assumes "execute (Create_Index i n cs u) s = Inr s'"
  shows "execute (Drop_Index i n) s' = Inr s"
proof -
  from assms have new: "i \<notin> fst ` set (st_indexes s)"
    and s': "s' = s\<lparr>st_indexes := st_indexes s @ [(i, \<lparr>ix_table = n, ix_columns = cs, ix_unique = u\<rparr>)]\<rparr>"
    by (auto simp: in_table_ok split: if_splits)
  from new have "filter (\<lambda>(j, _). j \<noteq> i) (st_indexes s) = st_indexes s" by (force simp: filter_id_conv)
  then show ?thesis by (simp add: s')
qed

text \<open>The statement that takes the other back, for the kinds of statement the migrations add.\<close>

inductive undoes :: "statement \<Rightarrow> statement \<Rightarrow> bool" where
  column: "\<not> co_unique c \<Longrightarrow> undoes (Drop_Column n (co_name c)) (Add_Column n c)"
| index: "undoes (Drop_Index i n) (Create_Index i n cs u)"

inductive_simps undoes_column: "undoes (Drop_Column n c) (Add_Column m d)"
inductive_simps undoes_index: "undoes (Drop_Index i n) (Create_Index j m cs u)"

lemma undoes_step: "undoes d u \<Longrightarrow> execute u s = Inr s' \<Longrightarrow> fits s \<Longrightarrow> execute d s' = Inr s"
  by (erule undoes.cases) (auto simp del: execute.simps intro: undo_add_column undo_create_index)

lemma fits_add_column:
  assumes "execute (Add_Column n c) s = Inr s'" and "fits s"
  shows "fits s'"
proof -
  let ?t = "\<lambda>t. t\<lparr>tb_columns := tb_columns t @ [c],
    tb_rows := (if co_when c = None then map (\<lambda>r. r(co_name c \<mapsto> new_cell c)) (tb_rows t) else tb_rows t)\<rparr>"
  from assms(1) obtain t where t: "st_tables s n = Some t" and s': "s' = set_table n (?t t) s"
    and gen: "co_when c \<in> insert None (Some ` set (column_names t))"
    by (auto simp: in_table_ok split: if_splits)
  have "table_fits (?t t)"
    using fits_table[OF assms(2) t] gen by (auto simp: table_fits_def column_names_def split: if_splits)
  then have "\<forall>m t'. st_tables s' m = Some t' \<longrightarrow> table_fits t'"
    using fits_table[OF assms(2)] by (auto simp: s')
  moreover have "index_fits s' x" if "index_fits s x" for x
    using that t by (auto simp: index_fits_def s' column_names_def)
  ultimately show ?thesis using assms(2) by (auto simp: fits_def s')
qed

lemma fits_create_index:
  assumes "execute (Create_Index i n cs u) s = Inr s'" and "fits s"
  shows "fits s'"
proof -
  from assms(1) obtain t where t: "st_tables s n = Some t" "set cs \<subseteq> set (column_names t)"
    and s': "s' = s\<lparr>st_indexes := st_indexes s @ [(i, \<lparr>ix_table = n, ix_columns = cs, ix_unique = u\<rparr>)]\<rparr>"
    by (auto simp: in_table_ok split: if_splits)
  then have "index_fits s' \<lparr>ix_table = n, ix_columns = cs, ix_unique = u\<rparr>" by (simp add: index_fits_def)
  moreover have "index_fits s' x = index_fits s x" for x by (simp add: index_fits_def s')
  ultimately show ?thesis using assms(2) by (auto simp: fits_def s')
qed

lemma undoes_fits: "undoes d u \<Longrightarrow> execute u s = Inr s' \<Longrightarrow> fits s \<Longrightarrow> fits s'"
  by (erule undoes.cases) (auto simp del: execute.simps intro: fits_add_column fits_create_index)

lemma run_all_append: "run_all (xs @ ys) s = check (run_all xs s) (run_all ys)"
proof (induction xs arbitrary: s)
  case (Cons x xs)
  then show ?case by (cases "execute x s") auto
qed auto

lemma undo_all:
  "list_all2 undoes ds us \<Longrightarrow> run_all us s = Inr s' \<Longrightarrow> fits s \<Longrightarrow> run_all (rev ds) s' = Inr s"
proof (induction ds us arbitrary: s rule: list_all2_induct)
  case (Cons d ds u us)
  then obtain s1 where s1: "execute u s = Inr s1" "run_all us s1 = Inr s'" by (auto simp: early_return)
  with Cons undoes_fits undoes_step show ?case by (simp add: run_all_append)
qed simp

lemma take_back:
  assumes "list_all2 undoes (rev (mg_down m)) (mg_up m)" and "run_all (mg_up m) s = Inr s'" and "fits s"
  shows "run_all (mg_down m) s' = Inr s"
  using undo_all[OF assms] by simp

lemma reversed_steps:
  "list_all2 undoes (rev (mg_down add_run_as_user)) (mg_up add_run_as_user)"
  "list_all2 undoes (rev (mg_down add_hmac_mode)) (mg_up add_hmac_mode)"
  "list_all2 undoes (rev (mg_down add_hook_soft_delete)) (mg_up add_hook_soft_delete)"
  "list_all2 undoes (rev (mg_down master_key_uniqueness)) (mg_up master_key_uniqueness)"
  "list_all2 undoes (rev (mg_down key_lineage_and_resource_ownership)) (mg_up key_lineage_and_resource_ownership)"
  "list_all2 undoes (rev (mg_down add_can_view_execution)) (mg_up add_can_view_execution)"
  "list_all2 undoes (rev (mg_down add_hook_auth_mode)) (mg_up add_hook_auth_mode)"
  "list_all2 undoes (rev (mg_down add_hook_sample_payload)) (mg_up add_hook_sample_payload)"
  "list_all2 undoes (rev (mg_down add_hook_args_template)) (mg_up add_hook_args_template)"
  by (simp_all add: migration_steps undoes_column undoes_index add_marker_column_def add_key_reference_def
      MARKER_COLUMN_def column_shapes)

text \<open>Of two columns added, the first may be dropped first.\<close>

lemma undo_first_column:
  assumes "execute (Add_Column n c) s = Inr s1" and "execute (Add_Column n d) s1 = Inr s2" and "fits s"
    and "\<not> co_unique c" "co_when c = None" "\<not> co_unique d" "co_when d = None"
  shows "\<exists>s1'. execute (Drop_Column n (co_name c)) s2 = Inr s1' \<and> execute (Add_Column n d) s = Inr s1'"
proof -
  from assms(1,5) obtain t where t: "st_tables s n = Some t" and new: "co_name c \<notin> set (column_names t)"
    and s1: "s1 = set_table n (t\<lparr>tb_columns := tb_columns t @ [c],
      tb_rows := map (\<lambda>r. r(co_name c \<mapsto> new_cell c)) (tb_rows t)\<rparr>) s"
    by (auto simp: in_table_ok split: if_splits)
  let ?rows = "map (\<lambda>r. r(co_name c \<mapsto> new_cell c, co_name d \<mapsto> new_cell d)) (tb_rows t)"
  let ?t = "t\<lparr>tb_columns := tb_columns t @ [c, d], tb_rows := ?rows\<rparr>"
  from assms(2,7) have d: "co_name d \<notin> set (column_names t)" "co_name d \<noteq> co_name c"
    "\<not> (co_not_null d \<and> co_default d = None)" and s2: "s2 = set_table n ?t s"
    by (auto simp: in_table_ok s1 column_names_def set_table_def comp_def split: if_splits)
  have fit: "table_fits t" and ix: "\<And>i x. (i, x) \<in> set (st_indexes s) \<Longrightarrow> ix_table x = n \<Longrightarrow> co_name c \<notin> set (ix_columns x)"
    using fits_table[OF assms(3) t] fits_index[OF assms(3) t] new by blast+
  have cols: "\<forall>x\<in>set (tb_columns t). co_name x \<noteq> co_name c"
    using new by (metis column_names_def image_eqI set_map)
  have "r(co_name c \<mapsto> new_cell c, co_name d \<mapsto> new_cell d, co_name c := None) = r(co_name d \<mapsto> new_cell d)"
    if "r \<in> set (tb_rows t)" for r
  proof -
    have "dom r \<subseteq> set (column_names t)" using fit that by (simp add: table_fits_def)
    with new have "r (co_name c) = None" by auto
    with d(2) show ?thesis by (auto simp: fun_eq_iff)
  qed
  then have "?t\<lparr>tb_columns := filter (\<lambda>x. co_name x \<noteq> co_name c) (tb_columns ?t),
      tb_rows := map (\<lambda>r. r(co_name c := None)) (tb_rows ?t)\<rparr>
    = t\<lparr>tb_columns := tb_columns t @ [d], tb_rows := map (\<lambda>r. r(co_name d \<mapsto> new_cell d)) (tb_rows t)\<rparr>"
    using cols d(2) by (simp add: comp_def)
  moreover have "\<not> column_in_use n (co_name c) ?t s2"
  proof -
    have "\<forall>f\<in>set (tb_fks t). fk_column f \<noteq> co_name c"
      and "\<forall>x\<in>set (tb_columns t). co_when x \<noteq> Some (co_name c)"
      using fit new by (auto simp: table_fits_def)
    then show ?thesis using ix cols d(2) assms(4-7) by (auto simp: column_in_use_def list_ex_iff s2)
  qed
  ultimately show ?thesis using t d assms(7) by (simp add: in_table_def s2 column_names_def set_table_def)
qed

lemma undo_signing_secret:
  assumes "fits s" and "run_all (mg_up add_signing_secret) s = Inr s'"
  shows "run_all (mg_down add_signing_secret) s' = Inr s"
proof -
  let ?c = "nullable ''key_id'' String_Type" and ?d = "nullable ''signing_secret'' Text_Type"
  from assms(2) obtain s1 s2 where up: "execute (Add_Column ''api_keys'' ?c) s = Inr s1"
    "execute (Add_Column ''api_keys'' ?d) s1 = Inr s2"
    "execute (Create_Index ''idx-api_keys-key_id'' ''api_keys'' [''key_id''] True) s2 = Inr s'"
    by (auto simp: add_signing_secret_def early_return simp del: execute.simps)
  obtain s1' where drop: "execute (Drop_Column ''api_keys'' (co_name ?c)) s2 = Inr s1'"
    and other: "execute (Add_Column ''api_keys'' ?d) s = Inr s1'"
    using undo_first_column[OF up(1,2) assms(1)] by (auto simp: nullable_def simp del: execute.simps)
  have "execute (Drop_Column ''api_keys'' (co_name ?d)) s1' = Inr s"
    using other assms(1) by (rule undo_add_column) (simp add: nullable_def)
  with drop undo_create_index[OF up(3)] show ?thesis
    by (simp add: add_signing_secret_def nullable_def del: execute.simps)
qed

text \<open>
  C24. Going down takes going up back.  On any database whose indexes, foreign keys and generated columns refer
  to columns that exist, a migration that went up and then comes down leaves every table, every row and every
  index as it was.  Excepted are the three that lose something on purpose: the first (its down drops the
  tables), the one that drops a column, and the one that rewrites a retired mode.
\<close>

theorem downgrade_undoes_upgrade:
  assumes "m \<in> set migrations" and "m \<notin> {initial_schema, drop_api_key_owner_key_id, consolidate_hmac_modes}"
    and "fits s" and "run_all (mg_up m) s = Inr s'"
  shows "run_all (mg_down m) s' = Inr s"
proof (cases "m = add_signing_secret")
  case False
  then have "list_all2 undoes (rev (mg_down m)) (mg_up m)"
    using assms(1,2) reversed_steps unfolding migrations_def by auto
  then show ?thesis using assms(3,4) by (intro take_back)
next
  case True
  with assms(3,4) show ?thesis by (auto intro: undo_signing_secret)
qed

section \<open>What an upgrade keeps\<close>

definition kept_row :: "string \<Rightarrow> row \<Rightarrow> row \<Rightarrow> bool" where
  "kept_row n r r' \<longleftrightarrow> (\<forall>c v. r c = Some v \<and> (n, c) \<noteq> (''api_keys'', ''owner_key_id'')
     \<longrightarrow> r' c = Some v \<or> (n = ''api_keys'' \<and> c = ''hmac_mode'' \<and> v = Text ''BODY_ONLY''
          \<and> r' c = Some (Text ''CANONICAL_V1'')))"

definition kept :: "store \<Rightarrow> store \<Rightarrow> bool" where
  "kept s s' \<longleftrightarrow> (\<forall>n t. st_tables s n = Some t
     \<longrightarrow> (\<exists>t'. st_tables s' n = Some t' \<and> list_all2 (kept_row n) (tb_rows t) (tb_rows t')))"

fun harmless :: "statement \<Rightarrow> bool" where
  "harmless (Create_Table n cs fks) \<longleftrightarrow> fk_column ` set fks \<subseteq> co_name ` set cs \<and> co_when ` set cs \<subseteq> {None}"
| "harmless (Drop_Table n) \<longleftrightarrow> False"
| "harmless (Add_Column n c) \<longleftrightarrow> new_cell c \<noteq> Text ''BODY_ONLY''"
| "harmless (Drop_Column n c) \<longleftrightarrow> n = ''api_keys'' \<and> c = ''owner_key_id''"
| "harmless (Create_Index i n cs u) \<longleftrightarrow> True"
| "harmless (Drop_Index i n) \<longleftrightarrow> True"
| "harmless (Update_Where n c v d w) \<longleftrightarrow> n = ''api_keys'' \<and> c = ''hmac_mode'' \<and> v = Text ''CANONICAL_V1''
     \<and> d = ''hmac_mode'' \<and> w = Text ''BODY_ONLY''"

lemma kept_row_refl [simp]: "kept_row n r r"
  by (simp add: kept_row_def)

lemma kept_refl [simp]: "kept s s"
  by (simp add: kept_def list_all2_same)

lemma kept_row_trans: "kept_row n r1 r2 \<Longrightarrow> kept_row n r2 r3 \<Longrightarrow> kept_row n r1 r3"
proof -
  assume a: "kept_row n r1 r2" "kept_row n r2 r3"
  have "r3 c = Some v \<or> (n = ''api_keys'' \<and> c = ''hmac_mode'' \<and> v = Text ''BODY_ONLY'' \<and> r3 c = Some (Text ''CANONICAL_V1''))"
    if "r1 c = Some v" "(n, c) \<noteq> (''api_keys'', ''owner_key_id'')" for c v
  proof -
    have step: "r' c = Some v' \<or> (n = ''api_keys'' \<and> c = ''hmac_mode'' \<and> v' = Text ''BODY_ONLY'' \<and> r' c = Some (Text ''CANONICAL_V1''))"
      if "kept_row n r r'" "r c = Some v'" for r r' v'
      using that \<open>(n, c) \<noteq> _\<close> unfolding kept_row_def by blast
    from step[OF a(1) that(1)] step[OF a(2)] show ?thesis by fastforce
  qed
  then show ?thesis unfolding kept_row_def by blast
qed

lemma kept_trans: "kept s1 s2 \<Longrightarrow> kept s2 s3 \<Longrightarrow> kept s1 s3"
  unfolding kept_def
proof (intro allI impI)
  fix n t
  assume a: "\<forall>n t. st_tables s1 n = Some t \<longrightarrow> (\<exists>t'. st_tables s2 n = Some t' \<and> list_all2 (kept_row n) (tb_rows t) (tb_rows t'))"
    "\<forall>n t. st_tables s2 n = Some t \<longrightarrow> (\<exists>t'. st_tables s3 n = Some t' \<and> list_all2 (kept_row n) (tb_rows t) (tb_rows t'))"
    "st_tables s1 n = Some t"
  then obtain t2 where t2: "st_tables s2 n = Some t2" "list_all2 (kept_row n) (tb_rows t) (tb_rows t2)" by blast
  with a(2) obtain t3 where t3: "st_tables s3 n = Some t3" "list_all2 (kept_row n) (tb_rows t2) (tb_rows t3)" by blast
  have "list_all2 (kept_row n) (tb_rows t) (tb_rows t3)"
    by (rule list_all2_trans[OF _ t2(2) t3(2)]) (rule kept_row_trans)
  with t3(1) show "\<exists>t'. st_tables s3 n = Some t' \<and> list_all2 (kept_row n) (tb_rows t) (tb_rows t')" by blast
qed

lemma kept_table:
  assumes "st_tables s n = Some t" and "\<And>r. r \<in> set (tb_rows t) \<Longrightarrow> kept_row n r (f r)" and "tb_rows t' = map f (tb_rows t)"
  shows "kept s (set_table n t' s)"
  using assms by (auto simp: kept_def list_all2_same list_all2_conv_all_nth)

lemma kept_add_column:
  assumes "execute (Add_Column n c) s = Inr s'" and "fits s"
  shows "kept s s'"
proof -
  let ?f = "\<lambda>r. if co_when c = None then r(co_name c \<mapsto> new_cell c) else r"
  from assms(1) obtain t t' where t: "st_tables s n = Some t" "co_name c \<notin> set (column_names t)"
    and s': "s' = set_table n t' s" "tb_rows t' = map ?f (tb_rows t)"
    by (auto simp: in_table_ok split: if_splits)
  have "kept_row n r (?f r)" if "r \<in> set (tb_rows t)" for r
  proof -
    have "dom r \<subseteq> set (column_names t)" using fits_table[OF assms(2) t(1)] that by (simp add: table_fits_def)
    with t(2) have "r (co_name c) = None" by auto
    then show ?thesis by (auto simp: kept_row_def)
  qed
  then show ?thesis unfolding s'(1) by (rule kept_table[OF t(1) _ s'(2)])
qed

lemma fits_rows:
  assumes "fits s" and "st_tables s n = Some t" and "column_names t' = column_names t" "tb_fks t' = tb_fks t"
    "tb_columns t' = tb_columns t" and "\<And>r. r \<in> set (tb_rows t') \<Longrightarrow> dom r \<subseteq> set (column_names t)"
  shows "fits (set_table n t' s)"
proof -
  have "table_fits t'" using fits_table[OF assms(1,2)] assms(3-6) by (simp add: table_fits_def)
  moreover have "index_fits (set_table n t' s) x" if "index_fits s x" for x
    using that assms(2,3) by (auto simp: index_fits_def)
  ultimately show ?thesis using assms(1) by (auto simp: fits_def)
qed

lemma fits_create_table:
  assumes "execute (Create_Table n cs fks) s = Inr s'" and "fits s" and "harmless (Create_Table n cs fks)"
  shows "fits s' \<and> kept s s'"
proof (cases "st_tables s n")
  case None
  let ?t = "\<lparr>tb_columns = cs, tb_fks = fks, tb_rows = []\<rparr>"
  from None assms have s': "s' = set_table n ?t s" by (auto split: if_splits)
  have "table_fits ?t" using assms(3) by (auto simp: table_fits_def column_names_def)
  moreover have "index_fits s' x" if "index_fits s x" for x using that None by (auto simp: index_fits_def s')
  ultimately have "fits s'" using assms(2) by (auto simp: fits_def s')
  moreover have "kept s s'" using None by (auto simp: kept_def s' list_all2_same)
  ultimately show ?thesis by blast
qed (use assms in simp)

lemma fits_drop_column:
  assumes "execute (Drop_Column n c) s = Inr s'" and "fits s" and "harmless (Drop_Column n c)"
  shows "fits s' \<and> kept s s'"
proof -
  let ?t = "\<lambda>t. t\<lparr>tb_columns := filter (\<lambda>d. co_name d \<noteq> c) (tb_columns t), tb_rows := map (\<lambda>r. r(c := None)) (tb_rows t)\<rparr>"
  from assms(1) obtain t where t: "st_tables s n = Some t" "\<not> column_in_use n c t s" and s': "s' = set_table n (?t t) s"
    by (auto simp: in_table_ok split: if_splits)
  have names: "set (column_names (?t t)) = set (column_names t) - {c}" by (auto simp: column_names_def)
  have "table_fits (?t t)"
  proof -
    have fit: "table_fits t" by (rule fits_table[OF assms(2) t(1)])
    have "\<forall>f\<in>set (tb_fks t). fk_column f \<noteq> c" "\<forall>d\<in>set (tb_columns t). co_when d \<noteq> Some c"
      using t(2) by (auto simp: column_in_use_def list_ex_iff)
    with fit show ?thesis unfolding table_fits_def names by (simp, blast)
  qed
  moreover have "index_fits s' x" if "index_fits s x" "x \<in> snd ` set (st_indexes s)" for x
    using that t names by (force simp: index_fits_def s' column_in_use_def list_ex_iff)
  ultimately have "fits s'" using assms(2) by (auto simp: fits_def s')
  moreover have "kept s s'"
    unfolding s' by (rule kept_table[OF t(1), of "\<lambda>r. r(c := None)"]) (use assms(3) in \<open>auto simp: kept_row_def\<close>)
  ultimately show ?thesis by blast
qed

lemma fits_update:
  assumes "execute (Update_Where n c v d w) s = Inr s'" and "fits s" and "harmless (Update_Where n c v d w)"
  shows "fits s' \<and> kept s s'"
proof -
  let ?f = "\<lambda>r. if r d = Some w then r(c \<mapsto> v) else r"
  from assms(1) obtain t where t: "st_tables s n = Some t" and s': "s' = set_table n (t\<lparr>tb_rows := map ?f (tb_rows t)\<rparr>) s"
    by (auto simp: in_table_ok)
  have rows: "dom (?f r) \<subseteq> set (column_names t)" if "r \<in> set (tb_rows t)" for r
    using fits_table[OF assms(2) t] that assms(3) by (auto simp: table_fits_def split: if_splits)
  have "dom r' \<subseteq> set (column_names t)" if r': "r' \<in> set (map ?f (tb_rows t))" for r'
  proof -
    from r' obtain r where "r \<in> set (tb_rows t)" "r' = ?f r" unfolding set_map by (elim imageE)
    with rows show ?thesis by simp
  qed
  then have "fits s'" unfolding s' by (intro fits_rows[OF assms(2) t]) (simp_all add: column_names_def)
  moreover have "kept s s'"
    unfolding s' by (rule kept_table[OF t, of ?f]) (use assms(3) in \<open>auto simp: kept_row_def\<close>)
  ultimately show ?thesis by blast
qed

lemma fits_drop_index:
  assumes "execute (Drop_Index i n) s = Inr s'" and "fits s"
  shows "fits s' \<and> kept s s'"
proof -
  from assms(1) have s': "s' = s\<lparr>st_indexes := filter (\<lambda>(j, _). j \<noteq> i) (st_indexes s)\<rparr>" by (auto split: if_splits)
  have "index_fits s' x = index_fits s x" for x by (simp add: index_fits_def s')
  then have "fits s'" using assms(2) by (auto simp: fits_def s')
  moreover have "kept s s'" by (simp add: kept_def s' list_all2_same)
  ultimately show ?thesis by blast
qed

lemma kept_create_index: "execute (Create_Index i n cs u) s = Inr s' \<Longrightarrow> kept s s'"
  by (auto simp: in_table_ok kept_def list_all2_same split: if_splits)

lemma harmless_step:
  assumes "execute x s = Inr s'" and "harmless x" and "fits s"
  shows "fits s' \<and> kept s s'"
proof (cases x)
  case (Drop_Table n)
  with assms show ?thesis by simp
next
  case (Create_Table n cs fks)
  with assms fits_create_table show ?thesis by blast
next
  case (Add_Column n c)
  with assms fits_add_column kept_add_column show ?thesis by blast
next
  case (Drop_Column n c)
  with assms fits_drop_column show ?thesis by blast
next
  case (Create_Index i n cs u)
  with assms fits_create_index kept_create_index show ?thesis by blast
next
  case (Drop_Index i n)
  with assms fits_drop_index show ?thesis by blast
next
  case (Update_Where n c v d w)
  with assms fits_update show ?thesis by blast
qed

lemma harmless_all:
  "run_all xs s = Inr s' \<Longrightarrow> \<forall>x\<in>set xs. harmless x \<Longrightarrow> fits s \<Longrightarrow> fits s' \<and> kept s s'"
proof (induction xs arbitrary: s)
  case (Cons x xs)
  then obtain s1 where s1: "execute x s = Inr s1" "run_all xs s1 = Inr s'" by (auto simp: early_return)
  with Cons harmless_step[of x s s1] show ?case by (auto intro: kept_trans)
qed simp

text \<open>No key is left in the retired mode.\<close>

definition modes_current :: "store \<Rightarrow> bool" where
  "modes_current s \<longleftrightarrow> (\<forall>t. st_tables s ''api_keys'' = Some t
     \<longrightarrow> (\<forall>r\<in>set (tb_rows t). r ''hmac_mode'' \<noteq> Some (Text ''BODY_ONLY'')))"

definition retire_body_only :: statement where
  "retire_body_only =
     Update_Where ''api_keys'' ''hmac_mode'' (Text ''CANONICAL_V1'') ''hmac_mode'' (Text ''BODY_ONLY'')"

lemma modes_current_step:
  assumes "execute x s = Inr s'" and "harmless x" and "modes_current s \<or> x = retire_body_only"
  shows "modes_current s'"
  using assms
  by (cases x) (auto simp: in_table_ok modes_current_def retire_body_only_def split: if_splits option.splits)

lemma modes_current_all:
  "run_all xs s = Inr s' \<Longrightarrow> \<forall>x\<in>set xs. harmless x \<Longrightarrow> modes_current s \<or> retire_body_only \<in> set xs \<Longrightarrow> modes_current s'"
proof (induction xs arbitrary: s)
  case (Cons x xs)
  then obtain s1 where s1: "execute x s = Inr s1" "run_all xs s1 = Inr s'" by (auto simp: early_return)
  with Cons modes_current_step[of x s s1] show ?case by auto
qed simp

lemma migrations_harmless: "\<forall>m\<in>set migrations. \<forall>x\<in>set (mg_up m). harmless x"
  by (simp add: migrations_def migration_steps create_api_keys_def create_hooks_def create_hook_parameters_def
      create_api_key_hook_permissions_def create_executions_def create_audit_logs_def references_def column_shapes
      add_marker_column_def add_key_reference_def new_cell_def)

text \<open>
  C23. An upgrade loses no data.  Whatever migrations a database has had, when the pending ones run through,
  every table still has its rows, one for one, and every cell of every row has the value it had, except the
  dropped column of key owners and the retired signature mode, which has become the canonical one; and if the
  migration that retires it was pending, no key has it any more.
\<close>

theorem upgrade_keeps_data:
  assumes "fits s" and "run_migrations applied s = Inr s'"
  shows "fits s' \<and> kept s s' \<and> (mg_name consolidate_hmac_modes \<notin> set applied \<longrightarrow> modes_current s')"
proof -
  let ?xs = "concat (map mg_up (filter (\<lambda>m. mg_name m \<notin> set applied) migrations))"
  have run: "run_all ?xs s = Inr s'" using assms(2) by (simp add: run_migrations_def)
  have harmless: "\<forall>x\<in>set ?xs. harmless x" using migrations_harmless by (simp, blast)
  have "retire_body_only \<in> set ?xs" if "mg_name consolidate_hmac_modes \<notin> set applied"
  proof -
    have "consolidate_hmac_modes \<in> set migrations" by (simp add: migrations_def)
    moreover have "retire_body_only \<in> set (mg_up consolidate_hmac_modes)"
      by (simp add: retire_body_only_def consolidate_hmac_modes_def)
    ultimately show ?thesis using that by auto
  qed
  with harmless_all[OF run harmless assms(1)] modes_current_all[OF run harmless] show ?thesis by blast
qed

text \<open>A table of hooks with one row, from before the account column.\<close>

definition old_hooks :: table_state where
  "old_hooks = \<lparr>tb_columns = [unique_column ''id'' Uuid, unique_column ''name'' String_Type], tb_fks = [],
     tb_rows = [Map.empty(''id'' \<mapsto> Text ''7'', ''name'' \<mapsto> Text ''deploy'')]\<rparr>"

definition old_store :: store where
  "old_store = \<lparr>st_tables = Map.empty(''hooks'' \<mapsto> old_hooks), st_indexes = []\<rparr>"

lemma old_store_fits: "fits old_store"
  by (simp add: fits_def old_store_def old_hooks_def table_fits_def column_names_def column_shapes)

definition upgraded_store :: store where
  "upgraded_store = set_table ''hooks'' (old_hooks\<lparr>
     tb_columns := tb_columns old_hooks @ [nullable ''run_as_user'' String_Type],
     tb_rows := map (\<lambda>r. r(''run_as_user'' \<mapsto> Null)) (tb_rows old_hooks)\<rparr>) old_store"

lemma upgraded: "run_all [Add_Column ''hooks'' (nullable ''run_as_user'' String_Type)] old_store = Inr upgraded_store"
proof -
  have "co_name (nullable ''run_as_user'' String_Type) = ''run_as_user''" "co_when (nullable ''run_as_user'' String_Type) = None"
    "\<not> co_not_null (nullable ''run_as_user'' String_Type)" "new_cell (nullable ''run_as_user'' String_Type) = Null"
    by (simp_all add: nullable_def new_cell_def)
  moreover have "st_tables old_store ''hooks'' = Some old_hooks" by (simp add: old_store_def)
  moreover have "''run_as_user'' \<notin> set (column_names old_hooks)"
    by (simp add: old_hooks_def column_names_def column_shapes)
  ultimately show ?thesis by (simp add: in_table_def upgraded_store_def)
qed

lemma upgraded_differs: "upgraded_store \<noteq> old_store"
proof -
  have "length (tb_columns (the (st_tables upgraded_store ''hooks''))) = 3"
    "length (tb_columns (the (st_tables old_store ''hooks''))) = 2"
    by (simp_all add: upgraded_store_def old_store_def old_hooks_def)
  then show ?thesis by auto
qed

theorem downgrade_undoes_upgrade_witness:
  "run_all (mg_up add_run_as_user) old_store = Inr upgraded_store \<and> upgraded_store \<noteq> old_store
     \<and> run_all (mg_down add_run_as_user) upgraded_store = Inr old_store"
proof -
  have up: "run_all (mg_up add_run_as_user) old_store = Inr upgraded_store"
    using upgraded by (simp only: add_run_as_user_def migration.simps)
  have "add_run_as_user \<in> set migrations" by (simp add: migrations_def)
  moreover have "add_run_as_user \<notin> {initial_schema, drop_api_key_owner_key_id, consolidate_hmac_modes}"
    by (simp add: migration_steps)
  ultimately have "run_all (mg_down add_run_as_user) upgraded_store = Inr old_store"
    using downgrade_undoes_upgrade old_store_fits up by blast
  with up upgraded_differs show ?thesis by blast
qed

theorem upgrade_keeps_data_witness:
  "\<exists>applied. run_migrations applied old_store = Inr upgraded_store \<and> upgraded_store \<noteq> old_store
     \<and> kept old_store upgraded_store"
proof -
  let ?applied = "map mg_name (filter (\<lambda>m. mg_name m \<noteq> mg_name add_run_as_user) migrations)"
  have "concat (map mg_up (filter (\<lambda>m. mg_name m \<notin> set ?applied) migrations))
      = [Add_Column ''hooks'' (nullable ''run_as_user'' String_Type)]"
    by (simp add: migrations_def migration_steps)
  then have run: "run_migrations ?applied old_store = Inr upgraded_store"
    using upgraded by (simp only: run_migrations_def)
  from upgrade_keeps_data[OF old_store_fits run] have "kept old_store upgraded_store" by blast
  with run upgraded_differs show ?thesis by blast
qed

section \<open>The schema that results\<close>

text \<open>
  The fields of the entities (\<open>Model\<close> in \<open>src/entities\<close>), by table: the name, the Rust type, and whether
  it is an \<open>Option\<close>.  The active enums are stored as their string values.
\<close>

datatype rust_type = R_Uuid | R_String | R_i32 | R_bool | R_DateTime

fun stored_as :: "rust_type \<Rightarrow> column_type set" where
  "stored_as R_Uuid = {Uuid}"
| "stored_as R_String = {String_Type, Text_Type}"
| "stored_as R_i32 = {Integer}"
| "stored_as R_bool = {Boolean}"
| "stored_as R_DateTime = {Date_Time}"

type_synonym entity = "(string \<times> rust_type \<times> bool) list"

definition api_key_model :: entity where
  "api_key_model =
     [(''id'', R_Uuid, False), (''name'', R_String, False), (''key_hash'', R_String, False),
      (''prefix'', R_String, False), (''key_id'', R_String, True), (''signing_secret'', R_String, True),
      (''hmac_mode'', R_String, False), (''bound_ips'', R_String, True), (''max_concurrent_jobs'', R_i32, False),
      (''is_master'', R_bool, False), (''can_manage_keys'', R_bool, False), (''can_manage_hooks'', R_bool, False),
      (''parent_key_id'', R_Uuid, True), (''created_at'', R_DateTime, False), (''updated_at'', R_DateTime, False),
      (''canonical_template'', R_String, True)]"

definition hook_model :: entity where
  "hook_model =
     [(''id'', R_Uuid, False), (''name'', R_String, False), (''description'', R_String, True),
      (''script_path'', R_String, False), (''default_timeout_seconds'', R_i32, False),
      (''run_as_user'', R_String, True), (''owner_key_id'', R_Uuid, True), (''is_deleted'', R_bool, False),
      (''deleted_at'', R_DateTime, True), (''deleted_by'', R_String, True), (''created_at'', R_DateTime, False),
      (''updated_at'', R_DateTime, False), (''auth_mode'', R_String, False), (''hmac_secret'', R_String, True),
      (''signature_header'', R_String, True), (''signature_prefix'', R_String, True),
      (''canonical_template'', R_String, True), (''sample_payload_json'', R_String, True),
      (''args_template'', R_String, True)]"

definition hook_parameter_model :: entity where
  "hook_parameter_model =
     [(''id'', R_Uuid, False), (''hook_id'', R_Uuid, False), (''param_key'', R_String, False),
      (''description'', R_String, True), (''default_value'', R_String, True), (''is_required'', R_bool, False),
      (''created_at'', R_DateTime, False)]"

definition api_key_hook_permission_model :: entity where
  "api_key_hook_permission_model =
     [(''id'', R_Uuid, False), (''api_key_id'', R_Uuid, False),
      (''hook_id'', R_Uuid, False), (''can_execute'', R_bool, False), (''can_manage'', R_bool, False),
      (''can_view_execution'', R_bool, False), (''created_at'', R_DateTime, False)]"

definition execution_model :: entity where
  "execution_model =
     [(''id'', R_Uuid, False), (''hook_id'', R_Uuid, False), (''api_key_id'', R_Uuid, True),
      (''status'', R_String, False), (''exit_code'', R_i32, True), (''stdout'', R_String, False),
      (''stderr'', R_String, False), (''parameters_json'', R_String, False), (''duration_ms'', R_i32, False),
      (''timestamp'', R_DateTime, False)]"

definition audit_log_model :: entity where
  "audit_log_model =
     [(''id'', R_Uuid, False), (''api_key_id'', R_Uuid, True), (''api_key_name'', R_String, False),
      (''api_key_prefix'', R_String, False), (''client_ip'', R_String, False), (''action'', R_String, False),
      (''target_resource'', R_String, True), (''details'', R_String, True), (''timestamp'', R_DateTime, False)]"

definition entity_fields :: "(string \<times> entity) list" where
  "entity_fields =
     [(''api_keys'', api_key_model),
      (''hooks'', hook_model),
      (''hook_parameters'', hook_parameter_model),
      (''api_key_hook_permissions'', api_key_hook_permission_model),
      (''executions'', execution_model),
      (''audit_logs'', audit_log_model)]"

text \<open>
  The columns of a table are those the entity reads and writes, each once, of a type that holds the
  field's and not null unless the field is optional; generated columns come on top.
\<close>

definition holds_entity :: "entity \<Rightarrow> column list \<Rightarrow> bool" where
  "holds_entity es cs \<longleftrightarrow> distinct (map co_name cs)
     \<and> set (map co_name (filter (\<lambda>d. co_when d = None) cs)) = set (map fst es)
     \<and> (\<forall>(c, ty, optional)\<in>set es. \<forall>d\<in>set cs. co_name d = c \<longrightarrow>
          co_type d \<in> stored_as ty \<and> (co_not_null d \<longleftrightarrow> \<not> optional))"

definition column_list :: "string \<Rightarrow> store \<Rightarrow> column list" where
  "column_list n s = (case st_tables s n of None \<Rightarrow> [] | Some t \<Rightarrow> tb_columns t)"

definition unique_keys :: "string \<Rightarrow> store \<Rightarrow> (string list) set" where
  "unique_keys n s = set (map (\<lambda>d. [co_name d]) (filter co_unique (column_list n s)))
     \<union> set (map (\<lambda>(_, i). ix_columns i) (filter (\<lambda>(_, i). ix_table i = n \<and> ix_unique i) (st_indexes s)))"

definition links :: "string \<Rightarrow> store \<Rightarrow> (string \<times> string \<times> on_delete) set" where
  "links n s = (case st_tables s n of None \<Rightarrow> {} | Some t \<Rightarrow>
     set (map (\<lambda>f. (fk_column f, fk_target f, fk_on_delete f)) (tb_fks t)))"

text \<open>What an older row, or one written without it, has in a column.\<close>

definition default_of :: "string \<Rightarrow> string \<Rightarrow> store \<Rightarrow> cell option" where
  "default_of n c s = Option.bind (List.find (\<lambda>d. co_name d = c) (column_list n s)) co_default"

text \<open>
  The schema of a store is what is left without the rows.  Statements that succeed treat stores with the
  same schema alike, and only a unique index looks at the rows to decide whether to succeed.
\<close>

definition schema :: "store \<Rightarrow> (string \<rightharpoonup> column list \<times> foreign_key list) \<times> (string \<times> index_state) list" where
  "schema s = (\<lambda>n. map_option (\<lambda>t. (tb_columns t, tb_fks t)) (st_tables s n), st_indexes s)"

lemma schema_eq:
  "schema s = schema s' \<longleftrightarrow> st_indexes s = st_indexes s'
     \<and> (\<forall>n. map_option (\<lambda>t. (tb_columns t, tb_fks t)) (st_tables s n)
          = map_option (\<lambda>t. (tb_columns t, tb_fks t)) (st_tables s' n))"
  by (auto simp: schema_def fun_eq_iff)

lemma schema_table:
  assumes "schema s1 = schema s2"
  obtains "st_tables s1 n = None" "st_tables s2 n = None"
  | t1 t2 where "st_tables s1 n = Some t1" "st_tables s2 n = Some t2" "tb_columns t2 = tb_columns t1"
    "tb_fks t2 = tb_fks t1" "column_names t2 = column_names t1"
proof -
  have e: "map_option (\<lambda>t. (tb_columns t, tb_fks t)) (st_tables s1 n) = map_option (\<lambda>t. (tb_columns t, tb_fks t)) (st_tables s2 n)"
    using assms by (simp add: schema_eq)
  show thesis
  proof (cases "st_tables s1 n")
    case None
    with e have "st_tables s2 n = None" by simp
    with None show thesis by (rule that(1))
  next
    case (Some t1)
    with e obtain t2 where "st_tables s2 n = Some t2" "tb_columns t2 = tb_columns t1" "tb_fks t2 = tb_fks t1"
      by (cases "st_tables s2 n") auto
    with Some show thesis using that(2)[of t1 t2] by (simp add: column_names_def)
  qed
qed

lemma schema_absent: "schema s1 = schema s2 \<Longrightarrow> st_tables s1 n = None \<longleftrightarrow> st_tables s2 n = None"
  by (erule schema_table[of s1 s2 n]) simp_all

lemma schema_set_table:
  "schema s1 = schema s2 \<Longrightarrow> tb_columns t1 = tb_columns t2 \<Longrightarrow> tb_fks t1 = tb_fks t2
     \<Longrightarrow> schema (set_table n t1 s1) = schema (set_table n t2 s2)"
  by (simp add: schema_eq)

fun unique_index :: "statement \<Rightarrow> bool" where
  "unique_index (Create_Index i n cs u) \<longleftrightarrow> u"
| "unique_index _ \<longleftrightarrow> False"

definition alike :: "bool \<Rightarrow> ddl_error + store \<Rightarrow> ddl_error + store \<Rightarrow> bool" where
  "alike excused r1 r2 \<longleftrightarrow> (case (r1, r2) of
     (Inr s1, Inr s2) \<Rightarrow> schema s1 = schema s2 | (Inl _, Inl _) \<Rightarrow> True | _ \<Rightarrow> excused)"

lemma alike_simps [simp]:
  "alike x (Inr s1) (Inr s2) \<longleftrightarrow> schema s1 = schema s2" "alike x (Inl e) (Inl f)"
  "alike x (Inr s1) (Inl e) \<longleftrightarrow> x" "alike x (Inl e) (Inr s2) \<longleftrightarrow> x"
  by (simp_all add: alike_def)

lemma alike_in_table:
  assumes "schema s1 = schema s2"
    and "\<And>t1 t2. tb_columns t2 = tb_columns t1 \<Longrightarrow> tb_fks t2 = tb_fks t1 \<Longrightarrow> column_names t2 = column_names t1
      \<Longrightarrow> alike x (f1 t1) (f2 t2)"
  shows "alike x (in_table n s1 f1) (in_table n s2 f2)"
  using assms(2) by (rule_tac n = n in schema_table[OF assms(1)]) (simp_all add: in_table_def)

lemma execute_schema:
  assumes "schema s1 = schema s2"
  shows "alike (unique_index x) (execute x s1) (execute x s2)"
proof -
  have ix: "st_indexes s1 = st_indexes s2" using assms by (simp add: schema_eq)
  have tables: "map_option (\<lambda>t. (tb_columns t, tb_fks t)) (st_tables s1 n)
      = map_option (\<lambda>t. (tb_columns t, tb_fks t)) (st_tables s2 n)" for n
    using assms by (simp add: schema_eq)
  note set = schema_set_table[OF assms]
  show ?thesis
  proof (cases x)
    case (Create_Table n cs fks)
    have targets: "list_all (\<lambda>f. st_tables s1 (fk_target f) \<noteq> None) fks
        \<longleftrightarrow> list_all (\<lambda>f. st_tables s2 (fk_target f) \<noteq> None) fks"
      using schema_absent[OF assms] by simp
    show ?thesis
      by (rule schema_table[OF assms, of n]) (use targets set assms Create_Table in simp_all)
  next
    case (Drop_Table n)
    have "schema (s1\<lparr>st_tables := (st_tables s1)(n := None),
        st_indexes := filter (\<lambda>(_, i). ix_table i \<noteq> n) (st_indexes s1)\<rparr>)
      = schema (s2\<lparr>st_tables := (st_tables s2)(n := None),
        st_indexes := filter (\<lambda>(_, i). ix_table i \<noteq> n) (st_indexes s2)\<rparr>)"
      by (simp add: schema_eq ix tables)
    then show ?thesis by (simp add: Drop_Table alike_in_table[OF assms])
  next
    case (Add_Column n c)
    then show ?thesis by (simp, intro alike_in_table[OF assms]) (simp add: set)
  next
    case (Drop_Column n c)
    have "column_in_use n c t1 s1 = column_in_use n c t2 s2"
      if "tb_columns t2 = tb_columns t1" "tb_fks t2 = tb_fks t1" for t1 t2
      using that by (simp add: column_in_use_def ix)
    note same = this
    show ?thesis unfolding Drop_Column execute.simps
    proof (rule alike_in_table[OF assms])
      fix t1 t2
      assume t: "tb_columns t2 = tb_columns t1" "tb_fks t2 = tb_fks t1" "column_names t2 = column_names t1"
      then show "alike (unique_index (Drop_Column n c))
          (if c \<notin> set (column_names t1) \<or> column_in_use n c t1 s1 then Inl Refused_Statement
           else Inr (set_table n (t1\<lparr>tb_columns := filter (\<lambda>d. co_name d \<noteq> c) (tb_columns t1),
                  tb_rows := map (\<lambda>r. r(c := None)) (tb_rows t1)\<rparr>) s1))
          (if c \<notin> set (column_names t2) \<or> column_in_use n c t2 s2 then Inl Refused_Statement
           else Inr (set_table n (t2\<lparr>tb_columns := filter (\<lambda>d. co_name d \<noteq> c) (tb_columns t2),
                  tb_rows := map (\<lambda>r. r(c := None)) (tb_rows t2)\<rparr>) s2))"
        using same[OF t(1,2)] by (simp add: set)
    qed
  next
    case (Create_Index i n cs u)
    have "schema (s1\<lparr>st_indexes := k\<rparr>) = schema (s2\<lparr>st_indexes := k\<rparr>)" for k
      by (simp add: schema_eq tables)
    with Create_Index show ?thesis by (simp, intro alike_in_table[OF assms]) (simp add: ix)
  next
    case (Drop_Index i n)
    have "schema (s1\<lparr>st_indexes := k\<rparr>) = schema (s2\<lparr>st_indexes := k\<rparr>)" for k
      by (simp add: schema_eq tables)
    with Drop_Index show ?thesis by (simp add: ix)
  next
    case (Update_Where n c v d w)
    then show ?thesis
      by (simp only: execute.simps, intro alike_in_table[OF assms]) (simp only: alike_simps, rule set; simp)
  qed
qed

lemma run_all_schema:
  "run_all xs s1 = Inr s1' \<Longrightarrow> run_all xs s2 = Inr s2' \<Longrightarrow> schema s1 = schema s2 \<Longrightarrow> schema s1' = schema s2'"
proof (induction xs arbitrary: s1 s2)
  case (Cons x xs)
  then obtain m1 m2 where m: "execute x s1 = Inr m1" "run_all xs m1 = Inr s1'"
    "execute x s2 = Inr m2" "run_all xs m2 = Inr s2'" by (auto simp: early_return simp del: execute.simps)
  with execute_schema[OF Cons.prems(3), of x] have "schema m1 = schema m2" by (simp del: execute.simps)
  with Cons.IH m(2,4) show ?case by blast
qed simp

lemma run_all_possible:
  "run_all xs s1 = Inr s1' \<Longrightarrow> schema s1 = schema s2 \<Longrightarrow> \<forall>x\<in>set xs. \<not> unique_index x
     \<Longrightarrow> \<exists>s2'. run_all xs s2 = Inr s2'"
proof (induction xs arbitrary: s1 s2)
  case (Cons x xs)
  then obtain m1 where m1: "execute x s1 = Inr m1" "run_all xs m1 = Inr s1'"
    by (auto simp: early_return simp del: execute.simps)
  with execute_schema[OF Cons.prems(2), of x] Cons.prems(3) obtain m2 where
    m2: "execute x s2 = Inr m2" "schema m1 = schema m2"
    by (cases "execute x s2") (auto simp del: execute.simps)
  with m1 Cons.IH[of m1 m2] Cons.prems(3) show ?case by (simp del: execute.simps)
qed simp

text \<open>The migrations that are pending after the first \<open>k\<close>.\<close>

lemma filter_not_taken:
  "distinct (map f xs) \<Longrightarrow> filter (\<lambda>m. f m \<notin> set (map f (take k xs))) xs = drop k xs"
proof -
  assume d: "distinct (map f xs)"
  let ?P = "\<lambda>m. f m \<notin> set (map f (take k xs))"
  have "distinct (map f (take k xs) @ map f (drop k xs))"
    using d by (simp flip: map_append)
  then have "\<forall>m\<in>set (drop k xs). ?P m" by auto
  then have "filter ?P (drop k xs) = drop k xs" by (simp add: filter_id_conv)
  moreover have "filter ?P (take k xs) = []" by (simp add: filter_empty_conv)
  moreover have "filter ?P (take k xs @ drop k xs) = filter ?P (take k xs) @ filter ?P (drop k xs)"
    by (rule filter_append)
  ultimately show "filter ?P xs = drop k xs" by (simp only: append_take_drop_id append_Nil)
qed

lemma migration_names: "distinct (map mg_name migrations)"
  by (simp add: migrations_def migration_steps)

lemma run_pending:
  "run_migrations (map mg_name (take k migrations)) s = run_all (concat (map mg_up (drop k migrations))) s"
  unfolding run_migrations_def by (subst filter_not_taken[OF migration_names]) simp

lemma late_migrations: "6 \<le> k \<Longrightarrow> \<forall>x\<in>set (concat (map mg_up (drop k migrations))). \<not> unique_index x"
proof -
  assume "6 \<le> k"
  then have "set (drop k migrations) \<subseteq> set (drop 6 migrations)" by (rule set_drop_subset_set_drop)
  moreover have "\<forall>m\<in>set (drop 6 migrations). \<forall>x\<in>set (mg_up m). \<not> unique_index x"
    by (simp add: migrations_def migration_steps add_key_reference_def)
  ultimately show ?thesis by auto
qed

lemma schema_cong:
  assumes "schema s = schema s'"
  shows "column_list n s = column_list n s'" "unique_keys n s = unique_keys n s'" "links n s = links n s'"
    "default_of n c s = default_of n c s'"
proof -
  show cols: "column_list n s = column_list n s'" for n
    using assms by (cases "st_tables s n"; cases "st_tables s' n") (auto simp: column_list_def schema_eq dest: spec[of _ n])
  have "st_indexes s = st_indexes s'" using assms by (simp add: schema_eq)
  with cols show "unique_keys n s = unique_keys n s'" "default_of n c s = default_of n c s'"
    by (simp_all add: unique_keys_def default_of_def)
  show "links n s = links n s'"
    using assms by (cases "st_tables s n"; cases "st_tables s' n") (auto simp: links_def schema_eq dest: spec[of _ n])
qed

text \<open>What the program relies on.\<close>

definition current_schema :: "store \<Rightarrow> bool" where
  "current_schema s \<longleftrightarrow>
     list_all (\<lambda>(n, entity). holds_entity entity (column_list n s)) entity_fields
   \<and> unique_keys ''api_keys'' s = {[''id''], [''key_hash''], [''key_id''], [''master_marker'']}
   \<and> unique_keys ''hooks'' s = {[''id''], [''name'']}
   \<and> unique_keys ''hook_parameters'' s = {[''id''], [''hook_id'', ''param_key'']}
   \<and> unique_keys ''api_key_hook_permissions'' s = {[''id''], [''api_key_id'', ''hook_id'']}
   \<and> unique_keys ''executions'' s = {[''id'']} \<and> unique_keys ''audit_logs'' s = {[''id'']}
   \<and> links ''api_keys'' s = {} \<and> links ''hooks'' s = {}
   \<and> links ''hook_parameters'' s = {(''hook_id'', ''hooks'', Cascade)}
   \<and> links ''api_key_hook_permissions'' s = {(''api_key_id'', ''api_keys'', Cascade), (''hook_id'', ''hooks'', Cascade)}
   \<and> links ''executions'' s = {(''hook_id'', ''hooks'', Cascade), (''api_key_id'', ''api_keys'', Set_Null)}
   \<and> links ''audit_logs'' s = {(''api_key_id'', ''api_keys'', Set_Null)}
   \<and> list_all (\<lambda>(n, c). default_of n c s = Some (Flag False))
       [(''api_keys'', ''is_master''), (''api_keys'', ''can_manage_keys''), (''api_keys'', ''can_manage_hooks''),
        (''api_key_hook_permissions'', ''can_manage''), (''api_key_hook_permissions'', ''can_view_execution''),
        (''hooks'', ''is_deleted'')]
   \<and> default_of ''api_keys'' ''hmac_mode'' s = Some (Text ''CANONICAL_V1'')
   \<and> default_of ''hooks'' ''auth_mode'' s = Some (Text ''CANONICAL_V1'')"

lemma current_schema_cong: "schema s = schema s' \<Longrightarrow> current_schema s = current_schema s'"
  unfolding current_schema_def by (simp only: schema_cong[of s s'])

lemma evaluated: "case r of Inl e \<Rightarrow> False | Inr x \<Rightarrow> P x \<Longrightarrow> \<exists>x. r = Inr x \<and> P x"
  by (cases r) simp_all

lemma all_migrations: "\<exists>s. run_all (concat (map mg_up migrations)) empty_store = Inr s \<and> current_schema s"
proof -
  have "case run_all (concat (map mg_up migrations)) empty_store of Inl e \<Rightarrow> False | Inr s \<Rightarrow> current_schema s"
    by code_simp
  then show ?thesis by (rule evaluated)
qed

text \<open>
  C25. Every upgrade path ends in the schema the program is written for.  Take a database as any prefix of
  the migrations left it, with any rows since.  When the pending migrations run through, each table has
  exactly the columns of its entity, with a type that holds the field's and not null unless the field is
  optional, beside the generated marker of the master; what is unique, and what a deletion cascades to or
  sets to null, is what the store's constraints say; and a right or a mode that a row never was given defaults
  to the restrictive one.  They do run through on a new installation and, whatever the rows, once the
  index on the master is there.
\<close>

theorem upgrades_reach_current_schema:
  assumes "run_all (concat (map mg_up (take k migrations))) empty_store = Inr old"
    and "schema s = schema old"
  shows "(k = 0 \<or> 6 \<le> k \<longrightarrow> (\<exists>s'. run_migrations (map mg_name (take k migrations)) s = Inr s'))
   \<and> (\<forall>s'. run_migrations (map mg_name (take k migrations)) s = Inr s' \<longrightarrow>
       list_all (\<lambda>(n, entity). holds_entity entity (column_list n s')) entity_fields
     \<and> unique_keys ''api_keys'' s' = {[''id''], [''key_hash''], [''key_id''], [''master_marker'']}
     \<and> unique_keys ''hooks'' s' = {[''id''], [''name'']}
     \<and> unique_keys ''hook_parameters'' s' = {[''id''], [''hook_id'', ''param_key'']}
     \<and> unique_keys ''api_key_hook_permissions'' s' = {[''id''], [''api_key_id'', ''hook_id'']}
     \<and> unique_keys ''executions'' s' = {[''id'']} \<and> unique_keys ''audit_logs'' s' = {[''id'']}
     \<and> links ''api_keys'' s' = {} \<and> links ''hooks'' s' = {}
     \<and> links ''hook_parameters'' s' = {(''hook_id'', ''hooks'', Cascade)}
     \<and> links ''api_key_hook_permissions'' s' = {(''api_key_id'', ''api_keys'', Cascade), (''hook_id'', ''hooks'', Cascade)}
     \<and> links ''executions'' s' = {(''hook_id'', ''hooks'', Cascade), (''api_key_id'', ''api_keys'', Set_Null)}
     \<and> links ''audit_logs'' s' = {(''api_key_id'', ''api_keys'', Set_Null)}
     \<and> list_all (\<lambda>(n, c). default_of n c s' = Some (Flag False))
         [(''api_keys'', ''is_master''), (''api_keys'', ''can_manage_keys''), (''api_keys'', ''can_manage_hooks''),
          (''api_key_hook_permissions'', ''can_manage''), (''api_key_hook_permissions'', ''can_view_execution''),
          (''hooks'', ''is_deleted'')]
     \<and> default_of ''api_keys'' ''hmac_mode'' s' = Some (Text ''CANONICAL_V1'')
     \<and> default_of ''hooks'' ''auth_mode'' s' = Some (Text ''CANONICAL_V1''))"
proof -
  obtain final where all: "run_all (concat (map mg_up migrations)) empty_store = Inr final"
    and final: "current_schema final" using all_migrations by blast
  have "run_all (concat (map mg_up (take k migrations)) @ concat (map mg_up (drop k migrations))) empty_store = Inr final"
    using all by (simp flip: concat_append map_append)
  with assms(1) have rest: "run_all (concat (map mg_up (drop k migrations))) old = Inr final"
    by (simp add: run_all_append)
  have "current_schema s'" if "run_migrations (map mg_name (take k migrations)) s = Inr s'" for s'
    using run_all_schema[OF _ rest assms(2)] that current_schema_cong final unfolding run_pending by blast
  moreover have "\<exists>s'. run_migrations (map mg_name (take k migrations)) s = Inr s'" if "k = 0"
  proof -
    have "schema s = schema empty_store" using that assms by simp
    then have "s = empty_store" by (cases s) (auto simp: schema_eq empty_store_def fun_eq_iff)
    with all that show ?thesis by (simp only: run_pending drop_0) blast
  qed
  moreover have "\<exists>s'. run_migrations (map mg_name (take k migrations)) s = Inr s'" if "6 \<le> k"
    using run_all_possible[OF rest assms(2)[symmetric] late_migrations[OF that]] by (simp only: run_pending)
  ultimately show ?thesis unfolding current_schema_def by blast
qed

theorem upgrades_reach_current_schema_witness:
  "\<exists>old t s'. run_all (concat (map mg_up (take 12 migrations))) empty_store = Inr old
     \<and> st_tables old ''hooks'' = Some t
     \<and> run_migrations (map mg_name (take 12 migrations))
         (set_table ''hooks'' (t\<lparr>tb_rows := [Map.empty(''id'' \<mapsto> Text ''7'', ''name'' \<mapsto> Text ''deploy'')]\<rparr>) old) = Inr s'
     \<and> unique_keys ''hooks'' s' = {[''id''], [''name'']}"
proof -
  have "case run_all (concat (map mg_up (take 12 migrations))) empty_store of
      Inl e \<Rightarrow> False | Inr old \<Rightarrow> \<not> Option.is_none (st_tables old ''hooks'')"
    by code_simp
  from evaluated[OF this] obtain old where
    old: "run_all (concat (map mg_up (take 12 migrations))) empty_store = Inr old"
    and "\<not> Option.is_none (st_tables old ''hooks'')" by (elim exE conjE)
  from this(2) obtain t where t: "st_tables old ''hooks'' = Some t" by (cases "st_tables old ''hooks''") (simp_all only: Option.is_none_simps simp_thms)
  let ?s = "set_table ''hooks'' (t\<lparr>tb_rows := [Map.empty(''id'' \<mapsto> Text ''7'', ''name'' \<mapsto> Text ''deploy'')]\<rparr>) old"
  have "schema ?s = schema old" using t by (simp add: schema_eq)
  note reached = upgrades_reach_current_schema[OF old this]
  have "\<exists>s'. run_migrations (map mg_name (take 12 migrations)) ?s = Inr s'"
    by (rule mp[OF conjunct1[OF reached]]) simp
  then obtain s' where s': "run_migrations (map mg_name (take 12 migrations)) ?s = Inr s'" ..
  have "unique_keys ''hooks'' s' = {[''id''], [''name'']}"
    using mp[OF spec[OF conjunct2[OF reached]] s'] by (elim conjE)
  with s' old t show ?thesis by (intro exI conjI)
qed

end
