(* ===== verification/Divergences.thy ===== *)
theory Divergences
  imports Router Failures Row_Types
begin

text \<open>
  Concrete runs on which the code departs from what it means to do, one lemma for each: the raw path that the
  middleware checks against the decoded one that the handler runs, the hook left behind by a refused creation,
  the manager without a signing secret, and the two routes that disagree on a reduction of permissions.
\<close>

section \<open>The path is checked raw and run decoded\<close>

text \<open>An open hook whose name is the percent-encoded form of the name of a hook that wants a key.\<close>

definition encoded_twin :: hook where
  "encoded_twin = deploy_hook\<lparr>hk_id := 12, hk_name := ''%64eploy'', hk_auth_mode := NoAuth\<rparr>"

definition twin_db :: database where
  "twin_db = demo_db\<lparr>db_hooks := [deploy_hook, encoded_twin]\<rparr>"

definition twin_request :: request where
  "twin_request = anonymous_request\<lparr>rq_path := ''/%64eploy''\<rparr>"

text \<open>The extractor decodes the segment to \<open>deploy\<close>; no key, no signature, and the keyed hook is the one that runs.\<close>

lemma decoded_path_escapes_the_check:
  "(\<exists>client. fst (invocation_auth_middleware demo_env 0 [] twin_request twin_db demo_auth) = Inr (client, None))
   \<and> hk_auth_mode deploy_hook = CanonicalV1
   \<and> run_hook_request demo_env H None ''deploy'' [] (L, twin_db)
      = and_then (execute_hook demo_env H deploy_hook None \<lparr>rp_values = [], rp_missing_required = []\<rparr> (L, twin_db))
          (\<lambda>stored s. (Inr (execution_view_new demo_externals stored ''deploy'' None), s))"
proof -
  have path: "hook_identifier_from_path ''/%64eploy'' = Some ''%64eploy''" by (simp add: hook_identifier_from_path_def)
  have uuid: "x_uuid_parse demo_externals ''%64eploy'' = None" "x_uuid_parse demo_externals ''deploy'' = None"
    by code_simp+
  have twin: "resolve_hook demo_externals twin_db ''%64eploy'' = Inr encoded_twin"
    using uuid by (simp add: resolve_hook_def resolve_hook_including_deleted_def find_hook_by_name_def twin_db_def
        encoded_twin_def deploy_hook_def ban_hook_def)
  have plain: "resolve_hook demo_externals twin_db ''deploy'' = Inr deploy_hook"
    using uuid by (simp add: resolve_hook_def resolve_hook_including_deleted_def find_hook_by_name_def twin_db_def
        encoded_twin_def deploy_hook_def ban_hook_def)
  have "authenticate_keyless demo_env twin_request encoded_twin = Inr ()"
    by (simp add: authenticate_keyless_def signature_material_present_def contains_key_def header_get_def
        twin_request_def anonymous_request_def encoded_twin_def deploy_hook_def ban_hook_def default_config_def)
  then have "\<exists>client. fst (invocation_auth_middleware demo_env 0 [] twin_request twin_db demo_auth) = Inr (client, None)"
    using path twin by (simp add: invocation_auth_middleware_def twin_request_def anonymous_request_def
        header_str_def header_get_def map_err_def ok_or_def)
  moreover have "load_parameters twin_db (hk_id deploy_hook) = []"
    by (simp add: load_parameters_def twin_db_def demo_db_def)
  ultimately show ?thesis
    using plain by (simp add: run_hook_request_def extract_parameter_map_def resolve_parameters_def
        deploy_hook_def ban_hook_def)
qed

section \<open>A refused creation leaves its hook\<close>

definition twice_declared :: create_hook_payload where
  "twice_declared = \<lparr>chp_name = ''fresh'', chp_description = None, chp_script_path = ''/opt/f.sh'',
     chp_default_timeout_seconds = None, chp_run_as_user = None,
     chp_parameters = Some [\<lparr>pi_param_key = ''a'', pi_description = None, pi_default_value = None, pi_is_required = None\<rparr>,
       \<lparr>pi_param_key = ''a'', pi_description = None, pi_default_value = None, pi_is_required = None\<rparr>],
     chp_auth_mode = None, chp_hmac_secret = None, chp_signature_header = None, chp_signature_prefix = None,
     chp_canonical_template = None, chp_sample_payload_json = None, chp_args_template = None\<rparr>"

lemma refused_creation_leaves_its_hook:
  "\<exists>msg d. create_hook demo_env admin_key ip twice_declared demo_db = (Inl (Conflict msg), d)
     \<and> map hk_name (db_hooks d) = [''deploy'', ''fresh''] \<and> length (db_params d) = 1
     \<and> db_perms d = db_perms demo_db \<and> db_audit d = []"
proof -
  have name: "trim ''fresh'' = ''fresh''" by code_simp
  have path: "validate_script_path ''/opt/f.sh'' [] = Inr ()" by code_simp
  have keys: "is_ascii_alphabetic (CHR ''a'')" by code_simp
  show ?thesis
    by (simp add: create_hook_def twice_declared_def name path keys normalize_run_as_user_def effective_run_as_user_def
        script_error_to_app_def default_config_def validate_timeout_def MAX_TIMEOUT_SECONDS_def
        validate_and_seal_hmac_secret_def validate_sample_payload_matches_parameters_def
        validate_args_template_matches_parameters_def non_empty_def new_hook_def insert_hook_def insert_param_def
        demo_db_def deploy_hook_def ban_hook_def demo_env_def)
qed

section \<open>A manager that cannot sign\<close>

lemma succeedsE:
  assumes "succeeds m" obtains x d where "m = (Inr x, d)"
  using assms by (cases m) (auto simp: succeeds_def)

definition promotion :: update_api_key_payload where
  "promotion = \<lparr>ukp_name = None, ukp_bound_ips = None, ukp_max_concurrent_jobs = None, ukp_canonical_template = None,
     ukp_can_manage_keys = Some True, ukp_can_manage_hooks = None\<rparr>"

lemma promotion_without_a_secret:
  "\<exists>x d k. update_api_key demo_env root_key ip 3 promotion demo_db = (Inr x, d) \<and> find_key d 3 = Some k
     \<and> signature_required demo_env k \<and> recover_signing_secret demo_env k
         = Inl (Unauthorized ''This API key has no signing secret; rotate it to obtain one'')"
proof -
  have found: "find_key demo_db 3 = Some ci_key" by (simp add: find_key_def demo_db_def)
  then have load: "load_administrable_key demo_db root_key 3 = Inr ci_key"
    by (simp add: load_administrable_key_def key_visibility_def demo_keys_def ok_or_def)
  have guards: "guard_master_to_administer root_key ci_key a = Inr ()"
    "guard_master_self_edit_is_bound_ips_only root_key ci_key promotion = Inr ()"
    "guard_master_to_grant_scopes root_key c h = Inr ()"
    "guard_canonical_v1_for_key_management True (ak_hmac_mode ci_key) None = Inr ()" for a c h
    by (simp_all add: early_return demo_keys_def guard_master_self_edit_is_bound_ips_only_def)
  let ?k = "apply_key_update promotion 0 ci_key"
  have k: "?k = ci_key\<lparr>ak_can_manage_keys := True\<rparr>"
    by (simp add: apply_key_update_def promotion_def demo_keys_def)
  have "\<exists>d. update_key ?k demo_db = Inr d \<and> find_key d 3 = Some ?k"
    unfolding k by (simp add: update_key_def demo_db_def demo_keys_def key_clash_def
        nullable_clash_def master_marker_def replace_row_def find_key_def)
  then obtain d where d: "update_key ?k demo_db = Inr d" "find_key d 3 = Some ?k" by blast
  have fields: "ukp_can_manage_keys promotion = Some True" "ukp_can_manage_hooks promotion = None"
    "ukp_canonical_template promotion = None" "ukp_bound_ips promotion = None" "ukp_max_concurrent_jobs promotion = None"
    "ak_is_master root_key" "ak_canonical_template ci_key = None"
    by (simp_all add: promotion_def demo_keys_def)
  have "ev_now demo_env 0 = 0" by (simp add: demo_env_def)
  then have run: "update_api_key demo_env root_key ip 3 promotion demo_db
      = and_then (create_audit_log demo_env 1 root_key ip ''KEY_UPDATE'' (Some (ak_name ?k))
          (Some (''Updated key '' @ format_reference demo_externals (ak_name ?k) 3)) d)
          (\<lambda>_ db. (Inr (build_api_key_summary db ?k), db))"
    using load guards d(1) fields by (simp add: update_api_key_def commit_def Let_def)
  have "key_exists 1 d" using d(1) by (auto simp: update_key_def demo_db_def key_exists_def replace_row_def split: if_splits)
  then have "can_log demo_env root_key d"
    using d(1) by (auto simp: can_log_def update_key_def demo_db_def split: if_splits)
  from audit_succeeds[OF this] obtain x d' where log:
    "create_audit_log demo_env 1 root_key ip ''KEY_UPDATE'' (Some (ak_name ?k))
       (Some (''Updated key '' @ format_reference demo_externals (ak_name ?k) 3)) d = (Inr x, d')"
    by (rule succeedsE)
  then have "db_keys d' = db_keys d" by (metis create_audit_log_tables(1) snd_conv)
  then have "find_key d' 3 = Some ?k" using d(2) by (simp add: find_key_def)
  moreover have "signature_required demo_env ?k \<and> recover_signing_secret demo_env ?k
      = Inl (Unauthorized ''This API key has no signing secret; rotate it to obtain one'')"
    unfolding k by (simp add: signature_required_def recover_signing_secret_def demo_keys_def ok_or_def)
  ultimately show ?thesis using run log by auto
qed

section \<open>Two routes to one reduction\<close>

definition root_run_db :: database where
  "root_run_db = demo_db\<lparr>db_hooks := [deploy_hook\<lparr>hk_run_as_user := Some ''root'', hk_owner_key_id := None\<rparr>]\<rparr>"

definition no_verbs :: hook_perm_input where
  "no_verbs = \<lparr>hpi_hook_id = None, hpi_hook_name = Some ''deploy'', hpi_can_execute = False, hpi_can_manage = False,
     hpi_can_view_execution = False\<rparr>"

lemma reductions_disagree:
  "(\<exists>msg. fst (update_key_hook_permissions demo_env admin_key ip 3 no_verbs root_run_db) = Inl (Forbidden msg))
   \<and> fst (revoke_key_hook_permission demo_env admin_key ip 3 ''deploy'' root_run_db) = Inr ()"
proof -
  let ?h = "deploy_hook\<lparr>hk_run_as_user := Some ''root'', hk_owner_key_id := None\<rparr>"
  have "x_uuid_parse demo_externals ''deploy'' = None" by code_simp
  then have hook: "resolve_hook demo_externals root_run_db ''deploy'' = Inr ?h"
    by (simp add: resolve_hook_def resolve_hook_including_deleted_def find_hook_by_name_def root_run_db_def
        deploy_hook_def ban_hook_def)
  have perms: "db_perms root_run_db = db_perms demo_db" "db_keys root_run_db = db_keys demo_db"
    by (simp_all add: root_run_db_def)
  have held: "\<exists>p. hook_permission root_run_db 2 10 = Some p \<and> pm_can_manage p"
    by (simp add: hook_permission_def perms) (simp add: demo_db_def)
  have admin: "\<not> ak_is_master admin_key" "ak_can_manage_keys admin_key" "\<not> ak_is_master ci_key"
    by (simp_all add: demo_keys_def)
  have conj_ok: "\<exists>p. guard_hook_manage_conjunction root_run_db admin_key 10 = Inr p"
    using held admin by (simp add: early_return)
  have standing: "has_permission_admin_standing root_run_db admin_key"
    using admin by (simp add: has_permission_admin_standing_def manages_any_hook_def perms) (simp add: demo_db_def)
  have target: "find_key root_run_db 3 = Some ci_key" by (simp add: find_key_def perms) (simp add: demo_db_def)
  have "(2, 3) \<in> parent_rel root_run_db"
    unfolding parent_rel_def perms by (auto simp: demo_db_def demo_keys_def intro!: exI[of _ ci_key])
  then have "ak_id ci_key \<in> set (descendant_key_ids root_run_db (ak_id admin_key))"
    by (auto simp: set_descendant_key_ids)
  then have visible: "key_visibility root_run_db admin_key ci_key = Some Full"
    by (simp add: key_visibility_def)
  have user: "effective_run_as_user (Some ''root'') = Some ''root''" by code_simp
  have reduction: "is_permission_reduction e False False False" for e
    by (simp add: is_permission_reduction_def split: option.splits)
  have refused: "\<exists>msg. guard_master_for_privileged_hook admin_key ?h a = Inl (Forbidden msg)" for a
    using admin by (simp add: guard_master_for_privileged_hook_def user)
  have "\<exists>msg. fst (update_key_hook_permissions demo_env admin_key ip 3 no_verbs root_run_db) = Inl (Forbidden msg)"
    using standing target visible hook conj_ok admin refused[of "''grant permissions on''"] reduction
    by (auto simp: update_key_hook_permissions_def hook_identifier_def no_verbs_def ok_or_def)
  moreover have "fst (revoke_key_hook_permission demo_env admin_key ip 3 ''deploy'' root_run_db) = Inr ()"
  proof -
    obtain d where d: "delete_perms 3 10 root_run_db = (1, d)" and kept: "db_keys d = db_keys demo_db" "db_audit d = []"
      by (simp add: delete_perms_def perms) (simp add: root_run_db_def demo_db_def)
    have "can_log demo_env admin_key d"
      using kept by (simp add: can_log_def key_exists_def) (simp add: demo_db_def)
    from audit_succeeds[OF this] have log: "fst (create_audit_log demo_env 1 admin_key ip t n x d) = Inr ()" for t n x
      by (auto simp: succeeds_def)
    have "find_key d 3 = Some ci_key" using target kept perms by (simp add: find_key_def)
    then show ?thesis
      using standing hook conj_ok admin d log
      by (auto simp: revoke_key_hook_permission_def ok_or_def Let_def)
  qed
  ultimately show ?thesis by blast
qed

section \<open>A key below a parent that is gone\<close>

text \<open>
  The caller is deleted between its middleware and its handler: the new key is stored, the audit entry is
  refused by its foreign key, the caller reads an error, and the row stays below a parent that no longer exists.
\<close>

definition fresh_key :: create_api_key_payload where
  "fresh_key = \<lparr>ckp_name = ''new'', ckp_bound_ips = None, ckp_max_concurrent_jobs = None, ckp_hmac_mode = None,
     ckp_canonical_template = None, ckp_can_manage_keys = None, ckp_can_manage_hooks = None,
     ckp_generate_signing_secret = Some False\<rparr>"

lemma creation_by_a_deleted_caller:
  "\<exists>e d k. create_api_key demo_env admin_key ip fresh_key (demo_db\<lparr>db_keys := [root_key]\<rparr>) = (Inl e, d)
     \<and> db_keys d = [root_key, k] \<and> ak_parent_key_id k = Some 2 \<and> \<not> key_exists 2 d \<and> db_audit d = []"
proof -
  have guards: "guard_master_to_grant_scopes admin_key None None = Inr ()"
    "guard_canonical_v1_for_key_management False m t = Inr ()" "validate_concurrency 10 = Inr ()" for m t
    by (simp_all add: early_return validate_concurrency_def MAX_CONCURRENT_JOBS_def)
  let ?db = "demo_db\<lparr>db_keys := [root_key]\<rparr>"
  have refused: "create_audit_log demo_env n admin_key ip a t x d = (Inl (DbError ForeignKeyViolation), d)"
    if "\<not> list_ex (\<lambda>k. ak_id k = 2) (db_keys d)" "db_audit d = []" for n a t x d
    using that by (simp add: create_audit_log_def insert_audit_def nullable_fk_ok_def commit_def)
  have clash: "\<not> key_clash root_key k" if "ak_name k = ''new''" "ak_key_hash k \<noteq> ''root''"
    "\<not> ak_is_master k" "ak_key_id k = None" for k
    using that by (auto simp: key_clash_def nullable_clash_def master_marker_def demo_keys_def)
  have draws: "ev_uuid demo_env 0 = 100" "ev_now demo_env 0 = 0" "ev_rand demo_env 0 = ''r'' @ nat_text 0"
    by (simp_all add: demo_env_def)
  show ?thesis
    by (simp add: draws refused create_api_key_def fresh_key_def guards insert_key_def clash commit_def Let_def hash_key_def
        key_exists_def demo_db_def generate_random_key_def demo_hex_digit_def)
qed

end
