(* ===== verification/Concurrent_Runs.thy ===== *)
theory Concurrent_Runs
  imports Executor_Run "HOL-Library.Multiset"
begin

text \<open>
  Runs that overlap.  \<open>execute_hook\<close> (\<open>src/executor.rs\<close>) waits for its child, and while it waits other requests
  are served: its first half (checks, permit, plan) and its second half (record, permit dropped) are separate
  steps here, with the halves of other runs and every other change of the database in between.  A list of
  events is one interleaving.
\<close>

section \<open>The two halves of a run\<close>

text \<open>
  The permit is dropped at the end of the function, after the insert; nothing else of the run comes in between,
  so the second half is one step.
\<close>

text \<open>What the future of a run holds while its child runs.\<close>

record job =
  jb_env :: env
  jb_host :: host
  jb_hook :: hook
  jb_key :: "api_key option"
  jb_resolved :: resolved_parameters
  jb_permit :: "nat option"
  jb_plan :: command_plan

definition drop_permit :: "nat option \<Rightarrow> limiter \<Rightarrow> limiter" where
  "drop_permit permit L = (case permit of Some p \<Rightarrow> release p L | None \<Rightarrow> L)"

definition start_run ::
  "env \<Rightarrow> host \<Rightarrow> hook \<Rightarrow> api_key option \<Rightarrow> resolved_parameters \<Rightarrow> limiter \<Rightarrow> job result \<times> limiter" where
  "start_run E H h key resolved L =
     and_then (begin_execution E H h key resolved L) (\<lambda>(permit, plan) L.
     (Inr \<lparr>jb_env = E, jb_host = H, jb_hook = h, jb_key = key, jb_resolved = resolved,
        jb_permit = permit, jb_plan = plan\<rparr>, L))"

definition finish_run :: "job \<Rightarrow> limiter \<times> database \<Rightarrow> execution result \<times> (limiter \<times> database)" where
  "finish_run j s =
     (let E = jb_env j;
          outcome = run_process (jb_host j) (jb_plan j)
            (timeout_for (ev_config E) (hk_default_timeout_seconds (jb_hook j)))
            (cf_max_output_bytes (ev_config E));
          record = execution_record E (jb_hook j) (jb_key j) (jb_resolved j) outcome;
          (answer, db) = (case insert_exec record (snd s) of
               Inl e \<Rightarrow> (Inl (DbError e), snd s)
             | Inr db \<Rightarrow> (Inr record, db))
      in (answer, (drop_permit (jb_permit j) (fst s), db)))"

lemma execute_hook_halves:
  "execute_hook E H h key resolved (L, db) =
     (case start_run E H h key resolved L of
        (Inl e, L) \<Rightarrow> (Inl e, (L, db))
      | (Inr j, L) \<Rightarrow> finish_run j (L, db))"
  by (auto simp: execute_hook_def start_run_def finish_run_def drop_permit_def Let_def and_then_def
      split: prod.splits sum.splits)

section \<open>Interleavings\<close>

text \<open>
  \<open>Abandons\<close>: the client disconnects and the server drops the future, and with it the permit; the child is
  killed and nothing is recorded.  \<open>Elsewhere\<close>: another handler or a sweep leaves this database.
\<close>

datatype run_event =
    Begins env host hook "api_key option" resolved_parameters
  | Finishes nat
  | Abandons nat
  | Elsewhere database

record service =
  sv_limiter :: limiter
  sv_db :: database
  sv_jobs :: "job list"

definition remove_nth :: "nat \<Rightarrow> 'a list \<Rightarrow> 'a list" where
  "remove_nth n xs = take n xs @ drop (Suc n) xs"

fun service_step :: "run_event \<Rightarrow> service \<Rightarrow> service" where
  "service_step (Begins E H h key resolved) s =
     (case start_run E H h key resolved (sv_limiter s) of
        (Inl e, L) \<Rightarrow> s\<lparr>sv_limiter := L\<rparr>
      | (Inr j, L) \<Rightarrow> s\<lparr>sv_limiter := L, sv_jobs := j # sv_jobs s\<rparr>)"
| "service_step (Finishes n) s =
     (if n < length (sv_jobs s)
      then case finish_run (sv_jobs s ! n) (sv_limiter s, sv_db s) of
             (r, (L, db)) \<Rightarrow> \<lparr>sv_limiter = L, sv_db = db, sv_jobs = remove_nth n (sv_jobs s)\<rparr>
      else s)"
| "service_step (Abandons n) s =
     (if n < length (sv_jobs s)
      then s\<lparr>sv_limiter := drop_permit (jb_permit (sv_jobs s ! n)) (sv_limiter s),
             sv_jobs := remove_nth n (sv_jobs s)\<rparr>
      else s)"
| "service_step (Elsewhere db) s = s\<lparr>sv_db := db\<rparr>"

definition service_run :: "run_event list \<Rightarrow> database \<Rightarrow> service" where
  "service_run events db =
     fold service_step events \<lparr>sv_limiter = limiter_new, sv_db = db, sv_jobs = []\<rparr>"

text \<open>The runs of one key that are in flight.\<close>

definition runs_of :: "uuid \<Rightarrow> job list \<Rightarrow> job list" where
  "runs_of i jobs = filter (\<lambda>j. map_option ak_id (jb_key j) = Some i) jobs"

section \<open>The invariant\<close>

definition permits :: "job list \<Rightarrow> nat list" where
  "permits jobs = List.map_filter jb_permit jobs"

text \<open>
  Every permit in flight is accounted for; a semaphore belongs to one key; a permit of a key's budget is
  held by a run of this key; a run holds a permit exactly when it has a key.
\<close>

definition service_ok :: "limiter \<Rightarrow> job list \<Rightarrow> bool" where
  "service_ok L jobs \<longleftrightarrow> limiter_ok (L, permits jobs)
     \<and> (\<forall>i j b c. lm_budgets L i = Some b \<longrightarrow> lm_budgets L j = Some c \<longrightarrow>
          kb_semaphore b = kb_semaphore c \<longrightarrow> i = j)
     \<and> (\<forall>j\<in>set jobs. \<forall>i b. lm_budgets L i = Some b \<longrightarrow> jb_permit j = Some (kb_semaphore b) \<longrightarrow>
          map_option ak_id (jb_key j) = Some i)
     \<and> (\<forall>j\<in>set jobs. jb_permit j = None \<longleftrightarrow> jb_key j = None)"

lemma permits_simps [simp]:
  "permits [] = []" "permits (j # jobs) = (case jb_permit j of Some p \<Rightarrow> p # permits jobs | None \<Rightarrow> permits jobs)"
  "permits (xs @ ys) = permits xs @ permits ys"
  by (simp_all add: permits_def List.map_filter_def split: option.splits)

lemma set_permits: "set (permits jobs) = {p. \<exists>j\<in>set jobs. jb_permit j = Some p}"
  by (induction jobs) (auto split: option.splits)

lemma limiter_ok_perm_aux:
  assumes "mset xs = mset ys" and "limiter_ok (L, xs)"
  shows "limiter_ok (L, ys)"
proof -
  have "count_list xs p = count_list ys p" for p using assms(1) by (metis count_mset)
  moreover have "set xs = set ys" using assms(1) by (rule mset_eq_setD)
  ultimately show ?thesis using assms(2) by (simp add: limiter_ok_def)
qed

lemma limiter_ok_perm: "mset xs = mset ys \<Longrightarrow> limiter_ok (L, xs) \<Longrightarrow> limiter_ok (L, ys)"
  by (metis (no_types, lifting) limiter_ok_perm_aux)

lemma release_acquired: "try_acquire k L = (Inr p, L') \<Longrightarrow> release p L' = budget_for (ak_id k) (key_permits k) L"
  by (auto simp: try_acquire_def release_def Let_def split: if_splits)

lemma refused_limiter: "try_acquire k L = (Inl e, L') \<Longrightarrow> L' = budget_for (ak_id k) (key_permits k) L"
  by (auto simp: try_acquire_def Let_def split: if_splits)

lemma start_run_cases:
  assumes "start_run E H h key resolved L = (r, L')"
  obtains (refused) e where "r = Inl e"
      "L' = L \<or> (\<exists>k. key = Some k \<and> L' = budget_for (ak_id k) (key_permits k) L)"
  | (keyless) j where "r = Inr j" "L' = L" "jb_key j = None" "jb_permit j = None" "key = None"
  | (keyed) j k p where "r = Inr j" "try_acquire k L = (Inr p, L')" "jb_key j = Some k" "jb_permit j = Some p"
      "key = Some k"
proof (cases "try_acquire (the key) L")
  case (Pair a L1)
  with assms release_acquired[of "the key" L] refused_limiter[of "the key" L] show thesis
    by (cases key; cases a)
      (auto simp: start_run_def begin_execution_def and_then_def attempt_def split: sum.splits intro: that)
qed

lemma service_ok_budget:
  assumes "service_ok L jobs"
  shows "service_ok (budget_for i n L) jobs"
proof -
  have lim: "limiter_ok (L, permits jobs)" using assms by (simp add: service_ok_def)
  have fresh: "lm_budgets L k = Some b \<Longrightarrow> kb_semaphore b \<noteq> lm_next L"
    "j \<in> set jobs \<Longrightarrow> jb_permit j \<noteq> Some (lm_next L)" for k b j
    using lim by (fastforce simp: limiter_ok_def set_permits)+
  have "lm_budgets (new_budget i n L) = (lm_budgets L)(i \<mapsto> \<lparr>kb_permits = n, kb_semaphore = lm_next L\<rparr>)"
    by (simp add: new_budget_def)
  then have "service_ok (new_budget i n L) jobs"
    using assms new_budget_ok[OF lim, of i n] fresh fresh(1)[THEN not_sym]
    by (auto simp: service_ok_def simp del: map_option_eq_Some)
  with assms show ?thesis by (simp add: budget_for_def split: option.split)
qed

lemma service_ok_acquire:
  assumes ok: "service_ok L jobs" and got: "try_acquire k L = (Inr p, L')"
    and j: "jb_key j = Some k" "jb_permit j = Some p"
  shows "service_ok L' (j # jobs)"
proof -
  let ?L = "budget_for (ak_id k) (key_permits k) L"
  have lim: "limiter_ok (L, permits jobs)" using ok by (simp add: service_ok_def)
  have "limiter_ok (L', p # permits jobs)" by (rule limiter_step_ok[OF limiter_step.acquire[OF got] lim])
  moreover from try_acquire_cases[OF lim, of k] got obtain b where
    b: "lm_budgets L' (ak_id k) = Some b" "p = kb_semaphore b" and same: "lm_budgets L' = lm_budgets ?L" by auto
  moreover have "service_ok ?L jobs" by (rule service_ok_budget[OF ok])
  ultimately show ?thesis using j by (auto simp: service_ok_def)
qed

lemma service_ok_drop:
  assumes ok: "service_ok L (xs @ j # ys)"
  shows "service_ok (drop_permit (jb_permit j) L) (xs @ ys)"
proof (cases "jb_permit j")
  case None
  with ok show ?thesis by (simp add: service_ok_def drop_permit_def)
next
  case (Some p)
  have lim: "limiter_ok (L, permits (xs @ j # ys))" using ok by (simp add: service_ok_def)
  have "limiter_ok (release p L, remove1 p (permits (xs @ j # ys)))"
    by (rule limiter_step_ok[OF limiter_step.dropped lim]) (simp add: Some)
  then have "limiter_ok (release p L, permits (xs @ ys))"
    by (rule limiter_ok_perm[rotated]) (simp add: Some)
  with ok Some show ?thesis by (simp add: service_ok_def drop_permit_def release_def)
qed

lemma service_ok_remove:
  assumes "service_ok L jobs" and "n < length jobs"
  shows "service_ok (drop_permit (jb_permit (jobs ! n)) L) (remove_nth n jobs)"
  unfolding remove_nth_def by (rule service_ok_drop) (use assms in \<open>simp flip: id_take_nth_drop\<close>)

lemma service_ok_start:
  assumes "service_ok L jobs" and "start_run E H h key resolved L = (r, L')"
  shows "service_ok L' (case r of Inl e \<Rightarrow> jobs | Inr j \<Rightarrow> j # jobs)"
  using assms(2)
proof (cases rule: start_run_cases)
  case refused
  with assms(1) service_ok_budget[OF assms(1)] show ?thesis by auto
next
  case (keyless j)
  with assms(1) show ?thesis by (simp add: service_ok_def)
next
  case (keyed j k p)
  with service_ok_acquire[OF assms(1)] show ?thesis by simp
qed

lemma finish_run_limiter: "fst (snd (finish_run j (L, db))) = drop_permit (jb_permit j) L"
  by (simp add: finish_run_def Let_def split: sum.split)

lemma service_step_ok:
  assumes "service_ok (sv_limiter s) (sv_jobs s)"
  shows "service_ok (sv_limiter (service_step ev s)) (sv_jobs (service_step ev s))"
proof (cases ev)
  case (Begins E H h key resolved)
  with service_ok_start[OF assms, of E H h key resolved] show ?thesis by (auto split: prod.split sum.split)
next
  case (Finishes n)
  with service_ok_remove[OF assms, of n] finish_run_limiter[of "sv_jobs s ! n" "sv_limiter s" "sv_db s"] assms
  show ?thesis by (auto split: prod.split)
next
  case (Abandons n)
  with service_ok_remove[OF assms, of n] assms show ?thesis by simp
qed (simp add: assms)

lemma service_run_ok: "service_ok (sv_limiter (service_run events db)) (sv_jobs (service_run events db))"
proof -
  have along: "service_ok (sv_limiter (fold service_step events s)) (sv_jobs (fold service_step events s))"
    if "service_ok (sv_limiter s) (sv_jobs s)" for s
    using that by (induction events arbitrary: s) (simp_all add: service_step_ok)
  show ?thesis unfolding service_run_def
    by (rule along) (simp add: service_ok_def limiter_ok_def limiter_new_def)
qed

section \<open>One limit per key\<close>

text \<open>The budget of key \<open>i\<close>, once there is one, has \<open>n\<close> permits, and its runs hold permits of this budget.\<close>

definition keeps_limit :: "uuid \<Rightarrow> nat \<Rightarrow> limiter \<Rightarrow> job list \<Rightarrow> bool" where
  "keeps_limit i n L jobs \<longleftrightarrow> (\<forall>b. lm_budgets L i = Some b \<longrightarrow> kb_permits b = n)
     \<and> (\<forall>j\<in>set (runs_of i jobs). \<exists>b. lm_budgets L i = Some b \<and> jb_permit j = Some (kb_semaphore b))"

lemma runs_of_simps [simp]:
  "runs_of i [] = []" "runs_of i (xs @ ys) = runs_of i xs @ runs_of i ys"
  "runs_of i (j # jobs) = (if map_option ak_id (jb_key j) = Some i then j # runs_of i jobs else runs_of i jobs)"
  by (simp_all add: runs_of_def)

lemma budget_elsewhere: "k \<noteq> i \<Longrightarrow> lm_budgets (budget_for k m L) i = lm_budgets L i"
  by (simp add: budget_for_def new_budget_def split: option.split)

lemma budget_settled:
  "(\<forall>b. lm_budgets L i = Some b \<longrightarrow> kb_permits b = n) \<Longrightarrow>
     (case lm_budgets L i of Some b \<Rightarrow> lm_budgets (budget_for i n L) i = Some b
      | None \<Rightarrow> \<exists>b. lm_budgets (budget_for i n L) i = Some b \<and> kb_permits b = n)"
  by (auto simp: budget_for_def new_budget_def split: option.split)

lemma keeps_limit_budget:
  assumes "keeps_limit i n L jobs" and "k = i \<longrightarrow> m = n"
  shows "keeps_limit i n (budget_for k m L) jobs"
  using assms budget_settled[of L i n] budget_elsewhere[of k i m L]
  by (cases "k = i"; cases "lm_budgets L i") (auto simp: keeps_limit_def)

lemma drop_permit_budgets [simp]: "lm_budgets (drop_permit permit L) = lm_budgets L"
  by (simp add: drop_permit_def release_def split: option.split)

lemma keeps_limit_remove: "keeps_limit i n L jobs \<Longrightarrow> keeps_limit i n (drop_permit p L) (remove_nth m jobs)"
  by (auto simp: keeps_limit_def remove_nth_def runs_of_def dest: in_set_takeD in_set_dropD)

lemma keeps_limit_start:
  assumes keeps: "keeps_limit i n L jobs" and ok: "service_ok L jobs"
    and run: "start_run E H h key resolved L = (r, L')"
    and same: "\<forall>k. key = Some k \<longrightarrow> ak_id k = i \<longrightarrow> key_permits k = n"
  shows "keeps_limit i n L' (case r of Inl e \<Rightarrow> jobs | Inr j \<Rightarrow> j # jobs)"
  using run
proof (cases rule: start_run_cases)
  case refused
  with keeps keeps_limit_budget[OF keeps] same show ?thesis by auto
next
  case (keyless j)
  with keeps show ?thesis by (simp add: keeps_limit_def)
next
  case (keyed j k p)
  from keeps_limit_budget[OF keeps, of "ak_id k" "key_permits k"] keyed(5) same
  have kept: "keeps_limit i n (budget_for (ak_id k) (key_permits k) L) jobs" by auto
  have "limiter_ok (L, permits jobs)" using ok by (simp add: service_ok_def)
  from try_acquire_cases[OF this, of k] keyed(2) obtain b where
    "lm_budgets L' (ak_id k) = Some b" "p = kb_semaphore b"
    "lm_budgets L' = lm_budgets (budget_for (ak_id k) (key_permits k) L)" by auto
  with kept keyed show ?thesis by (auto simp: keeps_limit_def)
qed

lemma keeps_limit_step:
  assumes "keeps_limit i n (sv_limiter s) (sv_jobs s)" and "service_ok (sv_limiter s) (sv_jobs s)"
    and "\<And>E H h k resolved. ev = Begins E H h (Some k) resolved \<Longrightarrow> ak_id k = i \<Longrightarrow> key_permits k = n"
  shows "keeps_limit i n (sv_limiter (service_step ev s)) (sv_jobs (service_step ev s))"
proof (cases ev)
  case (Begins E H h key resolved)
  with keeps_limit_start[OF assms(1,2), of E H h key resolved] assms(3)
  show ?thesis by (auto split: prod.split sum.split)
next
  case (Finishes m)
  with keeps_limit_remove[OF assms(1)] finish_run_limiter[of "sv_jobs s ! m" "sv_limiter s" "sv_db s"] assms(1)
  show ?thesis by (auto split: prod.split)
next
  case (Abandons m)
  with keeps_limit_remove[OF assms(1)] assms(1) show ?thesis by simp
qed (simp add: assms)

lemma keeps_limit_run:
  assumes "\<And>E H h k resolved. Begins E H h (Some k) resolved \<in> set events \<Longrightarrow> ak_id k = i \<Longrightarrow> key_permits k = n"
  shows "keeps_limit i n (sv_limiter (service_run events db)) (sv_jobs (service_run events db))"
proof -
  have along: "keeps_limit i n (sv_limiter (fold service_step evs s)) (sv_jobs (fold service_step evs s))"
    if "keeps_limit i n (sv_limiter s) (sv_jobs s)" "service_ok (sv_limiter s) (sv_jobs s)" "set evs \<subseteq> set events"
    for evs s
    using that
  proof (induction evs arbitrary: s)
    case (Cons ev evs)
    have "keeps_limit i n (sv_limiter (service_step ev s)) (sv_jobs (service_step ev s))"
      by (rule keeps_limit_step[OF Cons.prems(1,2)]) (use assms Cons.prems(3) in auto)
    with Cons service_step_ok[OF Cons.prems(2)] show ?case by simp
  qed simp
  show ?thesis unfolding service_run_def
    by (rule along) (simp_all add: keeps_limit_def service_ok_def limiter_ok_def limiter_new_def)
qed

lemma permits_count: "count_list (permits jobs) p = length (filter (\<lambda>j. jb_permit j = Some p) jobs)"
  by (induction jobs) (auto split: option.split)

lemma length_filter_mono: "(\<And>x. x \<in> set xs \<Longrightarrow> P x \<Longrightarrow> Q x) \<Longrightarrow> length (filter P xs) \<le> length (filter Q xs)"
  by (induction xs) force+

section \<open>What a finished run leaves\<close>

text \<open>The rows that a record refers to are looked up when the child has ended, not when it was started.\<close>

lemma finish_run_recorded:
  "(\<exists>record. fst (finish_run j (L, db)) = Inr record) \<longleftrightarrow>
     ev_uuid (jb_env j) 0 \<notin> ex_id ` set (db_execs db) \<and> hook_exists (hk_id (jb_hook j)) db
     \<and> (\<forall>k. jb_key j = Some k \<longrightarrow> key_exists (ak_id k) db)"
proof -
  have "hook_exists i db \<longleftrightarrow> list_ex (\<lambda>h. hk_id h = i) (db_hooks db)" "key_exists i db \<longleftrightarrow> list_ex (\<lambda>k. ak_id k = i) (db_keys db)"
    "i \<in> ex_id ` set (db_execs db) \<longleftrightarrow> list_ex (\<lambda>e. ex_id e = i) (db_execs db)" for i
    by (auto simp: hook_exists_def key_exists_def list_ex_iff)
  then show ?thesis
    by (cases "jb_key j") (simp_all add: finish_run_def Let_def insert_exec_def execution_record_def nullable_fk_ok_def)
qed

lemma run_of_a_deleted_key_is_lost:
  assumes "jb_key j = Some k" and "\<not> key_exists (ak_id k) db"
  shows "\<exists>e. finish_run j (L, db) = (Inl (DbError e), (drop_permit (jb_permit j) L, db))"
proof -
  have "\<not> (\<exists>record. fst (finish_run j (L, db)) = Inr record)" using assms by (simp add: finish_run_recorded)
  then show ?thesis by (auto simp: finish_run_def Let_def split: sum.splits)
qed

section \<open>Three requests of one key\<close>

definition ci_begins :: run_event where
  "ci_begins = Begins demo_env demo_host deploy_hook (Some ci_key) \<lparr>rp_values = [], rp_missing_required = []\<rparr>"

definition ci_job :: "nat \<Rightarrow> job" where
  "ci_job p = \<lparr>jb_env = demo_env, jb_host = demo_host, jb_hook = deploy_hook, jb_key = Some ci_key,
     jb_resolved = \<lparr>rp_values = [], rp_missing_required = []\<rparr>, jb_permit = Some p, jb_plan = demo_plan\<rparr>"

lemma ci_begins_step:
  "service_step ci_begins s =
     (case try_acquire ci_key (sv_limiter s) of
        (Inl e, L) \<Rightarrow> s\<lparr>sv_limiter := L\<rparr>
      | (Inr p, L) \<Rightarrow> s\<lparr>sv_limiter := L, sv_jobs := ci_job p # sv_jobs s\<rparr>)"
  using demo_runnable demo_plan_built
  by (auto simp: ci_begins_def start_run_def begin_execution_def script_error_to_app_def ci_job_def and_then_def
      split: prod.split sum.split)

definition ci_limiter :: "nat \<Rightarrow> limiter" where
  "ci_limiter free = \<lparr>lm_budgets = [3 \<mapsto> \<lparr>kb_permits = 2, kb_semaphore = 0\<rparr>], lm_free = (\<lambda>_. 0)(0 := free), lm_next = 1\<rparr>"

lemma ci_acquires:
  "try_acquire ci_key limiter_new = (Inr 0, ci_limiter 1)"
  "try_acquire ci_key (ci_limiter (Suc n)) = (Inr 0, ci_limiter n)"
  "\<exists>e. try_acquire ci_key (ci_limiter 0) = (Inl e, ci_limiter 0)"
  by (auto simp: try_acquire_def budget_for_def new_budget_def limiter_new_def ci_limiter_def key_permits_def)

lemma ci_two_runs:
  "service_run [ci_begins, ci_begins] demo_db =
     \<lparr>sv_limiter = ci_limiter 0, sv_db = demo_db, sv_jobs = [ci_job 0, ci_job 0]\<rparr>"
  using ci_acquires(2)[of 0] by (simp add: service_run_def ci_begins_step ci_acquires(1))

section \<open>Properties\<close>

text \<open>
  C31. Whatever runs overlap and however they end (finished, abandoned by the client, refused, failed before the
  child was started), a key is refused a permit only while at least \<open>max\_concurrent\_jobs\<close> (at least 1) of its
  own runs are in flight: no permit is ever lost, and no key waits for another key's runs.
\<close>

theorem refused_only_when_busy:
  assumes "try_acquire key (sv_limiter (service_run events db)) = (Inl e, L')"
  shows "key_permits key \<le> length (runs_of (ak_id key) (sv_jobs (service_run events db)))"
proof -
  let ?s = "service_run events db"
  have ok: "service_ok (sv_limiter ?s) (sv_jobs ?s)" by (rule service_run_ok)
  then have "limiter_ok (sv_limiter ?s, permits (sv_jobs ?s))" by (simp add: service_ok_def)
  from try_acquire_cases[OF this, of key] assms obtain b where
    b: "lm_budgets L' (ak_id key) = Some b" "count_list (permits (sv_jobs ?s)) (kb_semaphore b) = key_permits key"
    and "L' = budget_for (ak_id key) (key_permits key) (sv_limiter ?s)" by auto
  then have "service_ok L' (sv_jobs ?s)" using service_ok_budget[OF ok] by simp
  then have "\<forall>j\<in>set (sv_jobs ?s). jb_permit j = Some (kb_semaphore b) \<longrightarrow> map_option ak_id (jb_key j) = Some (ak_id key)"
    using b(1) unfolding service_ok_def by blast
  then show ?thesis
    unfolding b(2)[symmetric] permits_count runs_of_def by (intro length_filter_mono) blast
qed

theorem refused_only_when_busy_witness:
  "\<exists>e L'. try_acquire ci_key (sv_limiter (service_run [ci_begins, ci_begins] demo_db)) = (Inl e, L')
     \<and> 2 \<le> length (runs_of 3 (sv_jobs (service_run [ci_begins, ci_begins] demo_db)))"
proof -
  obtain e where "try_acquire ci_key (sv_limiter (service_run [ci_begins, ci_begins] demo_db)) = (Inl e, ci_limiter 0)"
    using ci_acquires(3) by (auto simp: ci_two_runs)
  with refused_only_when_busy[OF this] show ?thesis by (simp add: key_permits_def)
qed

text \<open>
  C32. While the row of a key keeps its \<open>max\_concurrent\_jobs\<close>, no more than this many of its runs are in flight
  at any moment of any interleaving.
\<close>

theorem runs_stay_within_the_limit:
  assumes "\<And>E H h k resolved. Begins E H h (Some k) resolved \<in> set events \<Longrightarrow> ak_id k = i \<Longrightarrow> key_permits k = n"
  shows "length (runs_of i (sv_jobs (service_run events db))) \<le> n"
proof -
  let ?s = "service_run events db"
  have keeps: "keeps_limit i n (sv_limiter ?s) (sv_jobs ?s)" by (rule keeps_limit_run[OF assms])
  show ?thesis
  proof (cases "lm_budgets (sv_limiter ?s) i")
    case None
    with keeps have "runs_of i (sv_jobs ?s) = []" by (auto simp: keeps_limit_def)
    then show ?thesis by simp
  next
    case (Some b)
    with keeps have "\<forall>j\<in>set (runs_of i (sv_jobs ?s)). jb_permit j = Some (kb_semaphore b)" and n: "kb_permits b = n"
      by (auto simp: keeps_limit_def)
    then have "length (runs_of i (sv_jobs ?s)) \<le> count_list (permits (sv_jobs ?s)) (kb_semaphore b)"
      unfolding permits_count runs_of_def by (intro length_filter_mono) auto
    also have "\<dots> \<le> kb_permits b"
      using service_run_ok[of events db] Some unfolding service_ok_def limiter_ok_def by (metis fst_conv le_add2 snd_conv)
    finally show ?thesis by (simp add: n)
  qed
qed

theorem runs_stay_within_the_limit_witness:
  "length (runs_of 3 (sv_jobs (service_run [ci_begins, ci_begins, ci_begins, Finishes 0, ci_begins] demo_db))) \<le> 2"
  by (rule runs_stay_within_the_limit) (auto simp: ci_begins_def key_permits_def)

end
