(* ===== verification/Db_Session.thy ===== *)
theory Db_Session
  imports Hook_Prelude
begin

text \<open>
  Opening the database (\<open>src/db.rs\<close>): which options \<open>connect\<close> declares for an SQLite URL, and the pragmas that
  \<open>apply\_sqlite\_pragmas\<close> sends and logs.  The drivers and the engine are parameters: \<open>sqlx\<close> reads the rest of
  the URL and opens the pool, the engine answers each statement or fails.  Log lines are values here, because
  evidence is all that this function adds.
\<close>

section \<open>Connecting\<close>

datatype journal_mode = JournalDelete | JournalWal
datatype synchronous_mode = SyncFull | SyncNormal

record sqlite_options =
  so_create_if_missing :: bool
  so_foreign_keys :: bool
  so_journal_mode :: journal_mode
  so_synchronous :: synchronous_mode
  so_busy_timeout_ms :: nat

definition SQLITE_BUSY_TIMEOUT_MS :: nat where
  "SQLITE_BUSY_TIMEOUT_MS = 5000"

definition SQLITE_MAX_CONNECTIONS :: nat where
  "SQLITE_MAX_CONNECTIONS = 1"

text \<open>\<open>'p\<close> is the type of a pool, an error of the drivers is its text.\<close>

record 'p drivers =
  dr_generic :: "string \<Rightarrow> string + 'p" \<comment> \<open>\<open>Database::connect\<close>\<close>
  dr_sqlite_parse :: "string \<Rightarrow> string + sqlite_options" \<comment> \<open>\<open>SqliteConnectOptions::from\_str\<close>\<close>
  dr_sqlite_pool :: "sqlite_options \<Rightarrow> nat \<Rightarrow> string + 'p"

definition connect :: "'p drivers \<Rightarrow> string \<Rightarrow> string + 'p" where
  "connect D db_url =
     (if take 7 db_url \<noteq> ''sqlite:'' then dr_generic D db_url
      else case dr_sqlite_parse D db_url of
             Inl e \<Rightarrow> Inl e
           | Inr options \<Rightarrow>
               dr_sqlite_pool D
                 (options\<lparr>so_create_if_missing := True, so_foreign_keys := True,
                    so_journal_mode := JournalWal, so_synchronous := SyncNormal,
                    so_busy_timeout_ms := SQLITE_BUSY_TIMEOUT_MS\<rparr>)
                 SQLITE_MAX_CONNECTIONS)"

section \<open>Session pragmas\<close>

datatype backend = Sqlite | Postgres | MySql

datatype pragma_log =
    WalActive
  | OtherJournalMode string
  | JournalUnreadable string
  | JournalSilent
  | WalFailed string
  | PragmaFailed string string
  | PragmasApplied

text \<open>
  The engine, over its own state: a query answers a row (whose column may not be readable as text), no row
  or an error; a statement succeeds or fails.
\<close>

record 's engine =
  en_query :: "string \<Rightarrow> 's \<Rightarrow> (string + (string + string) option) \<times> 's"
  en_execute :: "string \<Rightarrow> 's \<Rightarrow> (string + unit) \<times> 's"

definition journal_log :: "(string + (string + string) option) \<Rightarrow> pragma_log" where
  "journal_log answer =
     (case answer of
        Inr (Some (Inr mode)) \<Rightarrow>
          if List.map ascii_lower mode = ''wal'' then WalActive else OtherJournalMode mode
      | Inr (Some (Inl e)) \<Rightarrow> JournalUnreadable e
      | Inr None \<Rightarrow> JournalSilent
      | Inl e \<Rightarrow> WalFailed e)"

definition session_pragmas :: "(string \<times> string) list" where
  "session_pragmas =
     [(''foreign key enforcement'', ''PRAGMA foreign_keys=ON;''),
      (''synchronous mode'', ''PRAGMA synchronous=NORMAL;''),
      (''busy timeout'', ''PRAGMA busy_timeout='' @ nat_text SQLITE_BUSY_TIMEOUT_MS @ '';'')]"

fun set_and_log :: "'s engine \<Rightarrow> (string \<times> string) list \<Rightarrow> 's \<Rightarrow> pragma_log list \<times> 's" where
  "set_and_log En [] s = ([], s)"
| "set_and_log En ((label, statement) # r) s =
     (case en_execute En statement s of
        (Inl e, s) \<Rightarrow> (case set_and_log En r s of (logs, s) \<Rightarrow> (PragmaFailed label e # logs, s))
      | (Inr _, s) \<Rightarrow> set_and_log En r s)"

definition apply_sqlite_pragmas :: "'s engine \<Rightarrow> backend \<Rightarrow> 's \<Rightarrow> (string + unit) \<times> pragma_log list \<times> 's" where
  "apply_sqlite_pragmas En b s =
     (if b \<noteq> Sqlite then (Inr (), [], s)
      else let (answer, s) = en_query En ''PRAGMA journal_mode=WAL;'' s;
               (logs, s) = set_and_log En session_pragmas s
           in (Inr (), journal_log answer # logs @ [PragmasApplied], s))"

section \<open>What they promise\<close>

text \<open>A pragma that fails never keeps the daemon from starting, and none is sent to another backend.\<close>

lemma pragmas_never_refuse: "fst (apply_sqlite_pragmas En b s) = Inr ()"
  by (simp add: apply_sqlite_pragmas_def split_beta Let_def)

lemma other_backends_untouched: "b \<noteq> Sqlite \<Longrightarrow> snd (apply_sqlite_pragmas En b s) = ([], s)"
  by (simp add: apply_sqlite_pragmas_def)

text \<open>A pragma that fails does not stop the later ones: every statement is sent, in order.\<close>

lemma every_pragma_is_sent:
  "snd (set_and_log En ps s) = fold (\<lambda>p s. snd (en_execute En (snd p) s)) ps s"
proof (induction ps arbitrary: s)
  case (Cons p ps)
  obtain label q r t where [simp]: "p = (label, q)" and step [simp]: "en_execute En q s = (r, t)"
    by (metis surj_pair)
  from Cons[of t] show ?case by (cases r) (simp_all add: split_beta)
qed simp

text \<open>Every SQLite pool enforces foreign keys on its single connection, whatever the URL asks for.\<close>

lemma sqlite_pools_enforce_foreign_keys:
  assumes "take 7 db_url = ''sqlite:''" and "connect D db_url = Inr pool"
  shows "\<exists>options. dr_sqlite_pool D options 1 = Inr pool \<and> so_foreign_keys options
    \<and> so_create_if_missing options \<and> so_busy_timeout_ms options = 5000"
proof -
  obtain options where "dr_sqlite_parse D db_url = Inr options" and
    "dr_sqlite_pool D (options\<lparr>so_create_if_missing := True, so_foreign_keys := True,
       so_journal_mode := JournalWal, so_synchronous := SyncNormal,
       so_busy_timeout_ms := SQLITE_BUSY_TIMEOUT_MS\<rparr>) SQLITE_MAX_CONNECTIONS = Inr pool"
    using assms by (auto simp: connect_def split: sum.splits)
  then show ?thesis by (intro exI) (auto simp: SQLITE_BUSY_TIMEOUT_MS_def SQLITE_MAX_CONNECTIONS_def)
qed

end
