(* ===== verification/Overlapping_Requests.thy ===== *)
theory Overlapping_Requests
  imports System_Properties
begin

text \<open>
  Requests that overlap.  The middleware hands the handler a copy of the key it found, and other requests are
  served before the handler runs: by then the key may have lost its scopes or be gone.  Here the two halves
  of an administration request are separate steps, with any others in between; what the copy may still do,
  and what no interleaving can do.
\<close>

section \<open>Admission and handling\<close>

text \<open>What the request extensions carry from \<open>auth\_middleware\<close> to the handler.\<close>

record admitted_request =
  ar_client_ip :: ip
  ar_key :: api_key
  ar_call :: api_call

datatype overlap_event =
    Admit env instant "network list" request api_call
  | Handle nat env
  | Uninterrupted event

record daemon =
  dm_db :: database
  dm_auth :: auth_state
  dm_admitted :: "admitted_request list"

fun daemon_step :: "overlap_event \<Rightarrow> daemon \<Rightarrow> daemon" where
  "daemon_step (Admit E t trusted rq call) s =
     (case auth_middleware E t trusted rq (dm_db s) (dm_auth s) of
        (Inl e, au) \<Rightarrow> s\<lparr>dm_auth := au\<rparr>
      | (Inr (client_ip, key), au) \<Rightarrow>
          s\<lparr>dm_auth := au,
            dm_admitted := dm_admitted s @ [\<lparr>ar_client_ip = client_ip, ar_key = key, ar_call = call\<rparr>]\<rparr>)"
| "daemon_step (Handle n E) s =
     (if n < length (dm_admitted s)
      then let r = dm_admitted s ! n
           in s\<lparr>dm_db := snd (serve E (ar_key r) (ar_client_ip r) (ar_call r) (dm_db s)),
                dm_admitted := take n (dm_admitted s) @ drop (Suc n) (dm_admitted s)\<rparr>
      else s)"
| "daemon_step (Uninterrupted e) s =
     (case react e (dm_db s, dm_auth s) of (db, au) \<Rightarrow> s\<lparr>dm_db := db, dm_auth := au\<rparr>)"

definition daemon_run :: "overlap_event list \<Rightarrow> daemon \<Rightarrow> daemon" where
  "daemon_run = fold daemon_step"

definition idle_daemon :: "database \<Rightarrow> auth_state \<Rightarrow> daemon" where
  "idle_daemon db au = \<lparr>dm_db = db, dm_auth = au, dm_admitted = []\<rparr>"

text \<open>A request that is handled at once is the request of the other histories.\<close>

lemma handled_at_once:
  "dm_admitted s = [] \<Longrightarrow>
     daemon_step (Handle 0 E') (daemon_step (Admit E t trusted rq call) s)
     = daemon_step (Uninterrupted (AdminRequest E E' t trusted rq call)) s"
  by (cases s) (auto simp: admin_request_def split: prod.split sum.split)

fun well_formed_overlap :: "overlap_event \<Rightarrow> bool" where
  "well_formed_overlap (Admit _ _ _ _ call) = well_formed_call call"
| "well_formed_overlap (Handle _ _) = True"
| "well_formed_overlap (Uninterrupted e) = well_formed_event e"

text \<open>The event admits a request of the master.\<close>

fun admits_master :: "overlap_event \<Rightarrow> daemon \<Rightarrow> bool" where
  "admits_master (Admit E t trusted rq call) s =
     (case fst (auth_middleware E t trusted rq (dm_db s) (dm_auth s)) of
        Inl e \<Rightarrow> False | Inr (client_ip, key) \<Rightarrow> ak_is_master key)"
| "admits_master (Handle n E) s = False"
| "admits_master (Uninterrupted e) s = by_master e (dm_db s, dm_auth s)"

fun master_absent :: "overlap_event list \<Rightarrow> daemon \<Rightarrow> bool" where
  "master_absent [] s = True"
| "master_absent (e # es) s = (\<not> admits_master e s \<and> master_absent es (daemon_step e s))"

section \<open>What a stale copy can still write\<close>

text \<open>
  Where the row of the caller is gone, the one write outside the access model is the new key of
  \<open>create_api_key\<close>: it is stored below a parent that no longer exists, and then the audit entry is refused.
\<close>

definition birth_scopes :: "api_key \<Rightarrow> api_key \<Rightarrow> bool" where
  "birth_scopes c r \<longleftrightarrow> \<not> ak_is_master r \<and> (ak_can_manage_keys r \<or> ak_can_manage_hooks r \<longrightarrow> ak_is_master c)"

definition stale_writes :: "api_key \<Rightarrow> database \<Rightarrow> database \<Rightarrow> bool" where
  "stale_writes c db db' \<longleftrightarrow> writes c db db db'
     \<or> (\<exists>r d. birth_scopes c r \<and> insert_key r db = Inr d \<and> writes c d d db')"

lemma stale_writes_refl: "stale_writes c db db"
  by (simp add: stale_writes_def)

lemma stale_writes_audit:
  "stale_writes c db d \<Longrightarrow> stale_writes c db (snd (create_audit_log E n c ip a t x d))"
  unfolding stale_writes_def by (blast intro: audit_step)

lemma stale_writes_birth: "insert_key r db = Inr d \<Longrightarrow> birth_scopes c r \<Longrightarrow> stale_writes c db d"
  unfolding stale_writes_def by blast

lemma create_api_key_stale: "stale_writes key db (snd (create_api_key E key ip payload db))"
  unfolding create_api_key_def Let_def
  apply (intro keeps_state[where P = "stale_writes key db"] stale_writes_audit stale_writes_refl)
  apply (erule stale_writes_birth)
  by (auto simp: birth_scopes_def early_return unwrap_or_flag)

lemma serve_stale:
  assumes "wf_db db" and "well_formed_call call"
  shows "stale_writes key db (snd (serve E key ip call db))"
proof (cases call)
  case (CreateKey payload)
  then show ?thesis by (simp add: create_api_key_stale)
next
  case (PurgeHooks age)
  then show ?thesis
    by (cases "purge_deleted_hooks E key ip age db") (auto simp: stale_writes_def dest: purge_deleted_hooks_writes)
next
  case (PurgeExecutions age)
  then show ?thesis
    by (cases "purge_executions E key ip age db") (auto simp: stale_writes_def dest: purge_executions_writes)
qed (use assms in \<open>simp_all add: stale_writes_def key_handler_writes hook_handler_writes\<close>)

section \<open>What no interleaving can do\<close>

text \<open>
  The change of the database that the master is not needed for: its row is the same, no key has gained a
  global scope, and what a privileged hook runs is as it was.
\<close>

definition ordinary_evolution :: "database \<Rightarrow> database \<Rightarrow> bool" where
  "ordinary_evolution db db' \<longleftrightarrow> masters db' = masters db
     \<and> (\<forall>k'\<in>set (db_keys db').
          (ak_can_manage_keys k' \<longrightarrow> (\<exists>k\<in>set (db_keys db). ak_id k = ak_id k' \<and> ak_can_manage_keys k))
        \<and> (ak_can_manage_hooks k' \<longrightarrow> (\<exists>k\<in>set (db_keys db). ak_id k = ak_id k' \<and> ak_can_manage_hooks k)))
     \<and> (\<forall>h'\<in>set (db_hooks db'). privileged h' \<longrightarrow>
          (\<exists>h\<in>set (db_hooks db). privileged h \<and> untouched h db h' db'))"

lemma evolution_refl: "ordinary_evolution db db"
  using untouched_refl by (auto simp: ordinary_evolution_def)

lemma evolution_trans:
  assumes "ordinary_evolution db d" and "ordinary_evolution d db'"
  shows "ordinary_evolution db db'"
  unfolding ordinary_evolution_def
proof (intro conjI ballI impI)
  show "masters db' = masters db" using assms by (simp add: ordinary_evolution_def)
  fix k' assume "k' \<in> set (db_keys db')"
  with assms show "ak_can_manage_keys k' \<Longrightarrow> \<exists>k\<in>set (db_keys db). ak_id k = ak_id k' \<and> ak_can_manage_keys k"
    and "ak_can_manage_hooks k' \<Longrightarrow> \<exists>k\<in>set (db_keys db). ak_id k = ak_id k' \<and> ak_can_manage_hooks k"
    unfolding ordinary_evolution_def by metis+
next
  fix h' assume "h' \<in> set (db_hooks db')" "privileged h'"
  with assms(2) obtain h1 where "h1 \<in> set (db_hooks d)" "privileged h1" "untouched h1 d h' db'"
    unfolding ordinary_evolution_def by blast
  moreover from this assms(1) obtain h where "h \<in> set (db_hooks db)" "privileged h" "untouched h db h1 d"
    unfolding ordinary_evolution_def by blast
  ultimately show "\<exists>h\<in>set (db_hooks db). privileged h \<and> untouched h db h' db'" using untouched_trans by blast
qed

lemma writes_ordinary:
  assumes "writes c db db db'" and "wf_db db" and "rooted db" and "\<not> ak_is_master c"
  shows "ordinary_evolution db db'"
  unfolding ordinary_evolution_def
  using writes_rooted[OF assms(1-3)] writes_scopes[OF assms(1,4)] writes_untouched[OF assms(1,2,4)] assms(4) by blast

lemma birth_evolution:
  assumes "insert_key r db = Inr d" and "birth_scopes c r"
  shows "masters d = masters db" and "\<not> ak_is_master c \<Longrightarrow> ordinary_evolution db d"
proof -
  from assms show same: "masters d = masters db" by (simp add: birth_scopes_def masters_insert)
  have rows: "d = db\<lparr>db_keys := db_keys db @ [r]\<rparr>" by (rule insert_key_shape[OF assms(1)])
  show "ordinary_evolution db d" if "\<not> ak_is_master c"
    using same assms(2) that unfolding ordinary_evolution_def
    by (auto simp: rows birth_scopes_def untouched_def)
qed

lemma stale_sound:
  assumes "stale_writes c db db'" and "wf_db db" and "rooted db"
  shows "wf_db db' \<and> map frozen (masters db') = map frozen (masters db)
    \<and> (\<not> ak_is_master c \<longrightarrow> ordinary_evolution db db')"
  using assms(1) unfolding stale_writes_def
proof (elim disjE exE conjE)
  assume "writes c db db db'"
  then show ?thesis using writes_wf writes_rooted writes_ordinary assms(2,3) by blast
next
  fix r d assume r: "birth_scopes c r" "insert_key r db = Inr d" and later: "writes c d d db'"
  have d: "wf_db d" "rooted d" "masters d = masters db"
    using insert_key_wf[OF assms(2) r(2)] birth_evolution(1)[OF r(2,1)] rooted_frozen[of d db] assms(3) by auto
  with later have "wf_db db' \<and> map frozen (masters db') = map frozen (masters d)"
    using writes_wf writes_rooted by blast
  moreover have "ordinary_evolution db db'" if "\<not> ak_is_master c"
    using evolution_trans[OF birth_evolution(2)[OF r(2,1) that] writes_ordinary[OF later d(1,2) that]] .
  ultimately show ?thesis using d(3) by auto
qed

lemma same_tables_ordinary:
  assumes "db_keys db' = db_keys db" and "db_hooks db' = db_hooks db" and "db_params db' = db_params db"
  shows "ordinary_evolution db db'"
  using assms by (auto simp: ordinary_evolution_def masters_def untouched_def)

lemma react_evolution:
  assumes "wf_db (fst s)" and "rooted (fst s)" and "well_formed_event e"
  shows "wf_db (fst (react e s)) \<and> map frozen (masters (fst (react e s))) = map frozen (masters (fst s))
    \<and> (\<not> by_master e s \<longrightarrow> ordinary_evolution (fst s) (fst (react e s)))"
  using assms(1,3)
proof (cases rule: react_cases)
  case (served key)
  have "wf_db (fst (react e s)) \<and> map frozen (masters (fst (react e s))) = map frozen (masters (fst s))"
    using writes_wf[OF served(2) assms(1)] writes_rooted[OF served(2) assms(1,2)] by blast
  moreover have "ordinary_evolution (fst s) (fst (react e s))" if "\<not> by_master e s"
    using served(3) that writes_ordinary[OF served(2) assms(1,2)] same_tables_ordinary by blast
  ultimately show ?thesis by blast
next
  case (keyless r)
  then show ?thesis
    using insert_exec_wf[OF assms(1) keyless] masters_frame[of "fst (react e s)" "fst s"] key_frames(5)[OF keyless]
      same_tables_ordinary hook_frames(5) param_frames(5) by metis
next
  case sweep
  have "ordinary_evolution (fst s) (fst (react e s))"
    unfolding ordinary_evolution_def
    using masters_frame[OF swept_keys[OF sweep(1)]] swept_keys[OF sweep(1)] swept_hooks[OF sweep(1)]
      swept_params[OF sweep(1) assms(1)] by (auto simp: untouched_def)
  then show ?thesis using swept_wf[OF sweep(1) assms(1)] masters_frame[OF swept_keys[OF sweep(1)]] by simp
next
  case idle
  then show ?thesis using assms(1) evolution_refl by simp
qed

lemma daemon_step_sound:
  assumes "wf_db (dm_db s)" and "rooted (dm_db s)" and "well_formed_overlap e"
    and calls: "\<forall>r\<in>set (dm_admitted s). well_formed_call (ar_call r)"
  shows "wf_db (dm_db (daemon_step e s))
    \<and> map frozen (masters (dm_db (daemon_step e s))) = map frozen (masters (dm_db s))
    \<and> (\<forall>r\<in>set (dm_admitted (daemon_step e s)). well_formed_call (ar_call r))
    \<and> (\<not> admits_master e s \<and> (\<forall>r\<in>set (dm_admitted s). \<not> ak_is_master (ar_key r)) \<longrightarrow>
         ordinary_evolution (dm_db s) (dm_db (daemon_step e s))
         \<and> (\<forall>r\<in>set (dm_admitted (daemon_step e s)). \<not> ak_is_master (ar_key r)))"
proof (cases e)
  case (Admit E t trusted rq call)
  then show ?thesis using assms evolution_refl by (auto split: prod.splits sum.splits)
next
  case (Handle n E)
  show ?thesis
  proof (cases "n < length (dm_admitted s)")
    case True
    let ?r = "dm_admitted s ! n"
    have "stale_writes (ar_key ?r) (dm_db s) (snd (serve E (ar_key ?r) (ar_client_ip ?r) (ar_call ?r) (dm_db s)))"
      using serve_stale[OF assms(1)] calls True by simp
    from stale_sound[OF this assms(1,2)] show ?thesis
      using Handle True calls by (auto simp: Let_def dest: in_set_takeD in_set_dropD)
  next
    case False
    then show ?thesis using Handle assms evolution_refl by simp
  qed
next
  case (Uninterrupted e')
  with react_evolution[of "(dm_db s, dm_auth s)" e'] assms show ?thesis by (auto split: prod.splits)
qed

lemma daemon_run_sound:
  assumes "wf_db (dm_db s)" and "rooted (dm_db s)" and "\<forall>e\<in>set es. well_formed_overlap e"
    and "\<forall>r\<in>set (dm_admitted s). well_formed_call (ar_call r)"
  shows "wf_db (dm_db (daemon_run es s)) \<and> map frozen (masters (dm_db (daemon_run es s))) = map frozen (masters (dm_db s))"
    and "master_absent es s \<Longrightarrow> (\<forall>r\<in>set (dm_admitted s). \<not> ak_is_master (ar_key r)) \<Longrightarrow>
      ordinary_evolution (dm_db s) (dm_db (daemon_run es s))"
proof (atomize (full), use assms in \<open>induction es arbitrary: s\<close>)
  case Nil
  then show ?case using evolution_refl by (simp add: daemon_run_def)
next
  case (Cons e es)
  let ?s = "daemon_step e s"
  have run: "daemon_run (e # es) s = daemon_run es ?s" by (simp add: daemon_run_def)
  from Cons.prems daemon_step_sound[of s e] have now: "wf_db (dm_db ?s)"
      "map frozen (masters (dm_db ?s)) = map frozen (masters (dm_db s))"
      "\<forall>r\<in>set (dm_admitted ?s). well_formed_call (ar_call r)"
    and step: "\<not> admits_master e s \<Longrightarrow> \<forall>r\<in>set (dm_admitted s). \<not> ak_is_master (ar_key r) \<Longrightarrow>
      ordinary_evolution (dm_db s) (dm_db ?s) \<and> (\<forall>r\<in>set (dm_admitted ?s). \<not> ak_is_master (ar_key r))"
    by auto
  have "rooted (dm_db ?s)" using rooted_frozen[OF now(2)] Cons.prems(2) by simp
  then show ?case
    using Cons.IH[OF now(1) _ _ now(3)] Cons.prems(3) now(2) step evolution_trans unfolding run by auto
qed

section \<open>Privileged hooks that were there\<close>

text \<open>At some event a sweep found the hook in the trash and removed it.\<close>

fun emptied_meanwhile :: "uuid \<Rightarrow> overlap_event list \<Rightarrow> daemon \<Rightarrow> bool" where
  "emptied_meanwhile i [] s = False"
| "emptied_meanwhile i (ev # es) s =
     ((case ev of Uninterrupted e \<Rightarrow> empties i e (dm_db s, dm_auth s) | _ \<Rightarrow> False)
      \<or> emptied_meanwhile i es (daemon_step ev s))"

lemma stale_intact:
  assumes "stale_writes c db db'" and "wf_db db" and "\<not> ak_is_master c" and h: "h \<in> set (db_hooks db)" "privileged h"
  shows "intact h db db'"
  using assms(1) unfolding stale_writes_def
proof (elim disjE exE conjE)
  assume "writes c db db db'"
  then show ?thesis using writes_intact assms(2,3) h by blast
next
  fix r d assume r: "insert_key r db = Inr d" and later: "writes c d d db'"
  have d: "wf_db d" "db_hooks d = db_hooks db" "db_params d = db_params db" "db_perms d = db_perms db"
    using insert_key_wf[OF assms(2) r] insert_key_shape[OF r] by simp_all
  then have "intact h db d" using h(1) by (intro intact_frame)
  then show ?thesis
    by (rule intact_trans) (rule writes_intact[OF later d(1) assms(3)], assumption, erule untouched_privileged[OF _ h(2)])
qed

lemma daemon_step_intact:
  assumes "wf_db (dm_db s)" and "well_formed_overlap ev" and "\<not> admits_master ev s"
    and "\<forall>r\<in>set (dm_admitted s). well_formed_call (ar_call r) \<and> \<not> ak_is_master (ar_key r)"
    and h: "h \<in> set (db_hooks (dm_db s))" "privileged h"
  shows "intact h (dm_db s) (dm_db (daemon_step ev s)) \<or> emptied_meanwhile (hk_id h) [ev] s"
proof (cases ev)
  case (Admit E t trusted rq call)
  have "dm_db (daemon_step ev s) = dm_db s" using Admit by (auto split: prod.splits sum.splits)
  with h(1) show ?thesis by (simp add: intact_frame)
next
  case (Handle n E)
  show ?thesis
  proof (cases "n < length (dm_admitted s)")
    case True
    let ?r = "dm_admitted s ! n"
    have r: "well_formed_call (ar_call ?r)" "\<not> ak_is_master (ar_key ?r)" using assms(4) True by simp_all
    have "intact h (dm_db s) (snd (serve E (ar_key ?r) (ar_client_ip ?r) (ar_call ?r) (dm_db s)))"
      by (rule stale_intact[OF serve_stale[OF assms(1) r(1)] assms(1) r(2) h])
    with Handle True show ?thesis by (simp add: Let_def)
  qed (use Handle h(1) in \<open>simp add: intact_frame\<close>)
next
  case (Uninterrupted e)
  with react_intact[of "(dm_db s, dm_auth s)" e h] assms(1-3) h show ?thesis by (auto split: prod.splits)
qed

lemma daemon_run_intact:
  assumes "wf_db (dm_db s)" and "rooted (dm_db s)" and "\<forall>e\<in>set es. well_formed_overlap e"
    and "\<forall>r\<in>set (dm_admitted s). well_formed_call (ar_call r) \<and> \<not> ak_is_master (ar_key r)"
    and "master_absent es s" and "h \<in> set (db_hooks (dm_db s))" and "privileged h"
  shows "emptied_meanwhile (hk_id h) es s \<or> intact h (dm_db s) (dm_db (daemon_run es s))"
  using assms
proof (induction es arbitrary: s h)
  case Nil
  then show ?case by (simp add: daemon_run_def intact_frame)
next
  case (Cons ev es)
  let ?s = "daemon_step ev s"
  have run: "daemon_run (ev # es) s = daemon_run es ?s" by (simp add: daemon_run_def)
  from Cons.prems daemon_step_sound[of s ev] have now: "wf_db (dm_db ?s)"
      "map frozen (masters (dm_db ?s)) = map frozen (masters (dm_db s))"
      "\<forall>r\<in>set (dm_admitted ?s). well_formed_call (ar_call r) \<and> \<not> ak_is_master (ar_key r)" by auto
  have "rooted (dm_db ?s)" using rooted_frozen[OF now(2)] Cons.prems(2) by simp
  note rest = Cons.IH[OF now(1) this _ now(3)]
  consider "emptied_meanwhile (hk_id h) [ev] s" | (kept) "intact h (dm_db s) (dm_db ?s)"
    using daemon_step_intact[OF Cons.prems(1) _ _ Cons.prems(4,6,7)] Cons.prems(3,5) by auto
  then show ?case
  proof cases
    case kept
    show ?thesis
    proof (cases "emptied_meanwhile (hk_id h) es ?s")
      case False
      have "intact h (dm_db s) (dm_db (daemon_run es ?s))"
        using rest Cons.prems(3,5) untouched_privileged[OF _ Cons.prems(7)] False
        by (intro intact_trans[OF kept]) (metis list.set_intros(2) master_absent.simps(2) untouched_def)
      then show ?thesis by (simp add: run)
    qed simp
  qed simp
qed

section \<open>A run\<close>

text \<open>The steward's request is admitted, the worker sweeps, and then its hook goes to the trash.\<close>

definition late_deletion :: "overlap_event list" where
  "late_deletion = [Admit demo_env 0 [] steward_request (DeleteHook ''deploy'' None),
     Uninterrupted (Sweep demo_externals default_config 0 0), Handle 0 demo_env]"

lemma late_deletion_absent: "master_absent late_deletion (idle_daemon site_db demo_auth)"
  by (simp add: late_deletion_def idle_daemon_def steward_authenticates)

lemma late_deletion_formed: "\<forall>e\<in>set late_deletion. well_formed_overlap e"
  by (simp add: late_deletion_def)

lemma site_rooted: "rooted site_db"
  by (rule forest_rooted[OF site_forest])

section \<open>Properties\<close>

text \<open>
  C7. However the middlewares and handlers of any number of requests interleave, so that a handler runs with the
  copy of a key that was since changed or deleted, the constraints of the schema hold, and the row of the
  master changes in nothing but its address binding and its time of change.
\<close>

theorem overlapping_requests_keep_constraints:
  assumes "wf_db db" and "rooted db" and "\<forall>e\<in>set es. well_formed_overlap e"
  shows "wf_db (dm_db (daemon_run es (idle_daemon db au)))
    \<and> map frozen (masters (dm_db (daemon_run es (idle_daemon db au)))) = map frozen (masters db)"
  using daemon_run_sound(1)[of "idle_daemon db au" es] assms by (simp add: idle_daemon_def)

theorem overlapping_requests_keep_constraints_witness:
  "wf_db (dm_db (daemon_run late_deletion (idle_daemon site_db demo_auth)))
    \<and> map frozen (masters (dm_db (daemon_run late_deletion (idle_daemon site_db demo_auth)))) = [frozen root_key]"
proof -
  have "masters site_db = [root_key]" by (simp add: masters_def)
  then show ?thesis
    using overlapping_requests_keep_constraints[OF site_wf site_rooted late_deletion_formed, of demo_auth] by simp
qed

text \<open>
  C8. Holding on to a copy does not replace the master.  Over every interleaving in which no request of the
  master is admitted: the row of the master is the same; whoever has a global scope at the end had it at the
  start; a hook that ran under another account at the start, unless a sweep found it in the trash and removed
  it, is there with the same account, script, template and settings and the same parameters, and no key has a
  verb on it that it had not; and a hook that runs under another account at the end did so at the start.  What
  can change of such a hook is its owner, its trash marks and the time of its last change, and keys can lose
  their verbs on it.
\<close>

theorem stale_copies_gain_nothing:
  assumes "wf_db db" and "rooted db" and "\<forall>e\<in>set es. well_formed_overlap e"
    and "master_absent es (idle_daemon db au)" and "db' = dm_db (daemon_run es (idle_daemon db au))"
  shows "masters db' = masters db
    \<and> (\<forall>k'\<in>set (db_keys db').
         (ak_can_manage_keys k' \<longrightarrow> (\<exists>k\<in>set (db_keys db). ak_id k = ak_id k' \<and> ak_can_manage_keys k))
       \<and> (ak_can_manage_hooks k' \<longrightarrow> (\<exists>k\<in>set (db_keys db). ak_id k = ak_id k' \<and> ak_can_manage_hooks k)))
    \<and> (\<forall>h'\<in>set (db_hooks db'). privileged h' \<longrightarrow> (\<exists>h\<in>set (db_hooks db). privileged h \<and> untouched h db h' db'))
    \<and> (\<forall>h\<in>set (db_hooks db). privileged h \<and> \<not> emptied_meanwhile (hk_id h) es (idle_daemon db au) \<longrightarrow>
         (\<exists>h'\<in>set (db_hooks db'). hk_id h' = hk_id h
            \<and> h' = h\<lparr>hk_owner_key_id := hk_owner_key_id h', hk_is_deleted := hk_is_deleted h',
                     hk_deleted_at := hk_deleted_at h', hk_deleted_by := hk_deleted_by h',
                     hk_updated_at := hk_updated_at h'\<rparr>)
         \<and> filter (\<lambda>p. hp_hook_id p = hk_id h) (db_params db') = filter (\<lambda>p. hp_hook_id p = hk_id h) (db_params db)
         \<and> (\<forall>verb\<in>{pm_can_execute, pm_can_manage, pm_can_view_execution}. \<forall>p'\<in>set (db_perms db').
              pm_hook_id p' = hk_id h \<and> verb p' \<longrightarrow>
              (\<exists>p\<in>set (db_perms db). pm_api_key_id p = pm_api_key_id p' \<and> pm_hook_id p = hk_id h \<and> verb p)))"
proof -
  let ?s = "idle_daemon db au"
  have start: "dm_db ?s = db" "dm_admitted ?s = []" by (simp_all add: idle_daemon_def)
  have "ordinary_evolution db db'"
    using daemon_run_sound(2)[of ?s es] assms by (simp add: start)
  moreover have "intact h db db'" if "h \<in> set (db_hooks db)" "privileged h" "\<not> emptied_meanwhile (hk_id h) es ?s" for h
    using daemon_run_intact[of ?s es h] assms that by (simp add: start)
  ultimately show ?thesis
    unfolding ordinary_evolution_def
    by (elim conjE) (intro conjI[of "_ = _"] conjI[of "\<forall>k\<in>set (db_keys _). _ k"]
        conjI[of "\<forall>h\<in>set (db_hooks _). _ h"] ballI[of "set (db_hooks db)"] impI intact_unfolded; simp)
qed

theorem stale_copies_gain_nothing_witness:
  "masters (dm_db (daemon_run late_deletion (idle_daemon site_db demo_auth))) = [root_key]"
proof -
  have "masters site_db = [root_key]" by (simp add: masters_def)
  then show ?thesis
    using stale_copies_gain_nothing[OF site_wf site_rooted late_deletion_formed late_deletion_absent refl] by simp
qed

end
