(* ===== verification/Spec2Isabelle.thy ===== *)
theory Spec2Isabelle
  imports Authentication Executions Hook_Lifecycle Key_Lifecycle Key_Permissions Crypto Replay Executor_Plan
    Key_Tree Trusted_Proxies Start_Up Reports Router Row_Types Migrations Divergences Concurrent_Runs
    Db_Session Overlapping_Requests
begin

text \<open>
  simply\_hook\_executor: a daemon that runs operator-defined scripts ("hooks") for holders of API keys.

  Program and model.  A request passes a middleware (\<open>src/middleware.rs\<close>), which resolves the client's
  address behind trusted proxies, finds the key by its hash, checks the signature, its time window and
  its single use, and hands the key to a handler (\<open>src/api\<close>).  A handler checks its guards, writes rows
  one after the other without a transaction, and logs to the audit table; the invocation handlers run a
  process through the executor (\<open>src/executor.rs\<close>).  A background worker purges old rows.  The state is
  the database (record \<open>database\<close>, one list per table, in insertion order) with the authentication state
  (the pinned master and the replay guard) and, for runs, the concurrency limiter.  A handler is a function
  \<open>database \<Rightarrow> 'a result \<times> database\<close>: the database is returned on errors too, so a write before an error
  is visible.  Every error, early return and panic (\<open>None\<close>) of the source is a branch.

  Theories, in the order of the code.
    \<^item> \<open>Hook_Prelude\<close>, \<open>App_Error\<close>, \<open>Utf8\<close>: strings as their UTF-8 bytes, Rust's string functions, error
      values with their HTTP mapping (\<open>src/error.rs\<close>), and the record \<open>externals\<close> of third-party functions.
    \<^item> \<open>Entities\<close>, \<open>Store\<close>: the rows of \<open>src/entities\<close>, the constraints and foreign-key actions of the final
      schema (\<open>src/migration\<close>), the queries and writes; the locales \<open>append_table\<close> and \<open>table\<close> state what a
      table promises and are interpreted on each of them.
    \<^item> \<open>Crypto\<close>, \<open>Replay\<close>, \<open>Client_Ip\<close>, \<open>Authentication\<close>: \<open>src/crypto.rs\<close>, \<open>src/replay.rs\<close>, \<open>src/config.rs\<close>
      (addresses), \<open>src/master.rs\<close> and \<open>src/middleware.rs\<close>.
    \<^item> \<open>Config\<close>, \<open>Config_Env\<close>, \<open>Trusted_Proxies\<close>: \<open>src/config.rs\<close>: settings, their reading from the
      environment, and the cache of proxy hostnames.
    \<^item> \<open>Support\<close>, \<open>Guards\<close>, \<open>Keys\<close>, \<open>Key_Lifecycle\<close>, \<open>Key_Permissions\<close>, \<open>Hooks\<close>, \<open>Hook_Lifecycle\<close>,
      \<open>Executions\<close>: the handlers of \<open>src/api\<close>, one definition each.
    \<^item> \<open>Reports\<close>: the reading side of \<open>src/api\<close>: audit listing, settings, probes; a listing shows what a single
      read would.
    \<^item> \<open>Executor_Plan\<close>, \<open>Executor_Run\<close>: \<open>src/executor.rs\<close>; the arguments template is given a grammar
      (\<open>reads_as\<close>) that the substitution implements, and the record of a run is stated field by field from
      what the host answers; \<open>Concurrent_Runs\<close> splits \<open>execute_hook\<close> where it
      waits for its child and interleaves the halves of any number of runs, finished or abandoned.
    \<^item> \<open>Retention\<close>: \<open>src/retention.rs\<close>, the sweeps and the loop around them.
    \<^item> \<open>Migrations\<close>: \<open>src/migration\<close>, every script as statements over a store of tables; an upgrade keeps the
      data, a downgrade undoes it, and from any prefix of the migrations the pending ones end in the columns, types
      and constraints of the entities.
    \<^item> \<open>Db_Session\<close>: \<open>src/db.rs\<close>, the options of the pool and the session pragmas.
    \<^item> \<open>Start_Up\<close>: \<open>src/main.rs\<close> and \<open>src/state.rs\<close>: configuration, bootstrap of the master key, the pin.
    \<^item> \<open>Api\<close>, \<open>System\<close>: \<open>create_app\<close> in \<open>src/lib.rs\<close>: which call goes through which middleware to which
      handler, and histories of requests and sweeps.  \<open>Router\<close>: the route table itself, the layers around
      it and the extractors of \<open>src/extract.rs\<close>.  \<open>Overlapping_Requests\<close>: histories in which other requests are
      served between the middleware and the handler of a request.

  What the lemmas show.  \<open>Rbac\<close> states the access model of \<open>docs/RBAC\_MODEL.md\<close> as a relation
  \<open>permitted\<close> on rows; \<open>Access_Keys\<close> and \<open>Access_Hooks\<close> prove that each handler refines it, and
  \<open>Access_Invariants\<close>, \<open>System_Properties\<close> derive what then holds of every history.  \<open>Failures\<close> shows that
  no write after the first can fail, \<open>Audit_Trail\<close> that every success is logged, \<open>Key_Tree\<close> what deletion
  of a key does.  \<open>Row_Types\<close> shows that every stored row keeps the form the readers rely on, so that
  parsing what was stored never fails.  \<open>Concurrent_Runs\<close> bounds the runs of a key in flight and shows that
  no permit is lost.  \<open>Call_Properties\<close> collects the properties of single calls.  \<open>Divergences\<close> holds
  concrete runs on which the code does what it does not mean to.  \<open>Demo_Data\<close> and
  \<open>Demo_Externals\<close> are concrete instances for the witnesses.

  Bounds.  Timestamps of signatures are 64-bit words with the wrap-around of a release build; ids are
  128-bit words; database times are unbounded integers (nanoseconds).  No recursion is cut off by fuel:
  the walk over the key tree has a measure, and \<open>descend_within\<close> counts its rounds.

  Histories are lists of events without a bound on their length.

  Not modelled: the HTML and JavaScript of the web interface and the serving of its files; the text of
  log lines; HTTP framing and the parsing of JSON by serde (a handler takes the decoded payload); the
  drivers and the engine behind \<open>Db_Session\<close>, whose answers are a parameter; failures of the database
  other than the constraints of its schema; and the interleaving of the statements of two handlers that
  only touch the database: such a handler runs to its end, \<open>Overlapping_Requests\<close> cuts a request between
  middleware and handler and \<open>Concurrent_Runs\<close> where it waits for its child.
\<close>

end
